(* ===== verification/Prelude.thy ===== *)
theory Prelude
  imports Main "HOL-Library.Word" "HOL-Library.AList" "HOL-Library.Multiset"
begin

text \<open>
  Shared vocabulary of the development: Go's 64-bit signed arithmetic, the fragment of
  package \<open>time\<close> the server uses, decimal formatting of integers (\<open>fmt\<close>'s \<open>%d\<close>), Go maps as
  association lists with distinct keys, the update of the first matching element of a slice,
  and the lemma collections the component theories extend.
\<close>

named_theorems go_defs \<open>definitions that a proof about one operation unfolds\<close>
named_theorems frame \<open>fields an operation leaves alone\<close>

section \<open>Machine integers\<close>

text \<open>Go's \<open>int\<close> and \<open>int64\<close> on the 64-bit targets of the server: two's complement wrap-around.\<close>

definition wrap64 :: "int \<Rightarrow> int" where
  "wrap64 x = (x + 2 ^ 63) mod 2 ^ 64 - 2 ^ 63"

definition int64_range :: "int \<Rightarrow> bool" where
  "int64_range x \<longleftrightarrow> - (2 ^ 63) \<le> x \<and> x < 2 ^ 63"

lemma wrap64_id [simp]: "int64_range x \<Longrightarrow> wrap64 x = x"
  by (simp add: wrap64_def int64_range_def)

lemma wrap64_range [simp, intro]: "int64_range (wrap64 x)"
  by (simp add: wrap64_def int64_range_def)

lemma wrap64_small: "- (2 ^ 63) \<le> x \<Longrightarrow> x < 2 ^ 63 \<Longrightarrow> wrap64 x = x"
  by (simp add: wrap64_def)

lemma wrap64_max_succ: "wrap64 (2 ^ 63) = - (2 ^ 63)"
  by (simp add: wrap64_def)

section \<open>Time\<close>

text \<open>
  A \<open>time.Time\<close> is the number of nanoseconds since Go's zero time (1 January, year 1), so
  \<open>IsZero\<close> is equality with 0; a \<open>time.Duration\<close> is a signed 64-bit number of nanoseconds.
  \<open>Sub\<close> saturates at the ends of the duration range, as the package documents, and
  \<open>time.Duration(n) * time.Second\<close> is a wrapping 64-bit product.
\<close>

type_synonym time = int
type_synonym duration = int

abbreviation (input) zero_time :: time where "zero_time \<equiv> 0"

definition second :: duration where
  "second = 1000000000"

definition seconds :: "int \<Rightarrow> duration" where
  "seconds n = wrap64 (n * second)"

definition time_sub :: "time \<Rightarrow> time \<Rightarrow> duration" where
  "time_sub t u = max (- (2 ^ 63)) (min (2 ^ 63 - 1) (t - u))"

text \<open>The largest number of seconds whose nanosecond count still fits a duration.\<close>

definition max_seconds :: int where
  "max_seconds = 9223372036"

lemma seconds_exact: "0 \<le> n \<Longrightarrow> n \<le> max_seconds \<Longrightarrow> seconds n = n * 1000000000"
  by (simp add: seconds_def second_def max_seconds_def wrap64_def)

lemma seconds_nonneg: "0 \<le> n \<Longrightarrow> n \<le> max_seconds \<Longrightarrow> 0 \<le> seconds n"
  by (simp add: seconds_exact)

lemma seconds_pos: "0 < n \<Longrightarrow> n \<le> max_seconds \<Longrightarrow> 0 < seconds n"
  by (simp add: seconds_exact)

lemma seconds_overflow: "seconds (max_seconds + 1) < 0"
  by (simp add: seconds_def second_def max_seconds_def wrap64_def)

lemma time_sub_exact: "int64_range (t - u) \<Longrightarrow> time_sub t u = t - u"
  by (auto simp: time_sub_def int64_range_def)

lemma time_sub_less_iff: "int64_range d \<Longrightarrow> - (2 ^ 63) < d \<Longrightarrow> time_sub t u < d \<longleftrightarrow> t - u < d"
  by (auto simp: time_sub_def int64_range_def)

lemma time_sub_nonneg_iff: "0 \<le> time_sub t u \<longleftrightarrow> u \<le> t"
  by (auto simp: time_sub_def)

section \<open>Decimal formatting\<close>

fun nat_digits :: "nat \<Rightarrow> string" where
  "nat_digits n =
     (if n < 10 then [char_of (48 + n)] else nat_digits (n div 10) @ [char_of (48 + n mod 10)])"

declare nat_digits.simps [simp del]

definition fmt_d :: "int \<Rightarrow> string" where
  "fmt_d n = (if n < 0 then ''-'' @ nat_digits (nat (- n)) else nat_digits (nat n))"

lemma nat_digits_nonempty [simp]: "nat_digits n \<noteq> []"
  by (subst nat_digits.simps) simp

lemma fmt_d_nonempty [simp]: "fmt_d n \<noteq> []"
  by (simp add: fmt_d_def)

section \<open>Go maps\<close>

text \<open>
  A Go map is an association list whose keys are distinct; \<open>m[k] = v\<close> is \<^const>\<open>AList.update\<close>,
  \<open>delete(m, k)\<close> is \<^const>\<open>AList.delete\<close>, \<open>len(m)\<close> is the length and the comma-ok read is
  \<^const>\<open>map_of\<close>. The laws are stated once as an interface and discharged for these operations.
\<close>

type_synonym ('k, 'v) gomap = "('k \<times> 'v) list"

definition gomap_ok :: "('k, 'v) gomap \<Rightarrow> bool" where
  "gomap_ok m \<longleftrightarrow> distinct (map fst m)"

abbreviation keys :: "('k, 'v) gomap \<Rightarrow> 'k set" where
  "keys m \<equiv> fst ` set m"

locale go_map =
  fixes put :: "'k \<Rightarrow> 'v \<Rightarrow> 'm \<Rightarrow> 'm"
    and del :: "'k \<Rightarrow> 'm \<Rightarrow> 'm"
    and get :: "'m \<Rightarrow> 'k \<Rightarrow> 'v option"
    and len :: "'m \<Rightarrow> nat"
    and ok :: "'m \<Rightarrow> bool"
    and nil :: 'm
  assumes ok_nil: "ok nil"
    and ok_put: "ok m \<Longrightarrow> ok (put k v m)"
    and ok_del: "ok m \<Longrightarrow> ok (del k m)"
    and get_nil: "get nil k = None"
    and get_put: "ok m \<Longrightarrow> get (put k v m) = (get m)(k \<mapsto> v)"
    and get_del: "ok m \<Longrightarrow> get (del k m) = (get m)(k := None)"
    and len_dom: "ok m \<Longrightarrow> len m = card (dom (get m))"
    and fin_dom: "ok m \<Longrightarrow> finite (dom (get m))"
begin

lemma put_put_get: "ok m \<Longrightarrow> get (put k v (put k w m)) = get (put k v m)"
  by (simp add: get_put ok_put)

lemma len_put_fresh: "ok m \<Longrightarrow> get m k = None \<Longrightarrow> len (put k v m) = Suc (len m)"
  by (simp add: len_dom ok_put get_put fin_dom domIff)

lemma len_put_old: "ok m \<Longrightarrow> get m k \<noteq> None \<Longrightarrow> len (put k v m) = len m"
  by (simp add: len_dom ok_put get_put domIff insert_absorb)

lemma len_put_le: "ok m \<Longrightarrow> len (put k v m) \<le> Suc (len m)"
  by (cases "get m k") (simp_all add: len_put_fresh len_put_old)

lemma len_le_card: "ok m \<Longrightarrow> finite K \<Longrightarrow> dom (get m) \<subseteq> K \<Longrightarrow> len m \<le> card K"
  by (simp add: len_dom card_mono)

lemma len_eq_card_iff:
  "ok m \<Longrightarrow> finite K \<Longrightarrow> dom (get m) \<subseteq> K \<Longrightarrow> len m = card K \<longleftrightarrow> dom (get m) = K"
  by (auto simp: len_dom dest: card_subset_eq)

end

lemma dom_map_of_keys: "dom (map_of m) = keys m"
  by (simp add: dom_map_of_conv_image_fst)

interpretation am: go_map AList.update AList.delete map_of length gomap_ok "[]"
proof unfold_locales
  fix m :: "('k \<times> 'v) list"
  assume ok: "gomap_ok m"
  show "length m = card (dom (map_of m))"
    using ok by (metis gomap_ok_def distinct_card dom_map_of_keys length_map set_map)
qed (auto simp: gomap_ok_def update_conv' delete_conv' distinct_update distinct_delete
       finite_dom_map_of)

lemma gomap_ok_Nil [simp]: "gomap_ok []"
  by (rule am.ok_nil)

lemma keys_update [simp]: "keys (AList.update k v m) = insert k (keys m)"
  by (simp add: dom_map_of_keys [symmetric] update_conv' del: map_of_eq_None_iff)

lemma gomap_lookup_iff: "gomap_ok m \<Longrightarrow> map_of m k = Some v \<longleftrightarrow> (k, v) \<in> set m"
  by (simp add: gomap_ok_def)

section \<open>Slices\<close>

text \<open>
  A pointer obtained by a linear search points at the first match; writing through it updates
  that element only.
\<close>

fun update_first :: "('a \<Rightarrow> bool) \<Rightarrow> ('a \<Rightarrow> 'a) \<Rightarrow> 'a list \<Rightarrow> 'a list" where
  "update_first P f [] = []"
| "update_first P f (x # xs) = (if P x then f x # xs else x # update_first P f xs)"

lemma length_update_first [simp]: "length (update_first P f xs) = length xs"
  by (induction xs) auto

lemma update_first_none: "\<forall>x\<in>set xs. \<not> P x \<Longrightarrow> update_first P f xs = xs"
  by (induction xs) auto

lemma map_update_first:
  "(\<And>x. g (f x) = g x) \<Longrightarrow> map g (update_first P f xs) = map g xs"
  by (induction xs) auto

lemma update_first_distinct:
  "distinct (map g xs) \<Longrightarrow>
   update_first (\<lambda>x. g x = k) f xs = map (\<lambda>x. if g x = k then f x else x) xs"
  by (induction xs) (auto intro!: map_idI [symmetric] simp: image_iff)

lemma find_Some_in: "List.find P xs = Some x \<Longrightarrow> x \<in> set xs \<and> P x"
  by (auto simp: find_Some_iff)

lemma find_distinct_iff:
  "distinct (map g xs) \<Longrightarrow> List.find (\<lambda>x. g x = k) xs = Some x \<longleftrightarrow> x \<in> set xs \<and> g x = k"
  by (induction xs) (auto simp: image_iff)

lemma find_eq_None_iff: "List.find (\<lambda>x. g x = k) xs = None \<longleftrightarrow> k \<notin> g ` set xs"
  by (auto simp: find_None_iff)

section \<open>Swaps\<close>

text \<open>The effect of the swap callback of \<open>rand.Shuffle\<close> on the captured slice.\<close>

definition swap :: "nat \<Rightarrow> nat \<Rightarrow> 'a list \<Rightarrow> 'a list" where
  "swap i j xs = xs[i := xs ! j, j := xs ! i]"

fun swaps :: "(nat \<times> nat) list \<Rightarrow> 'a list \<Rightarrow> 'a list" where
  "swaps [] xs = xs"
| "swaps ((i, j) # ss) xs = swaps ss (swap i j xs)"

lemma length_swap [simp]: "length (swap i j xs) = length xs"
  by (simp add: swap_def)

lemma length_swaps [simp]: "length (swaps ss xs) = length xs"
  by (induction ss xs rule: swaps.induct) auto

lemma mset_swap_idx: "i < length xs \<Longrightarrow> j < length xs \<Longrightarrow> mset (swap i j xs) = mset xs"
  by (simp add: swap_def mset_swap)

lemma mset_swaps:
  "\<forall>(i, j)\<in>set ss. i < length xs \<and> j < length xs \<Longrightarrow> mset (swaps ss xs) = mset xs"
  by (induction ss xs rule: swaps.induct) (auto simp: mset_swap_idx)

end
