(* ===== verification/GameTypes.thy ===== *)
theory GameTypes
  imports Prelude
begin

text \<open>
  The data model of the game core: \<open>internal/game/types.go\<close>, \<open>action.go\<close>, \<open>event.go\<close> and
  \<open>error.go\<close>. Each string-typed Go enumeration is a datatype with one constructor per constant
  and, where the code uses it, one for the zero value \<open>""\<close>. A pointer field is an option, a
  slice a list (a nil slice is the empty list), a map an association list.
\<close>

section \<open>types.go\<close>

type_synonym player_id = string

datatype role = RoleNone | RoleMafia | RoleCitizen | RoleDoctor | RolePolice

datatype team = TeamNone | TeamMafia | TeamCitizen

definition TeamOf :: "role \<Rightarrow> team" where
  "TeamOf r = (if r = RoleMafia then TeamMafia else TeamCitizen)"

datatype phase =
    PhaseNone | PhaseLobby | PhaseIntro | PhaseNight | PhaseDay | PhaseVote | PhaseRecount | PhaseEnd

datatype night_step =
    NightStepNone | NightStepIntro | NightStepMafia | NightStepPolice | NightStepDoctor
  | NightStepResolved

datatype end_reason = EndMafiaWin | EndCitizenWin | EndHostForceEnd

record player =
  ID :: player_id
  Name :: string
  Alive :: bool
  Role :: role
  Keyword :: string

record options =
  MafiaCount :: int
  MaxPlayers :: int
  IntroSecondsPerPlayer :: int
  DiscussionSeconds :: int
  NightMafiaSeconds :: int
  NightPoliceSeconds :: int
  NightDoctorSeconds :: int
  DoctorSelfHealAllowed :: bool
  AnnouncementVoiceOn :: bool

definition defaultNightMafiaSeconds :: int where "defaultNightMafiaSeconds = 30"
definition defaultNightPoliceSeconds :: int where "defaultNightPoliceSeconds = 10"
definition defaultNightDoctorSeconds :: int where "defaultNightDoctorSeconds = 10"
definition defaultNightIntroSeconds :: int where "defaultNightIntroSeconds = 20"
definition defaultDayIntroSeconds :: int where "defaultDayIntroSeconds = 5"
definition defaultFinalResultBufferSeconds :: int where "defaultFinalResultBufferSeconds = 5"

lemmas default_seconds [simp] =
  defaultNightMafiaSeconds_def defaultNightPoliceSeconds_def defaultNightDoctorSeconds_def
  defaultNightIntroSeconds_def defaultDayIntroSeconds_def defaultFinalResultBufferSeconds_def

definition recommendedMafiaCount :: "int \<Rightarrow> int" where
  "recommendedMafiaCount playerCount =
     (if playerCount \<le> 6 then 1 else if playerCount \<le> 9 then 2 else 3)"

definition DefaultOptions :: "int \<Rightarrow> options" where
  "DefaultOptions playerCount =
     \<lparr>MafiaCount = recommendedMafiaCount playerCount, MaxPlayers = 0,
      IntroSecondsPerPlayer = 20, DiscussionSeconds = 180,
      NightMafiaSeconds = defaultNightMafiaSeconds,
      NightPoliceSeconds = defaultNightPoliceSeconds,
      NightDoctorSeconds = defaultNightDoctorSeconds,
      DoctorSelfHealAllowed = True, AnnouncementVoiceOn = True\<rparr>"

definition nightStepSeconds :: "options \<Rightarrow> night_step \<Rightarrow> int" where
  "nightStepSeconds opts step =
     (let pick = (\<lambda>v def. if v \<le> 0 then def else v) in
      case step of
        NightStepIntro \<Rightarrow> defaultNightIntroSeconds
      | NightStepMafia \<Rightarrow> pick (NightMafiaSeconds opts) defaultNightMafiaSeconds
      | NightStepPolice \<Rightarrow> pick (NightPoliceSeconds opts) defaultNightPoliceSeconds
      | NightStepDoctor \<Rightarrow> pick (NightDoctorSeconds opts) defaultNightDoctorSeconds
      | _ \<Rightarrow> 0)"

record pending_actions =
  paMafiaTarget :: "player_id option"
  paDoctorTarget :: "player_id option"
  paPoliceTarget :: "player_id option"

record police_check_record =
  pcDay :: int
  pcTarget :: player_id
  pcTeam :: team

record pending_game_end =
  geReason :: end_reason
  geWinner :: "team option"
  geDeadline :: time

record state =
  GameID :: string
  Phase :: phase
  Day :: int
  Players :: "player list"
  HostID :: player_id
  Settings :: options
  StartedAt :: time
  Deadline :: time
  IntroSpeakerIdx :: int
  IntroSpeakerStartedAt :: time
  MafiaRepresentativeID :: player_id
  PendingMafiaTarget :: "player_id option"
  PendingDoctorTarget :: "player_id option"
  PendingPoliceTarget :: "player_id option"
  PoliceCheckedThisNight :: bool
  NightStep :: night_step
  NightStepDeadline :: time
  Paused :: bool
  PausedAt :: time
  PoliceHistory :: "police_check_record list"
  Votes :: "(player_id, player_id) gomap"
  VoteRound :: int
  VoteCandidates :: "player_id list"
  Winner :: "team option"
  EndReason :: "end_reason option"
  PendingGameEnd :: "pending_game_end option"
  LastTickAt :: time

text \<open>The zero \<open>Options\<close> and the zero \<open>State\<close>, which a freshly constructed engine holds.\<close>

definition zero_options :: options where
  "zero_options =
     \<lparr>MafiaCount = 0, MaxPlayers = 0, IntroSecondsPerPlayer = 0, DiscussionSeconds = 0,
      NightMafiaSeconds = 0, NightPoliceSeconds = 0, NightDoctorSeconds = 0,
      DoctorSelfHealAllowed = False, AnnouncementVoiceOn = False\<rparr>"

definition zero_state :: state where
  "zero_state =
     \<lparr>GameID = '''', Phase = PhaseNone, Day = 0, Players = [], HostID = '''',
      Settings = zero_options, StartedAt = zero_time, Deadline = zero_time,
      IntroSpeakerIdx = 0, IntroSpeakerStartedAt = zero_time, MafiaRepresentativeID = '''',
      PendingMafiaTarget = None, PendingDoctorTarget = None, PendingPoliceTarget = None,
      PoliceCheckedThisNight = False, NightStep = NightStepNone, NightStepDeadline = zero_time,
      Paused = False, PausedAt = zero_time, PoliceHistory = [], Votes = [], VoteRound = 0,
      VoteCandidates = [], Winner = None, EndReason = None, PendingGameEnd = None,
      LastTickAt = zero_time\<rparr>"

definition Pending :: "state \<Rightarrow> pending_actions" where
  "Pending s =
     \<lparr>paMafiaTarget = PendingMafiaTarget s, paDoctorTarget = PendingDoctorTarget s,
      paPoliceTarget = PendingPoliceTarget s\<rparr>"

definition FindPlayer :: "state \<Rightarrow> player_id \<Rightarrow> player option" where
  "FindPlayer s pid = List.find (\<lambda>p. ID p = pid) (Players s)"

fun count_players :: "(player \<Rightarrow> bool) \<Rightarrow> player list \<Rightarrow> nat" where
  "count_players P [] = 0"
| "count_players P (p # ps) = (if P p then Suc (count_players P ps) else count_players P ps)"

definition LiveCount :: "state \<Rightarrow> nat" where
  "LiveCount s = count_players Alive (Players s)"

definition LiveMafiaCount :: "state \<Rightarrow> nat" where
  "LiveMafiaCount s = count_players (\<lambda>p. Alive p \<and> Role p = RoleMafia) (Players s)"

definition LiveCitizenSideCount :: "state \<Rightarrow> nat" where
  "LiveCitizenSideCount s = count_players (\<lambda>p. Alive p \<and> Role p \<noteq> RoleMafia) (Players s)"

definition HasLivingDoctor :: "state \<Rightarrow> bool" where
  "HasLivingDoctor s \<longleftrightarrow> list_ex (\<lambda>p. Alive p \<and> Role p = RoleDoctor) (Players s)"

definition HasLivingPolice :: "state \<Rightarrow> bool" where
  "HasLivingPolice s \<longleftrightarrow> list_ex (\<lambda>p. Alive p \<and> Role p = RolePolice) (Players s)"

definition LivingMafiaIDs :: "state \<Rightarrow> player_id list" where
  "LivingMafiaIDs s = map ID (filter (\<lambda>p. Alive p \<and> Role p = RoleMafia) (Players s))"

section \<open>action.go\<close>

datatype action =
    StartGame player_id options
  | AdvanceIntro player_id
  | EndSelfIntro player_id
  | SubmitMafiaKill player_id player_id
  | SubmitDoctorHeal player_id player_id
  | SubmitPoliceCheck player_id player_id
  | EndNightEarly player_id
  | EndDiscussionEarly player_id
  | SubmitVote player_id player_id
  | ToggleVoice player_id bool
  | ForceEndGame player_id
  | PauseGame player_id
  | ResumeGame player_id

section \<open>event.go\<close>

datatype event =
    PlayerJoined player_id string
  | GameStarted state
  | PhaseChanged phase int time
  | RoleRevealedToPlayer player_id role string
  | MafiaCohortRevealed "player_id list" player_id
  | IntroSpeakerChanged player_id int
  | MafiaTargetSelected player_id player_id
  | PoliceResult player_id player_id team
  | NightStepChanged night_step int time
  | GamePaused phase
  | GameResumed phase time
  | DeathAnnounced player_id
  | PeacefulNight
  | DiscussionTimerTick int
  | VoteTallied "(player_id, int) gomap" "player_id option" bool
  | Eliminated player_id role
  | MafiaRepresentativeReassigned player_id player_id
  | GameEnded "team option" end_reason "player list"
  | VoiceToggled bool

datatype visibility = VisPublic | VisPlayer | VisRoleMafia

record envelope =
  Event :: event
  Visibility :: visibility
  Recipient :: player_id

definition pub :: "event \<Rightarrow> envelope" where
  "pub ev = \<lparr>Event = ev, Visibility = VisPublic, Recipient = ''''\<rparr>"

definition priv :: "event \<Rightarrow> player_id \<Rightarrow> envelope" where
  "priv ev pid = \<lparr>Event = ev, Visibility = VisPlayer, Recipient = pid\<rparr>"

definition mafia :: "event \<Rightarrow> envelope" where
  "mafia ev = \<lparr>Event = ev, Visibility = VisRoleMafia, Recipient = ''''\<rparr>"

lemmas envelope_defs [simp] = pub_def priv_def mafia_def

section \<open>error.go\<close>

datatype error_code =
    CodeValidation | CodeWrongPhase | CodePermissionDenied | CodeRoleMismatch
  | CodeNotRepresentative | CodeDeadPlayer | CodeAlreadyDone | CodeInvalidTarget
  | CodeUnknownPlayer

record field_error =
  feField :: string
  feCode :: error_code
  feMessage :: string

text \<open>
  The error values that cross the package's interface: an \<open>EngineError\<close> by its code and field
  name (the developer message is text that no code inspects), the accumulated
  \<open>ValidationErrors\<close>, any other error, and a Go run-time panic.
\<close>

datatype go_error =
    EngineError error_code string
  | ValidationErrors "field_error list"
  | OtherError
  | GoPanic

definition errf :: "error_code \<Rightarrow> go_error" where
  "errf code = EngineError code ''''"

text \<open>
  \<open>errors.Is(err, target)\<close> for a sentinel: \<open>None\<close> stands for a sentinel with an empty code.
\<close>

fun error_Is :: "go_error \<Rightarrow> error_code option \<Rightarrow> bool" where
  "error_Is (EngineError c f) t = (case t of None \<Rightarrow> True | Some c' \<Rightarrow> c = c')"
| "error_Is (ValidationErrors fes) t = (t = None \<or> t = Some CodeValidation)"
| "error_Is OtherError t = False"
| "error_Is GoPanic t = False"

section \<open>Facts about the player list\<close>

abbreviation player_ids :: "state \<Rightarrow> player_id set" where
  "player_ids s \<equiv> ID ` set (Players s)"

abbreviation live_mafia :: "player \<Rightarrow> bool" where
  "live_mafia p \<equiv> Alive p \<and> Role p = RoleMafia"

abbreviation live_citizen :: "player \<Rightarrow> bool" where
  "live_citizen p \<equiv> Alive p \<and> Role p \<noteq> RoleMafia"

lemma count_players_filter: "count_players P ps = length (filter P ps)"
  by (induction ps) auto

lemma count_players_split:
  "count_players P ps = count_players (\<lambda>p. P p \<and> Q p) ps + count_players (\<lambda>p. P p \<and> \<not> Q p) ps"
  by (induction ps) auto

lemma LiveCount_split: "LiveCount s = LiveMafiaCount s + LiveCitizenSideCount s"
  unfolding LiveCount_def LiveMafiaCount_def LiveCitizenSideCount_def
  by (rule count_players_split)

lemma count_players_pos: "0 < count_players P ps \<longleftrightarrow> (\<exists>p\<in>set ps. P p)"
  by (induction ps) auto

lemma set_LivingMafiaIDs: "set (LivingMafiaIDs s) = ID ` {p \<in> set (Players s). live_mafia p}"
  by (auto simp: LivingMafiaIDs_def)

lemma LivingMafiaIDs_empty: "LivingMafiaIDs s = [] \<longleftrightarrow> LiveMafiaCount s = 0"
  by (simp add: LivingMafiaIDs_def LiveMafiaCount_def count_players_filter)

lemma FindPlayer_Some: "FindPlayer s k = Some p \<Longrightarrow> p \<in> set (Players s) \<and> ID p = k"
  by (auto simp: FindPlayer_def dest: find_Some_in)

lemma FindPlayer_iff:
  "distinct (map ID (Players s)) \<Longrightarrow>
   FindPlayer s k = Some p \<longleftrightarrow> p \<in> set (Players s) \<and> ID p = k"
  by (simp add: FindPlayer_def find_distinct_iff)

lemma FindPlayer_None: "FindPlayer s k = None \<longleftrightarrow> k \<notin> player_ids s"
  by (simp add: FindPlayer_def find_eq_None_iff)

lemma FindPlayer_Players_cong: "Players s = Players t \<Longrightarrow> FindPlayer s = FindPlayer t"
  by (simp add: FindPlayer_def fun_eq_iff)

end
