(* ===== verification/Validation.thy ===== *)
theory Validation
  imports GameTypes
begin

text \<open>
  \<open>internal/game/validation.go\<close>: the accumulating validator of the host's options and the
  fail-fast guards of the action handlers. A returned \<open>error\<close> is a \<^typ>\<open>go_error option\<close>,
  \<open>None\<close> being \<open>nil\<close>.
\<close>

section \<open>Field errors\<close>

fun error_code_string :: "error_code \<Rightarrow> string" where
  "error_code_string CodeValidation = ''VALIDATION_ERROR''"
| "error_code_string CodeWrongPhase = ''WRONG_PHASE_ERROR''"
| "error_code_string CodePermissionDenied = ''PERMISSION_DENIED_ERROR''"
| "error_code_string CodeRoleMismatch = ''ROLE_MISMATCH_ERROR''"
| "error_code_string CodeNotRepresentative = ''NOT_REPRESENTATIVE_ERROR''"
| "error_code_string CodeDeadPlayer = ''DEAD_PLAYER_ERROR''"
| "error_code_string CodeAlreadyDone = ''ALREADY_DONE_ERROR''"
| "error_code_string CodeInvalidTarget = ''INVALID_TARGET_ERROR''"
| "error_code_string CodeUnknownPlayer = ''UNKNOWN_PLAYER_ERROR''"

definition FieldError_Error :: "field_error \<Rightarrow> string" where
  "FieldError_Error fe =
     (if feField fe \<noteq> ''''
      then error_code_string (feCode fe) @ '': '' @ feMessage fe @ '' (field='' @ feField fe @ '')''
      else error_code_string (feCode fe) @ '': '' @ feMessage fe)"

fun join :: "string \<Rightarrow> string list \<Rightarrow> string" where
  "join sep [] = ''''"
| "join sep [x] = x"
| "join sep (x # y # ys) = x @ sep @ join sep (y # ys)"

definition ValidationErrors_Error :: "field_error list \<Rightarrow> string" where
  "ValidationErrors_Error fes = join ''; '' (map FieldError_Error fes)"

section \<open>validateOptions\<close>

definition verr :: "string \<Rightarrow> string \<Rightarrow> field_error" where
  "verr f m = \<lparr>feField = f, feCode = CodeValidation, feMessage = m\<rparr>"

definition option_errors :: "options \<Rightarrow> int \<Rightarrow> field_error list" where
  "option_errors opts playerCount =
     (let citizenSide = wrap64 (playerCount - MafiaCount opts) in
      (if playerCount < 6 \<or> playerCount > 12
       then [verr ''playerCount'' (''must be in [6,12]; got '' @ fmt_d playerCount)] else [])
    @ (if MaxPlayers opts \<noteq> 0
       then if MaxPlayers opts < 6 \<or> MaxPlayers opts > 12
            then [verr ''maxPlayers'' (''must be in [6,12]; got '' @ fmt_d (MaxPlayers opts))]
            else if playerCount > MaxPlayers opts
            then [verr ''maxPlayers'' (''actual players '' @ fmt_d playerCount
                    @ '' exceeds maxPlayers '' @ fmt_d (MaxPlayers opts))]
            else []
       else [])
    @ (if MafiaCount opts < 1
       then [verr ''mafiaCount'' (''must be >= 1; got '' @ fmt_d (MafiaCount opts))] else [])
    @ (if MafiaCount opts \<ge> 1 \<and> citizenSide < wrap64 (MafiaCount opts + 1)
       then [verr ''mafiaCount'' (''citizen-side must exceed mafia by >= 1 (need >= ''
               @ fmt_d (wrap64 (MafiaCount opts + 1)) @ '', got '' @ fmt_d citizenSide @ '')'')]
       else [])
    @ (if MafiaCount opts \<ge> 1 \<and> wrap64 (citizenSide - 2) < 1
       then [verr ''mafiaCount'' (''at least 1 plain citizen required (got ''
               @ fmt_d (wrap64 (citizenSide - 2)) @ '')'')]
       else [])
    @ (if IntroSecondsPerPlayer opts < 5
       then [verr ''introSecondsPerPlayer''
               (''must be >= 5; got '' @ fmt_d (IntroSecondsPerPlayer opts))] else [])
    @ (if DiscussionSeconds opts < 30
       then [verr ''discussionSeconds''
               (''must be >= 30; got '' @ fmt_d (DiscussionSeconds opts))] else []))"

definition validateOptions :: "options \<Rightarrow> int \<Rightarrow> go_error option" where
  "validateOptions opts playerCount =
     (let errs = option_errors opts playerCount in
      if errs = [] then None else Some (ValidationErrors errs))"

section \<open>Guards\<close>

definition ensureHost :: "state \<Rightarrow> player_id \<Rightarrow> go_error option" where
  "ensureHost s sender = (if sender \<noteq> HostID s then Some (errf CodePermissionDenied) else None)"

definition ensurePhase :: "state \<Rightarrow> phase list \<Rightarrow> go_error option" where
  "ensurePhase s allowed = (if Phase s \<in> set allowed then None else Some (errf CodeWrongPhase))"

definition ensureRole :: "state \<Rightarrow> player_id \<Rightarrow> role \<Rightarrow> go_error option" where
  "ensureRole s sender role =
     (case FindPlayer s sender of
        None \<Rightarrow> Some (errf CodeUnknownPlayer)
      | Some p \<Rightarrow> if Role p \<noteq> role then Some (errf CodeRoleMismatch) else None)"

fun ensureAlive :: "state \<Rightarrow> player_id list \<Rightarrow> go_error option" where
  "ensureAlive s [] = None"
| "ensureAlive s (pid # pids) =
     (case FindPlayer s pid of
        None \<Rightarrow> Some (errf CodeUnknownPlayer)
      | Some p \<Rightarrow> if \<not> Alive p then Some (errf CodeDeadPlayer) else ensureAlive s pids)"

text \<open>
  Sequencing of guards in a handler: the first guard that returns an error decides, otherwise
  the body runs.
\<close>

definition guard :: "go_error option \<Rightarrow> (go_error \<Rightarrow> 'a) \<Rightarrow> 'a \<Rightarrow> 'a" where
  "guard g onerr body = (case g of None \<Rightarrow> body | Some err \<Rightarrow> onerr err)"

lemma guard_simps [simp]:
  "guard None h b = b"
  "guard (Some err) h b = h err"
  by (simp_all add: guard_def)

lemma guard_split:
  "P (guard g h b) \<longleftrightarrow> (g = None \<longrightarrow> P b) \<and> (\<forall>err. g = Some err \<longrightarrow> P (h err))"
  by (cases g) simp_all

lemma guard_split_asm:
  "P (guard g h b) \<longleftrightarrow> \<not> (g = None \<and> \<not> P b \<or> (\<exists>err. g = Some err \<and> \<not> P (h err)))"
  by (cases g) simp_all

lemmas guard_splits = guard_split guard_split_asm

section \<open>What the guards accept\<close>

lemma ensureHost_None [simp]: "ensureHost s sender = None \<longleftrightarrow> sender = HostID s"
  by (simp add: ensureHost_def)

lemma ensurePhase_None [simp]: "ensurePhase s allowed = None \<longleftrightarrow> Phase s \<in> set allowed"
  by (simp add: ensurePhase_def)

lemma ensureRole_None:
  "ensureRole s sender r = None \<longleftrightarrow> (\<exists>p. FindPlayer s sender = Some p \<and> Role p = r)"
  by (auto simp: ensureRole_def split: option.splits if_splits)

lemma ensureAlive_None:
  "ensureAlive s pids = None \<longleftrightarrow> (\<forall>pid\<in>set pids. \<exists>p. FindPlayer s pid = Some p \<and> Alive p)"
  by (induction pids) (auto split: option.splits if_splits)

lemma ensure_not_panic [simp]:
  "ensureHost s h \<noteq> Some GoPanic" "ensurePhase s ps \<noteq> Some GoPanic"
  "ensureRole s h r \<noteq> Some GoPanic" "ensureAlive s pids \<noteq> Some GoPanic"
proof -
  show "ensureAlive s pids \<noteq> Some GoPanic"
    by (induction pids) (auto simp: errf_def split: option.splits if_splits)
qed (auto simp: ensureHost_def ensurePhase_def ensureRole_def errf_def split: option.splits)

section \<open>Properties\<close>

definition options_in_range :: "options \<Rightarrow> bool" where
  "options_in_range opts \<longleftrightarrow>
     int64_range (MafiaCount opts) \<and> int64_range (MaxPlayers opts) \<and>
     int64_range (IntroSecondsPerPlayer opts) \<and> int64_range (DiscussionSeconds opts) \<and>
     int64_range (NightMafiaSeconds opts) \<and> int64_range (NightPoliceSeconds opts) \<and>
     int64_range (NightDoctorSeconds opts)"

text \<open>The rules the validator means to enforce, in unbounded arithmetic.\<close>

definition options_allowed :: "options \<Rightarrow> int \<Rightarrow> bool" where
  "options_allowed opts n \<longleftrightarrow>
     6 \<le> n \<and> n \<le> 12 \<and>
     (MaxPlayers opts = 0 \<or> 6 \<le> MaxPlayers opts \<and> MaxPlayers opts \<le> 12 \<and> n \<le> MaxPlayers opts) \<and>
     1 \<le> MafiaCount opts \<and> MafiaCount opts < n - MafiaCount opts \<and> MafiaCount opts + 3 \<le> n \<and>
     5 \<le> IntroSecondsPerPlayer opts \<and> 30 \<le> DiscussionSeconds opts"

lemma mafia_checks:
  assumes "int64_range m" "1 \<le> m" "6 \<le> n" "n \<le> 12"
  shows "(\<not> wrap64 (n - m) < wrap64 (m + 1) \<and> \<not> wrap64 (wrap64 (n - m) - 2) < 1)
          \<longleftrightarrow> m < n - m \<and> m + 3 \<le> n"
proof (cases "m = 2 ^ 63 - 1")
  case True
  with assms show ?thesis by (auto simp: wrap64_small)
next
  case False
  with assms have "wrap64 (n - m) = n - m" "wrap64 (m + 1) = m + 1" "wrap64 (n - m - 2) = n - m - 2"
    by (auto simp: int64_range_def intro!: wrap64_small)
  then show ?thesis by auto
qed

lemma option_errors_Nil:
  assumes "options_in_range opts"
  shows "option_errors opts n = [] \<longleftrightarrow> options_allowed opts n"
proof (cases "6 \<le> n \<and> n \<le> 12 \<and> 1 \<le> MafiaCount opts")
  case True
  with assms mafia_checks [of "MafiaCount opts" n] show ?thesis
    by (auto simp: option_errors_def options_allowed_def options_in_range_def Let_def not_less
        split: if_splits)
next
  case False
  then show ?thesis
    by (auto simp: option_errors_def options_allowed_def Let_def)
qed

text \<open>
  C27: the options validator accepts exactly the allowed configurations (player count 6 to 12,
  at least one mafia, a strict citizen majority, at least one plain citizen, minimal timers),
  for every value a 64-bit integer field can hold: the wrap-around of \<open>MafiaCount+1\<close> and of
  \<open>playerCount-MafiaCount\<close> never lets a bad configuration through.
\<close>
theorem validateOptions_iff:
  assumes "options_in_range opts"
  shows "validateOptions opts n = None \<longleftrightarrow> options_allowed opts n"
  using option_errors_Nil [OF assms] by (simp add: validateOptions_def Let_def)

theorem validateOptions_iff_witness:
  "validateOptions (DefaultOptions 8) 8 = None \<longleftrightarrow> options_allowed (DefaultOptions 8) 8"
  by (rule validateOptions_iff)
     (simp add: options_in_range_def DefaultOptions_def recommendedMafiaCount_def int64_range_def)

lemma validateOptions_errors:
  "validateOptions opts n = Some err \<Longrightarrow> \<exists>fes. err = ValidationErrors fes \<and> fes \<noteq> []"
  by (auto simp: validateOptions_def Let_def split: if_splits)

lemma DefaultOptions_allowed: "6 \<le> n \<Longrightarrow> n \<le> 12 \<Longrightarrow> options_allowed (DefaultOptions n) n"
  by (simp add: options_allowed_def DefaultOptions_def recommendedMafiaCount_def)

lemma options_allowed_mafia_le: "options_allowed opts n \<Longrightarrow> MafiaCount opts \<le> 5"
  by (auto simp: options_allowed_def)

end
