(* ===== verification/EngineBase.thy ===== *)
theory EngineBase
  imports Validation
begin

text \<open>
  The engine object of \<open>internal/game/engine.go\<close> with its three dependencies: the clock
  (\<open>clock.go\<close>), the seed reader (\<open>rand.go\<close>) and the keyword pool of the role assigner
  (\<open>keyword.go\<close>, \<open>keyword_loader.go\<close>). Every call of \<open>clock.Now()\<close> is a separate reading: the
  clock is the sequence of readings still to come. The reader is the bytes it will still deliver
  before it fails. The generator behind \<open>math/rand\<close> is a parameter, \<open>rand_lib\<close>.
\<close>

section \<open>The random generator\<close>

text \<open>
  \<open>rand.New(rand.NewSource(seed))\<close>, \<open>Intn(n)\<close> and \<open>Shuffle(n, swap)\<close>; the last is given by the
  swap calls it makes. \<open>rand_ok\<close> is what the package documents: \<open>Intn(n)\<close> is below \<open>n\<close>, and
  \<open>Shuffle(n, swap)\<close> swaps elements of a sequence of length \<open>n\<close>.
\<close>

record 'r rand_lib =
  rand_New :: "int \<Rightarrow> 'r"
  rand_Intn :: "'r \<Rightarrow> nat \<Rightarrow> nat \<times> 'r"
  rand_Shuffle :: "'r \<Rightarrow> nat \<Rightarrow> (nat \<times> nat) list \<times> 'r"

definition rand_ok :: "'r rand_lib \<Rightarrow> bool" where
  "rand_ok lib \<longleftrightarrow>
     (\<forall>r n. 0 < n \<longrightarrow> fst (rand_Intn lib r n) < n) \<and>
     (\<forall>r n. \<forall>(i, j)\<in>set (fst (rand_Shuffle lib r n)). i < n \<and> j < n)"

lemma rand_Intn_less: "rand_ok lib \<Longrightarrow> 0 < n \<Longrightarrow> fst (rand_Intn lib r n) < n"
  by (simp add: rand_ok_def)

lemma rand_Shuffle_perm:
  "rand_ok lib \<Longrightarrow> mset (swaps (fst (rand_Shuffle lib r (length xs))) xs) = mset xs"
  by (rule mset_swaps) (simp add: rand_ok_def)

text \<open>A concrete generator: the seed is the state, \<open>Intn\<close> reduces it, \<open>Shuffle\<close> reverses ends.\<close>

definition demo_lib :: "int rand_lib" where
  "demo_lib =
     \<lparr>rand_New = (\<lambda>seed. seed),
      rand_Intn = (\<lambda>r n. (nat (r mod int n), r + 1)),
      rand_Shuffle = (\<lambda>r n. (if n = 0 then [] else [(0, n - 1)], r + 1))\<rparr>"

lemma demo_lib_ok [simp]: "rand_ok demo_lib"
  by (auto simp: rand_ok_def demo_lib_def nat_less_iff)

section \<open>keyword.go and keyword_loader.go\<close>

record keyword_pool =
  kwMafia :: "string list"
  kwCitizen :: "string list"
  kwDoctor :: "string list"
  kwPolice :: "string list"

fun poolFor :: "keyword_pool \<Rightarrow> role \<Rightarrow> string list" where
  "poolFor p RoleMafia = kwMafia p"
| "poolFor p RoleCitizen = kwCitizen p"
| "poolFor p RoleDoctor = kwDoctor p"
| "poolFor p RolePolice = kwPolice p"
| "poolFor p RoleNone = []"

definition Pick :: "'r rand_lib \<Rightarrow> keyword_pool \<Rightarrow> role \<Rightarrow> 'r \<Rightarrow> go_error + string \<times> 'r" where
  "Pick lib p role rng =
     (let pool = poolFor p role in
      if pool = [] then Inl (errf CodeValidation)
      else let (idx, rng') = rand_Intn lib rng (length pool) in Inr (pool ! idx, rng'))"

text \<open>\<open>LoadKeywordPool\<close> after decoding: \<open>None\<close> is a document the JSON decoder rejects.\<close>

definition LoadKeywordPool :: "keyword_pool option \<Rightarrow> go_error + keyword_pool" where
  "LoadKeywordPool raw =
     (case raw of
        None \<Rightarrow> Inl (errf CodeValidation)
      | Some r \<Rightarrow>
          if kwMafia r = [] then Inl (errf CodeValidation)
          else if kwCitizen r = [] then Inl (errf CodeValidation)
          else if kwDoctor r = [] then Inl (errf CodeValidation)
          else if kwPolice r = [] then Inl (errf CodeValidation)
          else Inr \<lparr>kwMafia = kwMafia r, kwCitizen = kwCitizen r, kwDoctor = kwDoctor r,
                     kwPolice = kwPolice r\<rparr>)"

definition pool_ok :: "keyword_pool \<Rightarrow> bool" where
  "pool_ok p \<longleftrightarrow> kwMafia p \<noteq> [] \<and> kwCitizen p \<noteq> [] \<and> kwDoctor p \<noteq> [] \<and> kwPolice p \<noteq> []"

lemma pool_ok_poolFor: "pool_ok p \<Longrightarrow> role \<noteq> RoleNone \<Longrightarrow> poolFor p role \<noteq> []"
  by (cases role) (auto simp: pool_ok_def)

lemma Pick_ok:
  assumes "rand_ok lib" "poolFor p role \<noteq> []"
  shows "\<exists>kw rng'. Pick lib p role rng = Inr (kw, rng') \<and> kw \<in> set (poolFor p role)"
  using assms rand_Intn_less [OF assms(1), of "length (poolFor p role)" rng]
  by (auto simp: Pick_def Let_def split: prod.splits)

lemma LoadKeywordPool_ok: "LoadKeywordPool raw = Inr p \<Longrightarrow> raw = Some p \<and> pool_ok p"
  by (auto simp: LoadKeywordPool_def pool_ok_def split: option.splits if_splits)

definition demo_pool :: keyword_pool where
  "demo_pool = \<lparr>kwMafia = [''mask''], kwCitizen = [''bread''], kwDoctor = [''gauze''],
     kwPolice = [''compass'']\<rparr>"

section \<open>The engine and its clock\<close>

record engine =
  est :: state
  eclock :: "nat \<Rightarrow> time"
  erng :: "8 word list"
  epool :: keyword_pool

definition next_clock :: "engine \<Rightarrow> engine" where
  "next_clock e = e\<lparr>eclock := (\<lambda>n. eclock e (Suc n))\<rparr>"

definition Now :: "engine \<Rightarrow> time \<times> engine" where
  "Now e = (eclock e 0, next_clock e)"

text \<open>Assignments to fields of \<open>e.state\<close>.\<close>

definition upd :: "(state \<Rightarrow> state) \<Rightarrow> engine \<Rightarrow> engine" where
  "upd f e = e\<lparr>est := f (est e)\<rparr>"

lemma upd_simps [simp]:
  "est (upd f e) = f (est e)" "eclock (upd f e) = eclock e" "erng (upd f e) = erng e"
  "epool (upd f e) = epool e"
  by (simp_all add: upd_def)

lemma next_clock_simps [simp]:
  "est (next_clock e) = est e" "erng (next_clock e) = erng e" "epool (next_clock e) = epool e"
  "eclock (next_clock e) n = eclock e (Suc n)"
  by (simp_all add: next_clock_def)

definition New :: "keyword_pool \<Rightarrow> (nat \<Rightarrow> time) \<Rightarrow> 8 word list \<Rightarrow> engine" where
  "New pool clock rng = \<lparr>est = zero_state, eclock = clock, erng = rng, epool = pool\<rparr>"

text \<open>\<open>Snapshot\<close> and \<open>Restore\<close>: in a value model a deep copy is the value.\<close>

definition Snapshot :: "engine \<Rightarrow> state" where
  "Snapshot e = est e"

definition Restore :: "engine \<Rightarrow> state \<Rightarrow> engine \<times> go_error option" where
  "Restore e s =
     (if Phase s = PhaseNone then (e, Some (errf CodeValidation)) else (e\<lparr>est := s\<rparr>, None))"

text \<open>
  What an operation returns: the engine afterwards, the \<open>State\<close> value handed to the caller, and
  either the error or the events.
\<close>

type_synonym result = "engine \<times> state \<times> (go_error + envelope list)"

definition fail :: "engine \<Rightarrow> go_error \<Rightarrow> result" where
  "fail e err = (e, est e, Inl err)"

definition ok :: "engine \<Rightarrow> envelope list \<Rightarrow> result" where
  "ok e evs = (e, est e, Inr evs)"

abbreviation res_engine :: "result \<Rightarrow> engine" where "res_engine r \<equiv> fst r"
abbreviation res_state :: "result \<Rightarrow> state" where "res_state r \<equiv> fst (snd r)"
abbreviation res_out :: "result \<Rightarrow> go_error + envelope list" where "res_out r \<equiv> snd (snd r)"

lemma fail_ok_simps [simp]:
  "fail e err = (e', s, out) \<longleftrightarrow> e' = e \<and> s = est e \<and> out = Inl err"
  "ok e evs = (e', s, out) \<longleftrightarrow> e' = e \<and> s = est e \<and> out = Inr evs"
  "res_engine (fail e err) = e" "res_engine (ok e evs) = e"
  "res_state (fail e err) = est e" "res_state (ok e evs) = est e"
  "res_out (fail e err) = Inl err" "res_out (ok e evs) = Inr evs"
  by (auto simp: fail_def ok_def)

section \<open>The contract of the action handlers\<close>

text \<open>
  What \<open>Engine.Apply\<close> documents and its callers rely on: a handler that returns an error leaves
  the state as it was, the \<open>State\<close> it returns is the engine's current state, and the injected
  pool is never replaced. A run-time panic is excluded: it takes the process down.
\<close>

definition contract :: "engine \<Rightarrow> result \<Rightarrow> bool" where
  "contract e r \<longleftrightarrow>
     (\<forall>err. res_out r = Inl err \<longrightarrow> err \<noteq> GoPanic \<longrightarrow> est (res_engine r) = est e) \<and>
     res_state r = est (res_engine r) \<and> epool (res_engine r) = epool e"

locale handler =
  fixes h :: "engine \<Rightarrow> result"
  assumes respects: "contract e (h e)"
begin

lemma error_no_effect:
  "res_out (h e) = Inl err \<Longrightarrow> err \<noteq> GoPanic \<Longrightarrow>
   Snapshot (res_engine (h e)) = Snapshot e \<and> res_state (h e) = Snapshot e"
  using respects [of e] by (simp add: Snapshot_def contract_def)

lemma returns_current: "res_state (h e) = Snapshot (res_engine (h e))"
  using respects [of e] by (simp add: Snapshot_def contract_def)

lemma restore_snapshot:
  "res_out (h e) = Inl err \<Longrightarrow> err \<noteq> GoPanic \<Longrightarrow> Phase (est e) \<noteq> PhaseNone \<Longrightarrow>
   est (fst (Restore (res_engine (h e)) (Snapshot e))) = est (res_engine (h e))"
  using respects [of e] by (simp add: Snapshot_def contract_def Restore_def)

end

lemma contract_fail [simp]:
  "est e' = est e \<or> err = GoPanic \<Longrightarrow> epool e' = epool e \<Longrightarrow> contract e (fail e' err)"
  by (auto simp: contract_def)

lemma contract_ok [simp]: "contract e (ok e' evs) \<longleftrightarrow> epool e' = epool e"
  by (simp add: contract_def)

lemma contract_guard [simp]: "contract e (guard g (fail e) b) \<longleftrightarrow> (g = None \<longrightarrow> contract e b)"
  by (cases g) simp_all

section \<open>rand.go\<close>

text \<open>
  \<open>io.ReadFull\<close> of 8 bytes: all or an error (a short read consumes what is left). The seed is
  the little-endian value as a signed 64-bit integer.
\<close>

fun le_value :: "8 word list \<Rightarrow> int" where
  "le_value [] = 0"
| "le_value (b # bs) = uint b + 256 * le_value bs"

definition extractSeed64 :: "8 word list \<Rightarrow> int option \<times> 8 word list" where
  "extractSeed64 rng =
     (if length rng < 8 then (None, []) else (Some (wrap64 (le_value (take 8 rng))), drop 8 rng))"

definition newInnerRand :: "'r rand_lib \<Rightarrow> engine \<Rightarrow> 'r option \<times> engine" where
  "newInnerRand lib e =
     (let (seed, rest) = extractSeed64 (erng e) in
      (map_option (rand_New lib) seed, e\<lparr>erng := rest\<rparr>))"

lemma newInnerRand_simps [simp]:
  "est (snd (newInnerRand lib e)) = est e" "eclock (snd (newInnerRand lib e)) = eclock e"
  "epool (snd (newInnerRand lib e)) = epool e"
  by (simp_all add: newInnerRand_def split: prod.splits)

lemma newInnerRand_Some_iff: "fst (newInnerRand lib e) \<noteq> None \<longleftrightarrow> 8 \<le> length (erng e)"
  by (auto simp: newInnerRand_def extractSeed64_def)

lemma le_value_bounds: "0 \<le> le_value bs \<and> le_value bs < 256 ^ length bs"
proof (induction bs)
  case (Cons b bs)
  have "0 \<le> uint b \<and> uint b < 256"
    using uint_lt2p [of b] by simp
  with Cons show ?case by auto
qed simp

lemma extractSeed64_range: "extractSeed64 rng = (Some seed, rest) \<Longrightarrow> int64_range seed"
  by (auto simp: extractSeed64_def split: if_splits)

end
