(* ===== verification/Roles.thy ===== *)
theory Roles
  imports EngineBase
begin

text \<open>
  \<open>internal/game/role.go\<close>: the role assigner. The shuffled identifiers are cut into mafia,
  doctor, police and citizens; each role draws one keyword; one mafia member is the
  representative.
\<close>

record assignments =
  PlayerRoles :: "player_id \<Rightarrow> role option"
  PlayerKeywords :: "player_id \<Rightarrow> string option"
  MafiaIDs :: "player_id list"
  RepresentativeID :: player_id

fun put_all :: "role \<Rightarrow> player_id list \<Rightarrow> (player_id \<Rightarrow> role option) \<Rightarrow> (player_id \<Rightarrow> role option)" where
  "put_all r [] m = m"
| "put_all r (p # ps) m = put_all r ps (m(p \<mapsto> r))"

text \<open>The three loops and two assignments that fill the role map, lines 54 to 65.\<close>

definition assign_roles :: "player_id list \<Rightarrow> nat \<Rightarrow> player_id \<Rightarrow> role option" where
  "assign_roles shuffled m =
     (let roles = put_all RoleMafia (take m shuffled) Map.empty;
          roles = roles(shuffled ! m \<mapsto> RoleDoctor);
          roles = roles(shuffled ! (m + 1) \<mapsto> RolePolice)
      in put_all RoleCitizen (drop (m + 2) shuffled) roles)"

text \<open>The loop that copies the keyword of its role to every player, lines 84 to 95.\<close>

definition role_keywords ::
  "string \<Rightarrow> string \<Rightarrow> string \<Rightarrow> string \<Rightarrow> (player_id \<Rightarrow> role option) \<Rightarrow> player_id \<Rightarrow> string option" where
  "role_keywords mafiaKw citizenKw doctorKw policeKw roles pid =
     (case roles pid of
        Some RoleMafia \<Rightarrow> Some mafiaKw
      | Some RoleCitizen \<Rightarrow> Some citizenKw
      | Some RoleDoctor \<Rightarrow> Some doctorKw
      | Some RolePolice \<Rightarrow> Some policeKw
      | _ \<Rightarrow> None)"

text \<open>
  An index past the end of the shuffled slice is a run-time panic; the validation in front
  excludes it (\<open>Assign_spec\<close> below).
\<close>

definition Assign ::
  "'r rand_lib \<Rightarrow> keyword_pool \<Rightarrow> player_id list \<Rightarrow> options \<Rightarrow> 'r \<Rightarrow> go_error + assignments" where
  "Assign lib pool playerIDs opts rng =
     (let n = length playerIDs in
      case validateOptions opts (int n) of
        Some err \<Rightarrow> Inl err
      | None \<Rightarrow>
        (let (sw, rng) = rand_Shuffle lib rng n;
             shuffled = swaps sw playerIDs;
             m = nat (MafiaCount opts) in
         if n < m + 2 then Inl GoPanic
         else
          (let roles = assign_roles shuffled m; mafiaIDs = take m shuffled in
           case Pick lib pool RoleMafia rng of Inl err \<Rightarrow> Inl err | Inr (mafiaKw, rng) \<Rightarrow>
          (case Pick lib pool RoleCitizen rng of Inl err \<Rightarrow> Inl err | Inr (citizenKw, rng) \<Rightarrow>
          (case Pick lib pool RoleDoctor rng of Inl err \<Rightarrow> Inl err | Inr (doctorKw, rng) \<Rightarrow>
          (case Pick lib pool RolePolice rng of Inl err \<Rightarrow> Inl err | Inr (policeKw, rng) \<Rightarrow>
             if mafiaIDs = [] then Inl GoPanic
             else Inr
               \<lparr>PlayerRoles = roles,
                PlayerKeywords = role_keywords mafiaKw citizenKw doctorKw policeKw roles,
                MafiaIDs = mafiaIDs,
                RepresentativeID =
                  (if 1 < length mafiaIDs then mafiaIDs ! fst (rand_Intn lib rng (length mafiaIDs))
                   else mafiaIDs ! 0)\<rparr>))))))"

section \<open>The role map\<close>

lemma put_all_apply: "put_all r ps m q = (if q \<in> set ps then Some r else m q)"
  by (induction ps arbitrary: m) auto

lemma assign_roles_parts:
  assumes "xs = ms @ d # p # cs" "distinct xs" "m = length ms"
  shows "assign_roles xs m q =
    (if q \<in> set ms then Some RoleMafia else if q = d then Some RoleDoctor
     else if q = p then Some RolePolice else if q \<in> set cs then Some RoleCitizen else None)"
  using assms by (auto simp: assign_roles_def put_all_apply Let_def nth_append)

lemma split_at_roles:
  assumes "m + 2 \<le> length xs"
  shows "\<exists>ms d p cs. xs = ms @ d # p # cs \<and> m = length ms"
proof -
  have "xs = take m xs @ xs ! m # xs ! Suc m # drop (Suc (Suc m)) xs"
    using assms by (simp add: Cons_nth_drop_Suc)
  then show ?thesis
    using assms by (metis add_leE length_take min.absorb2)
qed

text \<open>
  What \<open>Assign\<close> promises about the roles of a set of players.
\<close>

definition good_assignment :: "keyword_pool \<Rightarrow> player_id list \<Rightarrow> options \<Rightarrow> assignments \<Rightarrow> bool" where
  "good_assignment pool ids opts a \<longleftrightarrow>
     dom (PlayerRoles a) = set ids \<and>
     dom (PlayerKeywords a) = set ids \<and>
     length (MafiaIDs a) = nat (MafiaCount opts) \<and>
     distinct (MafiaIDs a) \<and>
     set (MafiaIDs a) = {q. PlayerRoles a q = Some RoleMafia} \<and>
     RepresentativeID a \<in> set (MafiaIDs a) \<and>
     card {q. PlayerRoles a q = Some RoleDoctor} = 1 \<and>
     card {q. PlayerRoles a q = Some RolePolice} = 1 \<and>
     card {q. PlayerRoles a q = Some RoleCitizen} = length ids - nat (MafiaCount opts) - 2 \<and>
     (\<forall>q r. PlayerRoles a q = Some r \<longrightarrow>
        (\<exists>kw\<in>set (poolFor pool r). PlayerKeywords a q = Some kw)) \<and>
     (\<forall>q q' r. PlayerRoles a q = Some r \<and> PlayerRoles a q' = Some r \<longrightarrow>
        PlayerKeywords a q = PlayerKeywords a q')"

lemma good_assignment_parts:
  assumes xs: "xs = ms @ d # p # cs" "distinct xs" "set xs = set ids" "length xs = length ids"
    and m: "length ms = nat (MafiaCount opts)" and rep: "rep \<in> set ms"
    and kws: "mk \<in> set (kwMafia pool)" "ck \<in> set (kwCitizen pool)"
      "dk \<in> set (kwDoctor pool)" "pk \<in> set (kwPolice pool)"
  shows "good_assignment pool ids opts
    \<lparr>PlayerRoles = assign_roles xs (length ms),
     PlayerKeywords = role_keywords mk ck dk pk (assign_roles xs (length ms)),
     MafiaIDs = ms, RepresentativeID = rep\<rparr>"
proof -
  define R where "R = assign_roles xs (length ms)"
  have R: "R q = (if q \<in> set ms then Some RoleMafia else if q = d then Some RoleDoctor
     else if q = p then Some RolePolice else if q \<in> set cs then Some RoleCitizen else None)" for q
    unfolding R_def by (rule assign_roles_parts [OF xs(1,2) refl])
  have fib: "{q. R q = Some RoleMafia} = set ms" "{q. R q = Some RoleDoctor} = {d}"
    "{q. R q = Some RolePolice} = {p}" "{q. R q = Some RoleCitizen} = set cs"
    using xs(1,2) by (auto simp: R)
  have "card (set cs) = length ids - length ms - 2"
    using xs by (simp add: distinct_card flip: xs(4))
  moreover have "dom R = set ids"
    using xs by (auto simp: R domIff split: if_splits)
  moreover have "dom (role_keywords mk ck dk pk R) = set ids"
    using xs by (auto simp: R role_keywords_def domIff split: if_splits)
  ultimately show ?thesis
    using xs m rep kws unfolding good_assignment_def R_def [symmetric]
    by (auto simp: fib) (auto simp: role_keywords_def R split: if_splits)
qed

lemma Assign_keywords:
  assumes "rand_ok lib" "pool_ok pool"
  obtains mk r1 ck r2 dk r3 pk r4 where
    "Pick lib pool RoleMafia r = Inr (mk, r1)" "mk \<in> set (kwMafia pool)"
    "Pick lib pool RoleCitizen r1 = Inr (ck, r2)" "ck \<in> set (kwCitizen pool)"
    "Pick lib pool RoleDoctor r2 = Inr (dk, r3)" "dk \<in> set (kwDoctor pool)"
    "Pick lib pool RolePolice r3 = Inr (pk, r4)" "pk \<in> set (kwPolice pool)"
  using Pick_ok [OF assms(1)] assms(2) that by (metis pool_ok_def poolFor.simps(1-4))

lemma Assign_good:
  assumes "rand_ok lib" "pool_ok pool" "distinct ids" "options_in_range opts"
    and "validateOptions opts (int (length ids)) = None"
  shows "\<exists>a. Assign lib pool ids opts rng = Inr a \<and> good_assignment pool ids opts a"
proof -
  obtain sw rng1 where sh: "rand_Shuffle lib rng (length ids) = (sw, rng1)" by fastforce
  define xs where "xs = swaps sw ids"
  have mset: "mset xs = mset ids"
    using rand_Shuffle_perm [OF assms(1), of rng ids] by (simp add: xs_def sh)
  then have xs: "distinct xs" "set xs = set ids" "length xs = length ids"
    using assms(3) by (metis mset_eq_imp_distinct_iff, metis mset_eq_setD, metis mset_eq_length)
  define m where "m = nat (MafiaCount opts)"
  have allowed: "options_allowed opts (int (length ids))"
    using assms(4,5) by (simp add: validateOptions_def Let_def option_errors_Nil split: if_splits)
  then have m: "1 \<le> m" "m + 3 \<le> length ids"
    by (auto simp: options_allowed_def m_def)
  then obtain ms d p cs where parts: "xs = ms @ d # p # cs" "m = length ms"
    using split_at_roles [of m xs] xs(3) by auto
  obtain mk r1 ck r2 dk r3 pk r4 where kws:
    "Pick lib pool RoleMafia rng1 = Inr (mk, r1)" "mk \<in> set (kwMafia pool)"
    "Pick lib pool RoleCitizen r1 = Inr (ck, r2)" "ck \<in> set (kwCitizen pool)"
    "Pick lib pool RoleDoctor r2 = Inr (dk, r3)" "dk \<in> set (kwDoctor pool)"
    "Pick lib pool RolePolice r3 = Inr (pk, r4)" "pk \<in> set (kwPolice pool)"
    using Assign_keywords [OF assms(1,2)] by metis
  define rep where
    "rep = (if 1 < length ms then ms ! fst (rand_Intn lib r4 (length ms)) else ms ! 0)"
  have ne: "ms \<noteq> []" using m(1) parts(2) by auto
  then have rep: "rep \<in> set ms"
    using rand_Intn_less [OF assms(1), of "length ms" r4] by (simp add: rep_def)
  have "Assign lib pool ids opts rng = Inr
    \<lparr>PlayerRoles = assign_roles xs m, PlayerKeywords = role_keywords mk ck dk pk (assign_roles xs m),
     MafiaIDs = ms, RepresentativeID = rep\<rparr>"
    using m parts assms(5) kws ne
    by (simp add: Assign_def Let_def sh xs_def [symmetric] m_def [symmetric] rep_def)
  moreover have "good_assignment pool ids opts
    \<lparr>PlayerRoles = assign_roles xs m, PlayerKeywords = role_keywords mk ck dk pk (assign_roles xs m),
     MafiaIDs = ms, RepresentativeID = rep\<rparr>"
    unfolding parts(2)
    by (rule good_assignment_parts [OF parts(1) xs])
       (use parts(2) rep kws in \<open>simp_all add: m_def\<close>)
  ultimately show ?thesis by blast
qed

text \<open>
  C2: role assignment. For distinct player identifiers and accepted options the assigner
  succeeds: exactly \<open>MafiaCount\<close> mafia, one doctor, one police, everyone else a citizen; the
  cohort list is exactly the mafia; the representative is one of them; players of a role share
  one keyword of that role's pool.
\<close>
theorem Assign_spec:
  assumes "rand_ok lib" "pool_ok pool" "distinct ids" "options_in_range opts"
    and "validateOptions opts (int (length ids)) = None"
  shows "\<exists>a. Assign lib pool ids opts rng = Inr a \<and> good_assignment pool ids opts a"
  using assms by (rule Assign_good)

definition demo_ids :: "player_id list" where
  "demo_ids = [''a'', ''b'', ''c'', ''d'', ''e'', ''f'']"

theorem Assign_spec_witness:
  "\<exists>a. Assign demo_lib demo_pool demo_ids (DefaultOptions 6) 7 = Inr a
     \<and> good_assignment demo_pool demo_ids (DefaultOptions 6) a"
  by (rule Assign_spec)
     (simp_all add: pool_ok_def demo_pool_def demo_ids_def options_in_range_def int64_range_def
       DefaultOptions_def recommendedMafiaCount_def validateOptions_def option_errors_def Let_def wrap64_def)

end
