(* ===== verification/EndGame.thy ===== *)
theory EndGame
  imports EngineBase
begin

text \<open>
  \<open>internal/game/end.go\<close>: the win conditions and the deferred end of a game, and the two
  operations on the player list that the vote and night resolutions share: killing a player
  through the pointer returned by \<open>FindPlayer\<close>, and re-electing the mafia representative
  (\<open>resolve_night.go\<close>).
\<close>

definition evaluateEnd :: "state \<Rightarrow> (end_reason \<times> team) option" where
  "evaluateEnd s =
     (if Phase s = PhaseEnd then None
      else if LiveMafiaCount s = 0 then Some (EndCitizenWin, TeamCitizen)
      else if LiveMafiaCount s \<ge> LiveCitizenSideCount s then Some (EndMafiaWin, TeamMafia)
      else None)"

definition endGame :: "end_reason \<Rightarrow> team \<Rightarrow> engine \<Rightarrow> engine \<times> envelope list" where
  "endGame reason winner e =
     (upd (\<lambda>s. s\<lparr>Phase := PhaseEnd, EndReason := Some reason, Winner := Some winner\<rparr>) e,
      [pub (GameEnded (Some winner) reason (Players (est e)))])"

definition checkEnd :: "engine \<Rightarrow> engine \<times> envelope list \<times> bool" where
  "checkEnd e =
     (case evaluateEnd (est e) of
        None \<Rightarrow> (e, [], False)
      | Some (reason, winner) \<Rightarrow> let (e, evs) = endGame reason winner e in (e, evs, True))"

definition scheduleGameEnd :: "end_reason \<Rightarrow> team \<Rightarrow> engine \<Rightarrow> engine" where
  "scheduleGameEnd reason winner e =
     (if PendingGameEnd (est e) \<noteq> None then e
      else let (now, e) = Now e in
        upd (\<lambda>s. s\<lparr>PendingGameEnd := Some
               \<lparr>geReason = reason, geWinner = Some winner,
                geDeadline = now + seconds defaultFinalResultBufferSeconds\<rparr>\<rparr>) e)"

text \<open>
  The return statement evaluates \<open>e.state.Clone()\<close> before it calls \<open>e.endGame\<close>, so the state
  value handed back is the one before the transition to \<open>END\<close>.
\<close>

definition firePendingEnd :: "time \<Rightarrow> engine \<Rightarrow> result" where
  "firePendingEnd now e =
     (case PendingGameEnd (est e) of
        None \<Rightarrow> fail e GoPanic
      | Some pending \<Rightarrow>
          let e1 = upd (\<lambda>s. s\<lparr>PendingGameEnd := None, LastTickAt := now\<rparr>) e in
          case geWinner pending of
            None \<Rightarrow> fail e1 (errf CodeValidation)
          | Some w \<Rightarrow> let (e2, evs) = endGame (geReason pending) w e1 in (e2, est e1, Inr evs))"

section \<open>Deaths and the representative\<close>

text \<open>\<open>p.Alive = false\<close> through the pointer \<open>p\<close> that \<open>FindPlayer(pid)\<close> returned.\<close>

definition kill :: "player_id \<Rightarrow> state \<Rightarrow> state" where
  "kill pid s =
     s\<lparr>Players := update_first (\<lambda>p. ID p = pid) (\<lambda>p. p\<lparr>Alive := False\<rparr>) (Players s)\<rparr>"

definition reassignMafiaRepresentative ::
  "'r rand_lib \<Rightarrow> player_id \<Rightarrow> engine \<Rightarrow> engine \<times> envelope list" where
  "reassignMafiaRepresentative lib oldID e =
     (let living = LivingMafiaIDs (est e) in
      if living = [] then (upd (\<lambda>s. s\<lparr>MafiaRepresentativeID := ''''\<rparr>) e, [])
      else
        let (r, e) = newInnerRand lib e;
            newID = (case r of
                       None \<Rightarrow> living ! 0
                     | Some rng \<Rightarrow> living ! fst (rand_Intn lib rng (length living)));
            e = upd (\<lambda>s. s\<lparr>MafiaRepresentativeID := newID\<rparr>) e
        in (e, [mafia (MafiaRepresentativeReassigned oldID (MafiaRepresentativeID (est e)))]))"

section \<open>Facts\<close>

lemma evaluateEnd_None:
  "Phase s \<noteq> PhaseEnd \<Longrightarrow>
   evaluateEnd s = None \<longleftrightarrow> 0 < LiveMafiaCount s \<and> LiveMafiaCount s < LiveCitizenSideCount s"
  by (auto simp: evaluateEnd_def)

lemma scheduleGameEnd_est:
  "est (scheduleGameEnd reason winner e) =
     (case PendingGameEnd (est e) of
        Some g \<Rightarrow> est e
      | None \<Rightarrow> (est e)\<lparr>PendingGameEnd := Some
          \<lparr>geReason = reason, geWinner = Some winner,
           geDeadline = eclock e 0 + seconds defaultFinalResultBufferSeconds\<rparr>\<rparr>)"
  by (simp add: scheduleGameEnd_def Now_def split: option.splits)

lemma scheduleGameEnd_pool [simp]: "epool (scheduleGameEnd r w e) = epool e"
  by (simp add: scheduleGameEnd_def Now_def)

lemma kill_simps [simp]:
  "Phase (kill k s) = Phase s" "Day (kill k s) = Day s" "HostID (kill k s) = HostID s"
  "Settings (kill k s) = Settings s" "MafiaRepresentativeID (kill k s) = MafiaRepresentativeID s"
  "PendingGameEnd (kill k s) = PendingGameEnd s" "PoliceHistory (kill k s) = PoliceHistory s"
  "Votes (kill k s) = Votes s" "IntroSpeakerIdx (kill k s) = IntroSpeakerIdx s"
  "length (Players (kill k s)) = length (Players s)" "GameID (kill k s) = GameID s"
  "Paused (kill k s) = Paused s" "PausedAt (kill k s) = PausedAt s" "NightStep (kill k s) = NightStep s"
  "Winner (kill k s) = Winner s" "EndReason (kill k s) = EndReason s" "VoteRound (kill k s) = VoteRound s"
  "VoteCandidates (kill k s) = VoteCandidates s" "PendingMafiaTarget (kill k s) = PendingMafiaTarget s"
  "PendingDoctorTarget (kill k s) = PendingDoctorTarget s"
  "PendingPoliceTarget (kill k s) = PendingPoliceTarget s"
  "PoliceCheckedThisNight (kill k s) = PoliceCheckedThisNight s"
  "NightStepDeadline (kill k s) = NightStepDeadline s" "Deadline (kill k s) = Deadline s"
  "LastTickAt (kill k s) = LastTickAt s" "StartedAt (kill k s) = StartedAt s"
  "IntroSpeakerStartedAt (kill k s) = IntroSpeakerStartedAt s"
  by (simp_all add: kill_def)

text \<open>The identity of a player: everything but \<open>Alive\<close>.\<close>

definition identity :: "player \<Rightarrow> player_id \<times> string \<times> role \<times> string" where
  "identity p = (ID p, Name p, Role p, Keyword p)"

lemma kill_identity [simp]: "map identity (Players (kill k s)) = map identity (Players s)"
  by (simp add: kill_def map_update_first identity_def)

lemma kill_ids [simp]: "map ID (Players (kill k s)) = map ID (Players s)"
  by (simp add: kill_def map_update_first)

lemma map_ID_identity: "map ID ps = map fst (map identity ps)"
  by (simp add: identity_def)

lemma kill_Players:
  "distinct (map ID (Players s)) \<Longrightarrow>
   Players (kill k s) = map (\<lambda>p. if ID p = k then p\<lparr>Alive := False\<rparr> else p) (Players s)"
  by (simp add: kill_def update_first_distinct)

lemma count_kill_le:
  "(\<And>p. P (p\<lparr>Alive := False\<rparr>) \<Longrightarrow> P p) \<Longrightarrow>
   count_players P (update_first Q (\<lambda>p. p\<lparr>Alive := False\<rparr>) ps) \<le> count_players P ps"
  by (induction ps) auto

lemma kill_counts:
  "LiveMafiaCount (kill k s) \<le> LiveMafiaCount s"
  "LiveCitizenSideCount (kill k s) \<le> LiveCitizenSideCount s"
  "LiveCount (kill k s) \<le> LiveCount s"
  by (auto simp: LiveMafiaCount_def LiveCitizenSideCount_def LiveCount_def kill_def intro!: count_kill_le)

lemma reassign_frame:
  assumes "reassignMafiaRepresentative lib old e = (e', evs)"
  shows "est e' = (est e)\<lparr>MafiaRepresentativeID := MafiaRepresentativeID (est e')\<rparr>"
    "eclock e' = eclock e" "epool e' = epool e"
  using assms by (auto simp: reassignMafiaRepresentative_def Let_def upd_def newInnerRand_def
      split: if_splits prod.splits)

lemma reassign_rep:
  assumes "reassignMafiaRepresentative lib old e = (e', evs)" "rand_ok lib"
  shows "if LiveMafiaCount (est e) = 0 then MafiaRepresentativeID (est e') = '''' \<and> evs = []
    else MafiaRepresentativeID (est e') \<in> set (LivingMafiaIDs (est e)) \<and>
         evs = [mafia (MafiaRepresentativeReassigned old (MafiaRepresentativeID (est e')))]"
proof (cases "LivingMafiaIDs (est e) = []")
  case True
  with assms show ?thesis
    by (auto simp: reassignMafiaRepresentative_def LivingMafiaIDs_empty upd_def)
next
  case False
  then have "LiveMafiaCount (est e) \<noteq> 0" by (simp add: LivingMafiaIDs_empty)
  with False assms rand_Intn_less [OF assms(2), of "length (LivingMafiaIDs (est e))"] show ?thesis
    by (auto simp: reassignMafiaRepresentative_def Let_def split: prod.splits option.splits)
qed

text \<open>
  C3: the win conditions. A game not yet over is decided for the citizens exactly when no mafia
  lives, for the mafia exactly when at least one mafia lives and the living mafia are at least as
  many as the living citizen side, and is undecided otherwise; and a decided game stays decided
  for the citizens whoever dies next.
\<close>
theorem evaluateEnd_correct:
  assumes "Phase s \<noteq> PhaseEnd"
  shows "(evaluateEnd s = Some (EndCitizenWin, TeamCitizen) \<longleftrightarrow> (\<forall>p\<in>set (Players s). \<not> live_mafia p))
    \<and> (evaluateEnd s = Some (EndMafiaWin, TeamMafia) \<longleftrightarrow>
         (\<exists>p\<in>set (Players s). live_mafia p) \<and> LiveCount s \<le> 2 * LiveMafiaCount s)
    \<and> (evaluateEnd s = Some (EndCitizenWin, TeamCitizen) \<longrightarrow>
         evaluateEnd (kill k s) = Some (EndCitizenWin, TeamCitizen))"
proof -
  have c: "LiveMafiaCount s = 0 \<longleftrightarrow> (\<forall>p\<in>set (Players s). \<not> live_mafia p)"
    using count_players_pos [of live_mafia "Players s"] by (auto simp: LiveMafiaCount_def)
  show ?thesis
    using assms kill_counts(1) [of k s] c LiveCount_split [of s] by (auto simp: evaluateEnd_def)
qed

definition demo_players :: "player list" where
  "demo_players =
     [\<lparr>ID = ''a'', Name = ''Ann'', Alive = True, Role = RoleMafia, Keyword = ''mask''\<rparr>,
      \<lparr>ID = ''b'', Name = ''Bob'', Alive = True, Role = RoleCitizen, Keyword = ''bread''\<rparr>]"

theorem evaluateEnd_correct_witness:
  "evaluateEnd (zero_state\<lparr>Players := demo_players\<rparr>) = Some (EndMafiaWin, TeamMafia)
   \<and> LiveCount (zero_state\<lparr>Players := demo_players\<rparr>)
       \<le> 2 * LiveMafiaCount (zero_state\<lparr>Players := demo_players\<rparr>)"
proof -
  have ph: "Phase (zero_state\<lparr>Players := demo_players\<rparr>) \<noteq> PhaseEnd"
    by (simp add: zero_state_def)
  have "evaluateEnd (zero_state\<lparr>Players := demo_players\<rparr>) = Some (EndMafiaWin, TeamMafia)"
    by (simp add: evaluateEnd_def demo_players_def zero_state_def LiveMafiaCount_def LiveCitizenSideCount_def)
  with evaluateEnd_correct [OF ph] show ?thesis by blast
qed

text \<open>
  Scheduling an end is idempotent: a second schedule before the first fires changes
  nothing, so neither the recorded winner nor the deadline can be reset.
\<close>
lemma scheduleGameEnd_idempotent:
  "scheduleGameEnd r2 w2 (scheduleGameEnd r1 w1 e) = scheduleGameEnd r1 w1 e"
  by (simp add: scheduleGameEnd_def Now_def)

end
