(* ===== verification/Night.thy ===== *)
theory Night
  imports EndGame
begin

text \<open>
  The night: \<open>internal/game/resolve_night.go\<close> (sub-steps, resolution) and
  \<open>handlers_night.go\<close> (the three secret actions and the host's early end).
\<close>

section \<open>resolve_night.go\<close>

definition beginNightStep :: "night_step \<Rightarrow> time \<Rightarrow> engine \<Rightarrow> engine \<times> envelope list" where
  "beginNightStep step startedAt e =
     (let secs = nightStepSeconds (Settings (est e)) step;
          deadline = startedAt + seconds secs;
          e = upd (\<lambda>s. s\<lparr>NightStep := step, NightStepDeadline := deadline\<rparr>) e
      in (e, [pub (NightStepChanged step (Day (est e)) deadline)]))"

fun nextNightStep :: "night_step \<Rightarrow> night_step" where
  "nextNightStep NightStepIntro = NightStepMafia"
| "nextNightStep NightStepMafia = NightStepPolice"
| "nextNightStep NightStepPolice = NightStepDoctor"
| "nextNightStep NightStepDoctor = NightStepResolved"
| "nextNightStep _ = NightStepResolved"

definition enterNight :: "engine \<Rightarrow> engine \<times> envelope list" where
  "enterNight e =
     (let (now, e) = Now e;
          e = upd (\<lambda>s. s\<lparr>Phase := PhaseNight, Deadline := zero_time, Votes := [], VoteRound := 0,
                 VoteCandidates := [], PendingMafiaTarget := None, PendingDoctorTarget := None,
                 PendingPoliceTarget := None, PoliceCheckedThisNight := False,
                 NightStep := NightStepNone, NightStepDeadline := zero_time, LastTickAt := now\<rparr>) e;
          (e', evs) = beginNightStep NightStepIntro now e
      in (e', pub (PhaseChanged PhaseNight (Day (est e)) zero_time) # evs))"

text \<open>Who dies: the mafia's target unless the doctor chose the same player (lines 92 to 99).\<close>

definition night_victim :: "state \<Rightarrow> player_id option" where
  "night_victim s =
     (case PendingMafiaTarget s of
        None \<Rightarrow> None
      | Some killTarget \<Rightarrow>
          if PendingDoctorTarget s = Some killTarget then None else Some killTarget)"

text \<open>The state updates after the victim is known, the day announcement and the end check.\<close>

definition startDay ::
  "time \<Rightarrow> envelope list \<Rightarrow> engine \<Rightarrow> engine \<times> (go_error + envelope list)" where
  "startDay now deathFollowUp e =
     (let e = upd (\<lambda>s. s\<lparr>PendingMafiaTarget := None, PendingDoctorTarget := None,
                 PendingPoliceTarget := None, PoliceCheckedThisNight := False,
                 NightStep := NightStepNone, NightStepDeadline := zero_time,
                 Day := Day s + 1, Phase := PhaseDay,
                 Deadline := now + seconds (wrap64 (defaultDayIntroSeconds + DiscussionSeconds (Settings s))),
                 LastTickAt := now\<rparr>) e;
          events = pub (PhaseChanged PhaseDay (Day (est e)) (Deadline (est e))) # deathFollowUp
      in case evaluateEnd (est e) of
           Some (reason, winner) \<Rightarrow> (scheduleGameEnd reason winner e, Inr events)
         | None \<Rightarrow> (e, Inr events))"

definition resolveNight :: "'r rand_lib \<Rightarrow> engine \<Rightarrow> engine \<times> (go_error + envelope list)" where
  "resolveNight lib e =
     (let (now, e) = Now e in
      case night_victim (est e) of
        None \<Rightarrow> startDay now [pub PeacefulNight] e
      | Some victim \<Rightarrow>
          (case FindPlayer (est e) victim of
             None \<Rightarrow> (e, Inl (errf CodeUnknownPlayer))
           | Some p \<Rightarrow>
               let e = upd (kill victim) e in
               if victim = MafiaRepresentativeID (est e)
               then let (e, evs) = reassignMafiaRepresentative lib victim e
                    in startDay now (pub (DeathAnnounced victim) # evs) e
               else startDay now [pub (DeathAnnounced victim)] e))"

section \<open>handlers_night.go\<close>

definition handleMafiaKill :: "player_id \<Rightarrow> player_id \<Rightarrow> engine \<Rightarrow> result" where
  "handleMafiaKill aMafia aTarget e =
     (let s = est e in
      guard (ensurePhase s [PhaseNight]) (fail e)
     (if NightStep s \<noteq> NightStepMafia then fail e (errf CodeWrongPhase)
      else guard (ensureRole s aMafia RoleMafia) (fail e)
     (guard (ensureAlive s [aMafia, aTarget]) (fail e)
     (if aMafia \<noteq> MafiaRepresentativeID s then fail e (errf CodeNotRepresentative)
      else if PendingMafiaTarget s \<noteq> None then fail e (errf CodeAlreadyDone)
      else case FindPlayer s aTarget of
        None \<Rightarrow> fail e GoPanic
      | Some target \<Rightarrow>
          if Role target = RoleMafia then fail e (errf CodeInvalidTarget)
          else ok (upd (\<lambda>s. s\<lparr>PendingMafiaTarget := Some aTarget\<rparr>) e)
                  [mafia (MafiaTargetSelected aMafia aTarget)]))))"

definition handleDoctorHeal :: "player_id \<Rightarrow> player_id \<Rightarrow> engine \<Rightarrow> result" where
  "handleDoctorHeal aDoctor aTarget e =
     (let s = est e in
      guard (ensurePhase s [PhaseNight]) (fail e)
     (if NightStep s \<noteq> NightStepDoctor then fail e (errf CodeWrongPhase)
      else guard (ensureRole s aDoctor RoleDoctor) (fail e)
     (guard (ensureAlive s [aDoctor, aTarget]) (fail e)
     (if aDoctor = aTarget \<and> \<not> DoctorSelfHealAllowed (Settings s) then fail e (errf CodeInvalidTarget)
      else if PendingDoctorTarget s \<noteq> None then fail e (errf CodeAlreadyDone)
      else ok (upd (\<lambda>s. s\<lparr>PendingDoctorTarget := Some aTarget\<rparr>) e) []))))"

definition handlePoliceCheck :: "player_id \<Rightarrow> player_id \<Rightarrow> engine \<Rightarrow> result" where
  "handlePoliceCheck aPolice aTarget e =
     (let s = est e in
      guard (ensurePhase s [PhaseNight]) (fail e)
     (if NightStep s \<noteq> NightStepPolice then fail e (errf CodeWrongPhase)
      else guard (ensureRole s aPolice RolePolice) (fail e)
     (guard (ensureAlive s [aPolice, aTarget]) (fail e)
     (if aPolice = aTarget then fail e (errf CodeInvalidTarget)
      else if PoliceCheckedThisNight s then fail e (errf CodeAlreadyDone)
      else
        let e1 = upd (\<lambda>s. s\<lparr>PendingPoliceTarget := Some aTarget, PoliceCheckedThisNight := True\<rparr>) e in
        case FindPlayer (est e1) aTarget of
          None \<Rightarrow> fail e1 GoPanic
        | Some target \<Rightarrow>
            let team = TeamOf (Role target) in
            ok (upd (\<lambda>s. s\<lparr>PoliceHistory := PoliceHistory s
                      @ [\<lparr>pcDay = Day s, pcTarget = aTarget, pcTeam = team\<rparr>]\<rparr>) e1)
               [priv (PoliceResult aPolice aTarget team) aPolice]))))"

definition handleEndNightEarly :: "'r rand_lib \<Rightarrow> player_id \<Rightarrow> engine \<Rightarrow> result" where
  "handleEndNightEarly lib aHostID e =
     (let s = est e in
      guard (ensurePhase s [PhaseNight]) (fail e)
     (guard (ensureHost s aHostID) (fail e)
     (case resolveNight lib e of
        (e, Inl err) \<Rightarrow> fail e err
      | (e, Inr events) \<Rightarrow> ok e events)))"

section \<open>The handlers respect the contract\<close>

lemma startDay_out:
  "startDay now evs e = (e', out) \<Longrightarrow> epool e' = epool e \<and> (\<exists>evs. out = Inr evs)"
  by (auto simp: startDay_def Let_def split: option.splits)

lemma resolveNight_out:
  assumes "resolveNight lib e = (e', out)"
  shows "epool e' = epool e \<and> (\<forall>err. out = Inl err \<longrightarrow> est e' = est e \<and> err \<noteq> GoPanic)"
  using assms
  by (auto simp: resolveNight_def Now_def Let_def errf_def
      split: option.splits prod.splits if_splits dest!: startDay_out dest: reassign_frame(3))

lemma beginNightStep_pool [simp]: "epool (fst (beginNightStep step t e)) = epool e"
  by (simp add: beginNightStep_def Let_def)

lemma enterNight_pool [simp]: "epool (fst (enterNight e)) = epool e"
  by (simp add: enterNight_def beginNightStep_def Now_def Let_def)

interpretation mafia_kill: handler "handleMafiaKill m t" for m t
  by unfold_locales (simp add: handleMafiaKill_def Let_def split: option.split)

interpretation doctor_heal: handler "handleDoctorHeal d t" for d t
  by unfold_locales (simp add: handleDoctorHeal_def Let_def)

interpretation police_check: handler "handlePoliceCheck p t" for p t
  by unfold_locales (simp add: handlePoliceCheck_def Let_def split: option.split)

interpretation end_night_early: handler "handleEndNightEarly lib h" for lib :: "'r rand_lib" and h
proof unfold_locales
  fix e
  obtain e' out where r: "resolveNight lib e = (e', out)" by fastforce
  show "contract e (handleEndNightEarly lib h e)"
    using resolveNight_out [OF r]
    by (cases out) (auto simp: handleEndNightEarly_def r Let_def simp del: ensurePhase_None ensureHost_None)
qed

end
