(* ===== verification/Vote.thy ===== *)
theory Vote
  imports Night
begin

text \<open>
  The day's end and the vote: \<open>internal/game/handlers_day_vote.go\<close> and \<open>tally.go\<close>.
\<close>

section \<open>tally.go\<close>

text \<open>\<open>counts[t]++\<close> on a map of integers, and the counting loop over the ballots.\<close>

definition bump :: "player_id \<Rightarrow> (player_id, int) gomap \<Rightarrow> (player_id, int) gomap" where
  "bump t m = AList.update t ((case map_of m t of None \<Rightarrow> 0 | Some c \<Rightarrow> c) + 1) m"

fun count_ballots :: "(player_id, player_id) gomap \<Rightarrow> (player_id, int) gomap \<Rightarrow> (player_id, int) gomap" where
  "count_ballots [] counts = counts"
| "count_ballots ((v, t) # vs) counts =
     count_ballots vs (if t = '''' then counts else bump t counts)"

definition count_of :: "(player_id, int) gomap \<Rightarrow> player_id \<Rightarrow> int" where
  "count_of m pid = (case map_of m pid of None \<Rightarrow> 0 | Some c \<Rightarrow> c)"

text \<open>The loop over \<open>Players\<close> that keeps the maximum and the candidates that reach it.\<close>

fun top_loop ::
  "(player_id, int) gomap \<Rightarrow> player list \<Rightarrow> int \<Rightarrow> player_id list \<Rightarrow> int \<times> player_id list" where
  "top_loop counts [] maxCount tops = (maxCount, tops)"
| "top_loop counts (p # ps) maxCount tops =
     (let c = count_of counts (ID p) in
      if c = 0 then top_loop counts ps maxCount tops
      else if c > maxCount then top_loop counts ps c [ID p]
      else if c = maxCount then top_loop counts ps maxCount (tops @ [ID p])
      else top_loop counts ps maxCount tops)"

definition transitionVoteToNight :: "engine \<Rightarrow> engine \<times> envelope list" where
  "transitionVoteToNight e = enterNight e"

text \<open>The part of \<open>applyElimination\<close> after the death: end check or night (lines 112 to 121).\<close>

definition afterElimination :: "envelope list \<Rightarrow> engine \<Rightarrow> engine \<times> envelope list" where
  "afterElimination events e =
     (case evaluateEnd (est e) of
        Some (reason, winner) \<Rightarrow> (scheduleGameEnd reason winner e, events)
      | None \<Rightarrow> let (e, evs) = transitionVoteToNight e in (e, events @ evs))"

definition applyElimination :: "'r rand_lib \<Rightarrow> player_id \<Rightarrow> engine \<Rightarrow> engine \<times> envelope list" where
  "applyElimination lib pid e =
     (case FindPlayer (est e) pid of
        None \<Rightarrow> (e, [])
      | Some p \<Rightarrow>
          let e = upd (kill pid) e; events = [pub (Eliminated pid (Role p))] in
          if pid = MafiaRepresentativeID (est e)
          then let (e, evs) = reassignMafiaRepresentative lib pid e
               in afterElimination (events @ evs) e
          else afterElimination events e)"

definition tally :: "'r rand_lib \<Rightarrow> engine \<Rightarrow> engine \<times> envelope list" where
  "tally lib e =
     (let counts = count_ballots (Votes (est e)) [];
          (maxCount, topCandidates) = top_loop counts (Players (est e)) 0 [] in
      if maxCount = 0
      then let (e, evs) = transitionVoteToNight e in (e, pub (VoteTallied counts None False) # evs)
      else if VoteRound (est e) = 1
      then if length topCandidates = 1
           then let elim = topCandidates ! 0; (e, evs) = applyElimination lib elim e
                in (e, pub (VoteTallied counts (Some elim) False) # evs)
           else let e = upd (\<lambda>s. s\<lparr>Phase := PhaseRecount, VoteRound := 2,
                              VoteCandidates := topCandidates, Votes := []\<rparr>) e
                in (e, [pub (VoteTallied counts None True),
                        pub (PhaseChanged PhaseRecount (Day (est e)) zero_time)])
      else if length topCandidates = 1
      then let elim = topCandidates ! 0; (e, evs) = applyElimination lib elim e
           in (e, pub (VoteTallied counts (Some elim) False) # evs)
      else let (e, evs) = transitionVoteToNight e in (e, pub (VoteTallied counts None False) # evs))"

section \<open>handlers_day_vote.go\<close>

definition transitionDayToVote :: "time \<Rightarrow> engine \<Rightarrow> result" where
  "transitionDayToVote now e =
     (let e = upd (\<lambda>s. s\<lparr>Phase := PhaseVote, Deadline := zero_time, Votes := [], VoteRound := 1,
                 VoteCandidates := [], LastTickAt := now\<rparr>) e
      in ok e [pub (PhaseChanged PhaseVote (Day (est e)) zero_time)])"

definition handleEndDiscussionEarly :: "player_id \<Rightarrow> engine \<Rightarrow> result" where
  "handleEndDiscussionEarly aHostID e =
     (let s = est e in
      guard (ensurePhase s [PhaseDay]) (fail e)
     (guard (ensureHost s aHostID) (fail e)
     (let (now, e) = Now e in transitionDayToVote now e)))"

text \<open>The ballot checks of \<open>handleVote\<close> (lines 42 to 64), in the order of the source.\<close>

definition vote_check :: "state \<Rightarrow> player_id \<Rightarrow> player_id \<Rightarrow> go_error option" where
  "vote_check s aVoter aTarget =
     (if aTarget = '''' then ensureAlive s [aVoter]
      else case ensureAlive s [aVoter, aTarget] of
        Some err \<Rightarrow> Some err
      | None \<Rightarrow> if Phase s = PhaseRecount \<and> aTarget \<notin> set (VoteCandidates s)
                then Some (errf CodeInvalidTarget) else None)"

definition handleVote :: "'r rand_lib \<Rightarrow> player_id \<Rightarrow> player_id \<Rightarrow> engine \<Rightarrow> result" where
  "handleVote lib aVoter aTarget e =
     (let s = est e in
      guard (ensurePhase s [PhaseVote, PhaseRecount]) (fail e)
     (guard (vote_check s aVoter aTarget) (fail e)
     (let e = upd (\<lambda>s. s\<lparr>Votes := AList.update aVoter aTarget (Votes s)\<rparr>) e in
      if length (Votes (est e)) \<ge> LiveCount (est e)
      then let (e, events) = tally lib e in ok e events
      else ok e [])))"

section \<open>The handlers respect the contract\<close>

lemma afterElimination_pool [simp]: "epool (fst (afterElimination evs e)) = epool e"
  by (simp add: afterElimination_def transitionVoteToNight_def split_beta Let_def split: option.split)

lemma applyElimination_pool [simp]: "epool (fst (applyElimination lib k e)) = epool e"
  by (auto simp: applyElimination_def Let_def reassign_frame(3) split: option.split prod.split)

lemma tally_pool [simp]: "epool (fst (tally lib e)) = epool e"
  by (simp add: tally_def transitionVoteToNight_def Let_def split_beta)

interpretation end_discussion_early: handler "handleEndDiscussionEarly h" for h
  by unfold_locales (simp add: handleEndDiscussionEarly_def transitionDayToVote_def Let_def Now_def)

interpretation vote: handler "handleVote lib v t" for lib :: "'r rand_lib" and v t
  by unfold_locales (simp add: handleVote_def Let_def split_beta)

section \<open>The tally against its reference\<close>

text \<open>
  The reference counts the ballots for a player directly and takes the players with the largest
  positive count, in the order of the player list.
\<close>

definition ballots_for :: "(player_id, player_id) gomap \<Rightarrow> player_id \<Rightarrow> nat" where
  "ballots_for vs t = (if t = '''' then 0 else length (filter (\<lambda>(v, t'). t' = t) vs))"

lemma count_of_bump: "count_of (bump t m) u = count_of m u + (if u = t then 1 else 0)"
  by (simp add: count_of_def bump_def update_conv')

lemma count_of_ballots: "count_of (count_ballots vs m) t = count_of m t + int (ballots_for vs t)"
  by (induction vs m rule: count_ballots.induct) (auto simp: count_of_bump ballots_for_def)

lemma count_of_Nil [simp]: "count_of [] t = 0"
  by (simp add: count_of_def)

text \<open>The reference: the largest number of ballots any player has, and who has it.\<close>

definition max_ballots :: "(player_id \<Rightarrow> int) \<Rightarrow> player list \<Rightarrow> int" where
  "max_ballots c ps = Max (insert 0 ((\<lambda>p. c (ID p)) ` set ps))"

definition front_runners :: "(player_id \<Rightarrow> int) \<Rightarrow> player list \<Rightarrow> player_id list" where
  "front_runners c ps =
     (if max_ballots c ps = 0 then []
      else map ID (filter (\<lambda>p. c (ID p) = max_ballots c ps) ps))"

fun running_max :: "(player_id \<Rightarrow> int) \<Rightarrow> player list \<Rightarrow> int \<Rightarrow> int" where
  "running_max c [] m = m"
| "running_max c (p # ps) m = running_max c ps (max m (c (ID p)))"

lemma running_max_ge: "m \<le> running_max c ps m"
  by (induction ps arbitrary: m) (auto, metis max.bounded_iff)

lemma running_max_Max: "running_max c ps m = Max (insert m ((\<lambda>p. c (ID p)) ` set ps))"
proof (induction ps arbitrary: m)
  case (Cons p ps)
  show ?case by (cases "ps = []") (auto simp: Cons max.assoc)
qed simp

lemma top_loop_general:
  assumes "0 \<le> m" "\<And>k. 0 \<le> count_of cs k" "M = running_max (count_of cs) ps m"
  shows "top_loop cs ps m ts =
    (M, (if M = m then ts else []) @
        (if M = 0 then [] else map ID (filter (\<lambda>p. count_of cs (ID p) = M) ps)))"
  using assms(1,3)
proof (induction ps arbitrary: m ts)
  case (Cons p ps)
  let ?c = "count_of cs (ID p)"
  have ge: "max m ?c \<le> M"
    using running_max_ge Cons.prems by simp
  consider "?c = 0" | "?c > m" | "?c = m" "?c \<noteq> 0" | "?c < m" "?c \<noteq> 0"
    by linarith
  then show ?case
  proof cases
    case 1
    then show ?thesis using Cons by simp
  next
    case 2
    with Cons.IH [of ?c "[ID p]"] Cons.prems ge show ?thesis by (auto simp: Let_def)
  next
    case 3
    with Cons.IH [of m] Cons.prems ge show ?thesis by (auto simp: Let_def)
  next
    case 4
    with Cons.IH [of m] Cons.prems ge show ?thesis by (auto simp: Let_def)
  qed
qed simp

lemma top_loop_reference:
  assumes "\<And>k. 0 \<le> count_of cs k"
  shows "top_loop cs ps 0 [] = (max_ballots (count_of cs) ps, front_runners (count_of cs) ps)"
  using top_loop_general [OF _ assms refl, of 0 ps "[]"]
  by (simp add: max_ballots_def front_runners_def running_max_Max)

lemma count_ballots_nonneg: "0 \<le> count_of (count_ballots vs []) k"
  by (simp add: count_of_ballots)

lemma tally_top:
  "top_loop (count_ballots vs []) ps 0 [] =
     (max_ballots (\<lambda>k. int (ballots_for vs k)) ps, front_runners (\<lambda>k. int (ballots_for vs k)) ps)"
proof -
  have "count_of (count_ballots vs []) = (\<lambda>k. int (ballots_for vs k))"
    by (simp add: fun_eq_iff count_of_ballots)
  then show ?thesis by (simp add: top_loop_reference count_ballots_nonneg)
qed

lemma max_ballots_attained: "max_ballots c ps \<noteq> 0 \<Longrightarrow> \<exists>p\<in>set ps. c (ID p) = max_ballots c ps"
  using Max_in [of "insert 0 ((\<lambda>p. c (ID p)) ` set ps)"] by (auto simp: max_ballots_def)

lemma front_runners_subset: "set (front_runners c ps) \<subseteq> ID ` set ps"
  by (auto simp: front_runners_def)

lemma front_runners_empty: "front_runners c ps = [] \<longleftrightarrow> max_ballots c ps = 0"
  using max_ballots_attained [of c ps] by (auto simp: front_runners_def filter_empty_conv)

lemma front_runners_distinct: "distinct (map ID ps) \<Longrightarrow> distinct (front_runners c ps)"
  by (simp add: front_runners_def distinct_map_filter)

lemma max_ballots_ge: "p \<in> set ps \<Longrightarrow> c (ID p) \<le> max_ballots c ps"
  by (simp add: max_ballots_def)

lemma front_runners_iff:
  "x \<in> set (front_runners c ps) \<longleftrightarrow>
     x \<in> ID ` set ps \<and> 0 < c x \<and> (\<forall>p\<in>set ps. c (ID p) \<le> c x)" (is "?L \<longleftrightarrow> ?R")
proof
  have "0 \<le> max_ballots c ps" by (simp add: max_ballots_def)
  then show "?L \<Longrightarrow> ?R"
    using max_ballots_ge [of _ ps c] by (auto simp: front_runners_def split: if_splits)
next
  assume R: ?R
  then obtain q where q: "q \<in> set ps" "x = ID q" by blast
  with R max_ballots_ge [of q ps c] have pos: "0 < max_ballots c ps" "c x \<le> max_ballots c ps" by auto
  with max_ballots_attained [of c ps] R have "max_ballots c ps = c x" by force
  with q pos show ?L by (auto simp: front_runners_def)
qed

section \<open>What a tally does\<close>

lemma scheduleGameEnd_Players [simp]: "Players (est (scheduleGameEnd r w e)) = Players (est e)"
  by (simp add: scheduleGameEnd_est split: option.split)

lemma enterNight_est:
  "est (fst (enterNight e)) = (est e)\<lparr>Phase := PhaseNight, Deadline := zero_time, Votes := [],
     VoteRound := 0, VoteCandidates := [], PendingMafiaTarget := None, PendingDoctorTarget := None,
     PendingPoliceTarget := None, PoliceCheckedThisNight := False, NightStep := NightStepIntro,
     NightStepDeadline := eclock e 0 + seconds defaultNightIntroSeconds, LastTickAt := eclock e 0\<rparr>"
  by (simp add: enterNight_def beginNightStep_def nightStepSeconds_def Now_def Let_def)

lemma afterElimination_Players [simp]: "Players (est (fst (afterElimination evs e))) = Players (est e)"
  by (simp add: afterElimination_def transitionVoteToNight_def enterNight_est split_beta Let_def
      split: option.split)

lemma reassign_Players:
  "Players (est (fst (reassignMafiaRepresentative lib k e))) = Players (est e)"
  by (metis prod.collapse reassign_frame(1) state.select_convs(4) state.surjective state.update_convs(11))

lemma kill_unknown: "FindPlayer s k = None \<Longrightarrow> Players (kill k s) = Players s"
  by (simp add: kill_def FindPlayer_def find_None_iff update_first_none)

lemma applyElimination_Players:
  "Players (est (fst (applyElimination lib k e))) = Players (kill k (est e))"
  by (simp add: applyElimination_def Let_def split_beta reassign_Players kill_unknown split: option.split)

abbreviation front :: "state \<Rightarrow> player_id list" where
  "front s \<equiv> front_runners (\<lambda>k. int (ballots_for (Votes s) k)) (Players s)"

lemma tally_cases:
  "tally lib e =
     (let counts = count_ballots (Votes (est e)) []; F = front (est e) in
      if length F = 1
      then let (e, evs) = applyElimination lib (F ! 0) e in (e, pub (VoteTallied counts (Some (F ! 0)) False) # evs)
      else if F \<noteq> [] \<and> VoteRound (est e) = 1
      then let e = upd (\<lambda>s. s\<lparr>Phase := PhaseRecount, VoteRound := 2, VoteCandidates := F, Votes := []\<rparr>) e
           in (e, [pub (VoteTallied counts None True), pub (PhaseChanged PhaseRecount (Day (est e)) zero_time)])
      else let (e, evs) = enterNight e in (e, pub (VoteTallied counts None False) # evs))"
  unfolding tally_def
  by (auto simp: Let_def tally_top transitionVoteToNight_def front_runners_empty [symmetric])

text \<open>
  C1: the outcome of a vote. A single player with the largest positive number of ballots is
  eliminated and nobody else changes; a tie in the first round opens a recount among exactly the
  tied players and clears the ballots; a tie in the recount, or a vote in which everybody
  abstained, kills nobody and goes to the night.
\<close>
theorem tally_outcome:
  "let s = est e; t = est (fst (tally lib e)); F = front s in
   (\<forall>x. x \<in> set F \<longleftrightarrow> x \<in> player_ids s \<and> 0 < ballots_for (Votes s) x \<and>
      (\<forall>y\<in>player_ids s. ballots_for (Votes s) y \<le> ballots_for (Votes s) x)) \<and>
   (if length F = 1 then Players t = Players (kill (F ! 0) s)
    else Players t = Players s \<and>
      (if F \<noteq> [] \<and> VoteRound s = 1
       then Phase t = PhaseRecount \<and> VoteRound t = 2 \<and> VoteCandidates t = F \<and> Votes t = []
       else Phase t = PhaseNight \<and> Votes t = []))"
proof -
  have "x \<in> set (front s) \<longleftrightarrow> x \<in> player_ids s \<and> 0 < ballots_for (Votes s) x \<and>
      (\<forall>y\<in>player_ids s. ballots_for (Votes s) y \<le> ballots_for (Votes s) x)" for x s
    by (simp add: front_runners_iff)
  then show ?thesis
    by (simp add: tally_cases Let_def split_beta applyElimination_Players enterNight_est)
qed

theorem tally_outcome_witness:
  "map Alive (Players (est (fst (tally demo_lib
      ((New demo_pool (\<lambda>_. 9) [])\<lparr>est := zero_state\<lparr>Players := demo_players, VoteRound := 1,
        Votes := [(''a'', ''b''), (''b'', '''')]\<rparr>\<rparr>))))) = [True, False]"
proof -
  let ?s = "zero_state\<lparr>Players := demo_players, VoteRound := 1, Votes := [(''a'', ''b''), (''b'', '''')]\<rparr>"
  have F: "front ?s = [''b'']"
    by (simp add: front_runners_def max_ballots_def ballots_for_def demo_players_def)
  show ?thesis
    using tally_outcome [of "(New demo_pool (\<lambda>_. 9) [])\<lparr>est := ?s\<rparr>" demo_lib] F
    by (simp add: kill_def demo_players_def)
qed

end
