(* ===== verification/Lifecycle.thy ===== *)
theory Lifecycle
  imports Roles Vote
begin

text \<open>
  \<open>internal/game/handlers_lifecycle.go\<close>: the action form of starting a game, the speaking
  round, pause and resume, the voice toggle and the host's forced end.
\<close>

text \<open>The read \<open>Players[i]\<close>; \<open>None\<close> is the run-time panic of an index out of range.\<close>

definition player_at :: "state \<Rightarrow> int \<Rightarrow> player option" where
  "player_at s i =
     (if 0 \<le> i \<and> i < int (length (Players s)) then Some (Players s ! nat i) else None)"

section \<open>Starting\<close>

text \<open>Copying the assignment into the player list; a missing map key reads as the zero value.\<close>

definition assign_player :: "assignments \<Rightarrow> player \<Rightarrow> player" where
  "assign_player asg p =
     p\<lparr>Alive := True,
       Role := (case PlayerRoles asg (ID p) of None \<Rightarrow> RoleNone | Some r \<Rightarrow> r),
       Keyword := (case PlayerKeywords asg (ID p) of None \<Rightarrow> '''' | Some k \<Rightarrow> k)\<rparr>"

text \<open>The event sequence of a fresh game, the same in \<open>Start\<close> and \<open>handleStartGame\<close>.\<close>

definition start_events :: "state \<Rightarrow> assignments \<Rightarrow> player \<Rightarrow> int \<Rightarrow> envelope list" where
  "start_events s asg first introSeconds =
     [pub (GameStarted s)]
   @ map (\<lambda>p. priv (RoleRevealedToPlayer (ID p) (Role p) (Keyword p)) (ID p)) (Players s)
   @ (if MafiaIDs asg \<noteq> [] then [mafia (MafiaCohortRevealed (MafiaIDs asg) (RepresentativeID asg))] else [])
   @ [pub (PhaseChanged PhaseIntro 1 zero_time), pub (IntroSpeakerChanged (ID first) introSeconds)]"

definition handleStartGame :: "'r rand_lib \<Rightarrow> player_id \<Rightarrow> options \<Rightarrow> engine \<Rightarrow> result" where
  "handleStartGame lib aHostID aOptions e =
     (if Phase (est e) \<noteq> PhaseLobby then fail e (errf CodeWrongPhase)
      else if aHostID \<noteq> HostID (est e) then fail e (errf CodePermissionDenied)
      else
       (case newInnerRand lib e of
          (None, e) \<Rightarrow> fail e (errf CodeValidation)
        | (Some rng, e) \<Rightarrow>
          (case Assign lib (epool e) (map ID (Players (est e))) aOptions rng of
             Inl err \<Rightarrow> fail e err
           | Inr asg \<Rightarrow>
             (let (now, e) = Now e;
                  e = upd (\<lambda>s. s\<lparr>Players := map (assign_player asg) (Players s), Settings := aOptions,
                        Phase := PhaseIntro, Day := 1, IntroSpeakerIdx := 0,
                        IntroSpeakerStartedAt := now, StartedAt := now,
                        MafiaRepresentativeID := RepresentativeID asg, LastTickAt := now\<rparr>) e
              in case player_at (est e) 0 of
                   None \<Rightarrow> fail e GoPanic
                 | Some first \<Rightarrow>
                     ok e (start_events (est e) asg first (IntroSecondsPerPlayer aOptions))))))"

section \<open>The speaking round\<close>

definition transitionIntroToDay :: "time \<Rightarrow> engine \<Rightarrow> result" where
  "transitionIntroToDay now e =
     (let e = upd (\<lambda>s. s\<lparr>Phase := PhaseDay,
                 Deadline := now + seconds (DiscussionSeconds (Settings s)),
                 PendingMafiaTarget := None, PendingDoctorTarget := None,
                 PendingPoliceTarget := None, PoliceCheckedThisNight := False,
                 NightStep := NightStepNone, LastTickAt := now\<rparr>) e
      in ok e [pub (PhaseChanged PhaseDay (Day (est e)) (Deadline (est e)))])"

text \<open>The common tail of \<open>handleEndSelfIntro\<close> and \<open>handleAdvanceIntro\<close>.\<close>

definition advanceSpeaker :: "engine \<Rightarrow> result" where
  "advanceSpeaker e =
     (let (now, e) = Now e in
      if IntroSpeakerIdx (est e) < int (length (Players (est e))) - 1
      then let e = upd (\<lambda>s. s\<lparr>IntroSpeakerIdx := IntroSpeakerIdx s + 1,
                           IntroSpeakerStartedAt := now\<rparr>) e in
        (case player_at (est e) (IntroSpeakerIdx (est e)) of
           None \<Rightarrow> fail e GoPanic
         | Some p \<Rightarrow> ok e [pub (IntroSpeakerChanged (ID p) (IntroSecondsPerPlayer (Settings (est e))))])
      else transitionIntroToDay now e)"

definition handleEndSelfIntro :: "player_id \<Rightarrow> engine \<Rightarrow> result" where
  "handleEndSelfIntro aPlayerID e =
     (let s = est e in
      guard (ensurePhase s [PhaseIntro]) (fail e)
     (case player_at s (IntroSpeakerIdx s) of
        None \<Rightarrow> fail e (errf CodeValidation)
      | Some current \<Rightarrow>
          if aPlayerID \<noteq> ID current then fail e (errf CodePermissionDenied) else advanceSpeaker e))"

definition handleAdvanceIntro :: "player_id \<Rightarrow> engine \<Rightarrow> result" where
  "handleAdvanceIntro aHostID e =
     (let s = est e in
      guard (ensurePhase s [PhaseIntro]) (fail e)
     (guard (ensureHost s aHostID) (fail e) (advanceSpeaker e)))"

section \<open>Voice, pause, resume, forced end\<close>

definition handleToggleVoice :: "player_id \<Rightarrow> bool \<Rightarrow> engine \<Rightarrow> result" where
  "handleToggleVoice aHostID aOn e =
     guard (ensureHost (est e) aHostID) (fail e)
      (ok (upd (\<lambda>s. s\<lparr>Settings := (Settings s)\<lparr>AnnouncementVoiceOn := aOn\<rparr>\<rparr>) e)
          [pub (VoiceToggled aOn)])"

definition canPause :: "phase \<Rightarrow> bool" where
  "canPause p \<longleftrightarrow> p = PhaseIntro \<or> p = PhaseDay \<or> p = PhaseNight"

definition handlePauseGame :: "player_id \<Rightarrow> engine \<Rightarrow> result" where
  "handlePauseGame aHostID e =
     (let s = est e in
      guard (ensureHost s aHostID) (fail e)
     (if PendingGameEnd s = None \<and> \<not> canPause (Phase s) then fail e (errf CodeWrongPhase)
      else if PendingGameEnd s = None \<and> Phase s = PhaseNight \<and> NightStep s = NightStepIntro
      then fail e (errf CodeWrongPhase)
      else if Paused s then ok e []
      else let (now, e) = Now e in
        ok (upd (\<lambda>s. s\<lparr>Paused := True, PausedAt := now\<rparr>) e) [pub (GamePaused (Phase s))]))"

text \<open>The timer of the current phase moved by \<open>shift\<close> (lines 187 to 204), and the pending end.\<close>

definition shift_phase_timer :: "duration \<Rightarrow> state \<Rightarrow> state" where
  "shift_phase_timer shift s =
     (case Phase s of
        PhaseIntro \<Rightarrow> s\<lparr>IntroSpeakerStartedAt := IntroSpeakerStartedAt s + shift\<rparr>
      | PhaseDay \<Rightarrow> if Deadline s \<noteq> zero_time then s\<lparr>Deadline := Deadline s + shift\<rparr> else s
      | PhaseNight \<Rightarrow> if NightStepDeadline s \<noteq> zero_time
                     then s\<lparr>NightStepDeadline := NightStepDeadline s + shift\<rparr> else s
      | _ \<Rightarrow> s)"

definition shift_pending_end :: "duration \<Rightarrow> state \<Rightarrow> state" where
  "shift_pending_end shift s =
     s\<lparr>PendingGameEnd := map_option (\<lambda>g. g\<lparr>geDeadline := geDeadline g + shift\<rparr>) (PendingGameEnd s)\<rparr>"

definition resumed_deadline :: "state \<Rightarrow> time" where
  "resumed_deadline s =
     (case Phase s of PhaseDay \<Rightarrow> Deadline s | PhaseNight \<Rightarrow> NightStepDeadline s | _ \<Rightarrow> zero_time)"

definition handleResumeGame :: "player_id \<Rightarrow> engine \<Rightarrow> result" where
  "handleResumeGame aHostID e =
     (let s = est e in
      guard (ensureHost s aHostID) (fail e)
     (if \<not> Paused s then ok e []
      else
        let (now, e) = Now e;
            shift = max 0 (time_sub now (PausedAt s));
            e = upd (shift_phase_timer shift) e;
            e = upd (shift_pending_end shift) e;
            e = upd (\<lambda>s. s\<lparr>Paused := False, PausedAt := zero_time, LastTickAt := now\<rparr>) e
        in ok e [pub (GameResumed (Phase (est e)) (resumed_deadline (est e)))]))"

definition handleForceEnd :: "player_id \<Rightarrow> engine \<Rightarrow> result" where
  "handleForceEnd aHostID e =
     guard (ensureHost (est e) aHostID) (fail e)
      (if Phase (est e) = PhaseEnd then fail e (errf CodeWrongPhase)
       else ok (upd (\<lambda>s. s\<lparr>PendingGameEnd := None, Phase := PhaseEnd,
                       EndReason := Some EndHostForceEnd, Winner := None\<rparr>) e)
               [pub (GameEnded None EndHostForceEnd (Players (est e)))])"

section \<open>The handlers respect the contract\<close>

lemma advanceSpeaker_contract [simp]: "contract e (advanceSpeaker e)"
  by (simp add: advanceSpeaker_def transitionIntroToDay_def Let_def Now_def split: option.split)

interpretation start_game: handler "handleStartGame lib h opts" for lib :: "'r rand_lib" and h opts
proof unfold_locales
  fix e
  obtain r e' where n: "newInnerRand lib e = (r, e')" by fastforce
  then have "est e' = est e" "epool e' = epool e"
    by (metis snd_conv newInnerRand_simps(1), metis snd_conv newInnerRand_simps(3))
  then show "contract e (handleStartGame lib h opts e)"
    by (simp add: handleStartGame_def n Let_def Now_def split: option.split sum.split)
qed

interpretation end_self_intro: handler "handleEndSelfIntro p" for p
  by unfold_locales (simp add: handleEndSelfIntro_def Let_def split: option.split)

interpretation advance_intro: handler "handleAdvanceIntro h" for h
  by unfold_locales (simp add: handleAdvanceIntro_def Let_def)

interpretation toggle_voice: handler "handleToggleVoice h on" for h on
  by unfold_locales (simp add: handleToggleVoice_def)

interpretation pause_game: handler "handlePauseGame h" for h
  by unfold_locales (simp add: handlePauseGame_def Let_def Now_def)

interpretation resume_game: handler "handleResumeGame h" for h
  by unfold_locales (simp add: handleResumeGame_def Let_def Now_def)

interpretation force_end: handler "handleForceEnd h" for h
  by unfold_locales (simp add: handleForceEnd_def)

end
