(* ===== verification/Ticks.thy ===== *)
theory Ticks
  imports Lifecycle
begin

text \<open>
  \<open>internal/game/tick.go\<close>: the time-driven transitions. The two \<open>for\<close> loops are recursive
  functions with a termination proof: the speaker index climbs to the end of the player list,
  and the night step climbs to its last value.
\<close>

function (sequential) intro_loop ::
  "time \<Rightarrow> duration \<Rightarrow> engine \<Rightarrow> envelope list \<Rightarrow> engine \<times> (go_error + envelope list)" where
  "intro_loop now perPlayer e events =
     (let s = est e; elapsed = time_sub now (IntroSpeakerStartedAt s) in
      if IntroSpeakerIdx s \<ge> int (length (Players s)) - 1
      then if elapsed < perPlayer then (e, Inr events)
           else (case transitionIntroToDay now e of
                   (e, _, Inl err) \<Rightarrow> (e, Inl err)
                 | (e, _, Inr evs) \<Rightarrow> (e, Inr (events @ evs)))
      else if elapsed < perPlayer then (e, Inr events)
      else
        let e = upd (\<lambda>s. s\<lparr>IntroSpeakerIdx := IntroSpeakerIdx s + 1,
                       IntroSpeakerStartedAt := IntroSpeakerStartedAt s + perPlayer\<rparr>) e in
        (case player_at (est e) (IntroSpeakerIdx (est e)) of
           None \<Rightarrow> (e, Inl GoPanic)
         | Some p \<Rightarrow> intro_loop now perPlayer e
             (events @ [pub (IntroSpeakerChanged (ID p) (IntroSecondsPerPlayer (Settings (est e))))])))"
  by pat_completeness auto
termination
  by (relation "measure (\<lambda>(now, perPlayer, e, events).
        nat (int (length (Players (est e))) - 1 - IntroSpeakerIdx (est e)))") auto

declare intro_loop.simps [simp del]

definition with_state :: "engine \<times> (go_error + envelope list) \<Rightarrow> result" where
  "with_state r = (case r of (e, Inl err) \<Rightarrow> fail e err | (e, Inr events) \<Rightarrow> ok e events)"

definition tickIntro :: "time \<Rightarrow> engine \<Rightarrow> result" where
  "tickIntro now e =
     with_state (intro_loop now (seconds (IntroSecondsPerPlayer (Settings (est e)))) e [])"

definition discussionTimerThresholds :: "int list" where
  "discussionTimerThresholds = [30, 10, 0]"

definition threshold_events :: "time \<Rightarrow> time \<Rightarrow> time \<Rightarrow> envelope list" where
  "threshold_events deadline now prev =
     map (\<lambda>th. pub (DiscussionTimerTick th))
       (filter (\<lambda>th. \<not> now < deadline - th * second \<and> prev < deadline - th * second)
         discussionTimerThresholds)"

definition tickDay :: "time \<Rightarrow> time \<Rightarrow> engine \<Rightarrow> result" where
  "tickDay now prev e =
     (let deadline = Deadline (est e); events = threshold_events deadline now prev in
      if \<not> now < deadline
      then (case transitionDayToVote now e of
              (e, _, Inl err) \<Rightarrow> fail e err
            | (e, _, Inr evs) \<Rightarrow> ok e (events @ evs))
      else ok e events)"

fun step_rank :: "night_step \<Rightarrow> nat" where
  "step_rank NightStepIntro = 4"
| "step_rank NightStepMafia = 3"
| "step_rank NightStepPolice = 2"
| "step_rank NightStepDoctor = 1"
| "step_rank _ = 0"

function (sequential) night_loop ::
  "'r rand_lib \<Rightarrow> time \<Rightarrow> engine \<Rightarrow> envelope list \<Rightarrow> engine \<times> (go_error + envelope list)" where
  "night_loop lib now e events =
     (let s = est e in
      if NightStep s = NightStepNone \<or> NightStepDeadline s = zero_time then (e, Inr events)
      else if now < NightStepDeadline s then (e, Inr events)
      else
        let expired = NightStepDeadline s; next = nextNightStep (NightStep s) in
        if next = NightStepResolved
        then let e = upd (\<lambda>s. s\<lparr>NightStep := NightStepNone, NightStepDeadline := zero_time\<rparr>) e in
          (case resolveNight lib e of
             (e, Inl err) \<Rightarrow> (e, Inl err)
           | (e, Inr evs) \<Rightarrow> (e, Inr (events @ evs)))
        else let (e, evs) = beginNightStep next expired e
             in night_loop lib now e (events @ evs))"
  by pat_completeness auto
termination
proof (relation "measure (\<lambda>(lib, now, e, events). step_rank (NightStep (est e)))", goal_cases)
  case (2 lib now e events s expired nxt p e1 evs)
  then show ?case
    by (cases "NightStep (est e)") (auto simp: beginNightStep_def Let_def)
qed auto

declare night_loop.simps [simp del]

definition tickNight :: "'r rand_lib \<Rightarrow> time \<Rightarrow> engine \<Rightarrow> result" where
  "tickNight lib now e = with_state (night_loop lib now e [])"

definition Tick :: "'r rand_lib \<Rightarrow> time \<Rightarrow> engine \<Rightarrow> result" where
  "Tick lib now e =
     (let s = est e in
      if Paused s then ok e []
      else if \<not> now > LastTickAt s then ok e []
      else if (case PendingGameEnd s of None \<Rightarrow> False | Some g \<Rightarrow> \<not> now < geDeadline g)
      then firePendingEnd now e
      else
        let prev = LastTickAt s; e = upd (\<lambda>s. s\<lparr>LastTickAt := now\<rparr>) e in
        (case Phase s of
           PhaseIntro \<Rightarrow> tickIntro now e
         | PhaseDay \<Rightarrow> tickDay now prev e
         | PhaseNight \<Rightarrow> tickNight lib now e
         | _ \<Rightarrow> ok e []))"

end
