(* ===== verification/Engine.thy ===== *)
theory Engine
  imports Ticks
begin

text \<open>
  \<open>internal/game/engine.go\<close> and \<open>apply.go\<close>: starting a game and dispatching an action.
\<close>

definition Start ::
  "'r rand_lib \<Rightarrow> string \<Rightarrow> player_id \<Rightarrow> player list \<Rightarrow> options \<Rightarrow> engine \<Rightarrow> result" where
  "Start lib gameID host players opts e =
     (if Phase (est e) \<noteq> PhaseNone \<and> Phase (est e) \<noteq> PhaseLobby then fail e (errf CodeWrongPhase)
      else if length players < 6 \<or> length players > 12 then fail e (errf CodeValidation)
      else if host \<noteq> '''' \<and> \<not> list_ex (\<lambda>p. ID p = host) players
      then fail e (errf CodePermissionDenied)
      else
       (case newInnerRand lib e of
          (None, e) \<Rightarrow> fail e (errf CodeValidation)
        | (Some rng, e) \<Rightarrow>
          (case Assign lib (epool e) (map ID players) opts rng of
             Inl err \<Rightarrow> fail e err
           | Inr asg \<Rightarrow>
             (let (now, e) = Now e;
                  s = zero_state\<lparr>GameID := gameID, Phase := PhaseIntro, Day := 1,
                        Players := map (assign_player asg) players, HostID := host,
                        Settings := opts, StartedAt := now, IntroSpeakerIdx := 0,
                        IntroSpeakerStartedAt := now,
                        MafiaRepresentativeID := RepresentativeID asg, Votes := [],
                        PoliceCheckedThisNight := False, LastTickAt := now\<rparr>;
                  e = e\<lparr>est := s\<rparr>
              in case player_at s 0 of
                   None \<Rightarrow> fail e GoPanic
                 | Some first \<Rightarrow> ok e (start_events s asg first (IntroSecondsPerPlayer opts))))))"

definition Apply :: "'r rand_lib \<Rightarrow> action \<Rightarrow> engine \<Rightarrow> result" where
  "Apply lib action e =
     (if Phase (est e) = PhaseEnd then fail e (errf CodeWrongPhase)
      else case action of
        StartGame h opts \<Rightarrow> handleStartGame lib h opts e
      | AdvanceIntro h \<Rightarrow> handleAdvanceIntro h e
      | EndSelfIntro p \<Rightarrow> handleEndSelfIntro p e
      | SubmitMafiaKill m t \<Rightarrow> handleMafiaKill m t e
      | SubmitDoctorHeal d t \<Rightarrow> handleDoctorHeal d t e
      | SubmitPoliceCheck p t \<Rightarrow> handlePoliceCheck p t e
      | EndNightEarly h \<Rightarrow> handleEndNightEarly lib h e
      | EndDiscussionEarly h \<Rightarrow> handleEndDiscussionEarly h e
      | SubmitVote v t \<Rightarrow> handleVote lib v t e
      | ToggleVoice h on \<Rightarrow> handleToggleVoice h on e
      | ForceEndGame h \<Rightarrow> handleForceEnd h e
      | PauseGame h \<Rightarrow> handlePauseGame h e
      | ResumeGame h \<Rightarrow> handleResumeGame h e)"

section \<open>Errors have no effect\<close>

lemma Start_contract: "contract e (Start lib g h ps opts e)"
proof -
  obtain r e' where n: "newInnerRand lib e = (r, e')" by fastforce
  then have "est e' = est e" "epool e' = epool e"
    by (metis snd_conv newInnerRand_simps(1), metis snd_conv newInnerRand_simps(3))
  then show ?thesis
    by (simp add: Start_def n Let_def Now_def split: option.split sum.split)
qed

interpretation start: handler "Start lib g h ps opts" for lib :: "'r rand_lib" and g h ps opts
  by unfold_locales (rule Start_contract)

lemmas handler_respects =
  start_game.respects advance_intro.respects end_self_intro.respects mafia_kill.respects
  doctor_heal.respects police_check.respects end_night_early.respects
  end_discussion_early.respects vote.respects toggle_voice.respects force_end.respects
  pause_game.respects resume_game.respects

interpretation apply_action: handler "Apply lib a" for lib :: "'r rand_lib" and a
  by unfold_locales (cases a, simp_all add: Apply_def handler_respects)

text \<open>
  C26: an action that is rejected has no effect. Whatever the state and the action, when
  \<open>Apply\<close> returns an error the engine's state is unchanged and the state returned to the caller
  is that unchanged state; when it succeeds the returned state is the engine's new state.
\<close>
theorem Apply_error_atomic:
  "(\<forall>err. res_out (Apply lib a e) = Inl err \<longrightarrow> err \<noteq> GoPanic \<longrightarrow>
      Snapshot (res_engine (Apply lib a e)) = Snapshot e) \<and>
   res_state (Apply lib a e) = Snapshot (res_engine (Apply lib a e))"
  using apply_action.error_no_effect apply_action.returns_current by blast

theorem Apply_error_atomic_witness:
  "res_out (Apply demo_lib (SubmitVote ''a'' ''b'') (New demo_pool (\<lambda>_. 1) [])) = Inl (errf CodeWrongPhase)
   \<and> Snapshot (res_engine (Apply demo_lib (SubmitVote ''a'' ''b'') (New demo_pool (\<lambda>_. 1) [])))
     = zero_state"
proof -
  have "res_out (Apply demo_lib (SubmitVote ''a'' ''b'') (New demo_pool (\<lambda>_. 1) [])) = Inl (errf CodeWrongPhase)"
    by (simp add: Apply_def handleVote_def New_def zero_state_def ensurePhase_def Let_def)
  with Apply_error_atomic [of demo_lib "SubmitVote ''a'' ''b''" "New demo_pool (\<lambda>_. 1) []"]
  show ?thesis by (simp add: errf_def) (simp add: New_def Snapshot_def)
qed

end
