(* ===== verification/Invariants.thy ===== *)
theory Invariants
  imports Engine
begin

text \<open>
  The invariant of a running game. It is split by topic: the player list, the mafia
  representative, the ballots, the investigation log, the outcome, and what holds in each phase.
\<close>

section \<open>The invariant\<close>

abbreviation alive_ids :: "state \<Rightarrow> player_id set" where
  "alive_ids s \<equiv> ID ` {p \<in> set (Players s). Alive p}"

definition wf_players :: "state \<Rightarrow> bool" where
  "wf_players s \<longleftrightarrow>
     distinct (map ID (Players s)) \<and> '''' \<notin> player_ids s \<and>
     6 \<le> length (Players s) \<and> length (Players s) \<le> 12 \<and>
     0 \<le> IntroSpeakerIdx s \<and> IntroSpeakerIdx s < int (length (Players s))"

definition rep_ok :: "state \<Rightarrow> bool" where
  "rep_ok s \<longleftrightarrow>
     (if LiveMafiaCount s = 0 then MafiaRepresentativeID s = ''''
      else MafiaRepresentativeID s \<in> set (LivingMafiaIDs s))"

definition ballots_ok :: "state \<Rightarrow> bool" where
  "ballots_ok s \<longleftrightarrow>
     gomap_ok (Votes s) \<and> keys (Votes s) \<subseteq> player_ids s \<and>
     snd ` set (Votes s) \<subseteq> insert '''' (player_ids s)"

definition police_ok :: "state \<Rightarrow> bool" where
  "police_ok s \<longleftrightarrow>
     1 \<le> Day s \<and> sorted_wrt (<) (map pcDay (PoliceHistory s)) \<and>
     (\<forall>r\<in>set (PoliceHistory s).
        pcDay r \<le> Day s \<and> (pcDay r = Day s \<longrightarrow> PoliceCheckedThisNight s) \<and>
        (\<exists>p\<in>set (Players s). ID p = pcTarget r \<and> pcTeam r = TeamOf (Role p)))"

text \<open>The verdict a scheduled or finished end carries.\<close>

definition verdict_ok :: "state \<Rightarrow> end_reason \<Rightarrow> team option \<Rightarrow> bool" where
  "verdict_ok s reason winner \<longleftrightarrow>
     reason = EndCitizenWin \<and> winner = Some TeamCitizen \<and> LiveMafiaCount s = 0 \<or>
     reason = EndMafiaWin \<and> winner = Some TeamMafia"

definition outcome_ok :: "state \<Rightarrow> bool" where
  "outcome_ok s \<longleftrightarrow>
     (if Phase s = PhaseEnd
      then PendingGameEnd s = None \<and>
        (case EndReason s of
           None \<Rightarrow> False
         | Some EndHostForceEnd \<Rightarrow> Winner s = None
         | Some reason \<Rightarrow> verdict_ok s reason (Winner s))
      else Winner s = None \<and> EndReason s = None \<and>
        (case PendingGameEnd s of
           None \<Rightarrow> 0 < LiveMafiaCount s \<and> LiveMafiaCount s < LiveCitizenSideCount s
         | Some g \<Rightarrow> verdict_ok s (geReason g) (geWinner g)))"

text \<open>Outside the night no secret action is stored.\<close>

definition quiet :: "state \<Rightarrow> bool" where
  "quiet s \<longleftrightarrow>
     PendingMafiaTarget s = None \<and> PendingDoctorTarget s = None \<and> PendingPoliceTarget s = None \<and>
     \<not> PoliceCheckedThisNight s \<and> NightStep s = NightStepNone"

text \<open>
  A vote that is still open: every ballot is by a living player for a living player or blank,
  and somebody has not voted yet.
\<close>

definition open_round :: "state \<Rightarrow> bool" where
  "open_round s \<longleftrightarrow>
     keys (Votes s) \<subseteq> alive_ids s \<and> snd ` set (Votes s) \<subseteq> insert '''' (alive_ids s) \<and>
     length (Votes s) < LiveCount s"

definition night_ok :: "state \<Rightarrow> bool" where
  "night_ok s \<longleftrightarrow>
     NightStep s \<in> {NightStepIntro, NightStepMafia, NightStepPolice, NightStepDoctor} \<and>
     (\<forall>t. PendingMafiaTarget s = Some t \<longrightarrow>
        (\<exists>p\<in>set (Players s). ID p = t \<and> live_citizen p)) \<and>
     (\<forall>t. PendingDoctorTarget s = Some t \<longrightarrow> t \<in> alive_ids s) \<and>
     (PoliceCheckedThisNight s \<longleftrightarrow> PendingPoliceTarget s \<noteq> None)"

definition phase_ok :: "state \<Rightarrow> bool" where
  "phase_ok s \<longleftrightarrow>
     (case Phase s of
        PhaseIntro \<Rightarrow> quiet s \<and> Votes s = [] \<and> PoliceHistory s = [] \<and> Day s = 1 \<and>
          PendingGameEnd s = None \<and> alive_ids s = player_ids s
      | PhaseDay \<Rightarrow> quiet s \<and> Votes s = []
      | PhaseVote \<Rightarrow> quiet s \<and> VoteRound s = 1 \<and> (PendingGameEnd s = None \<longrightarrow> open_round s)
      | PhaseRecount \<Rightarrow> quiet s \<and> VoteRound s = 2 \<and> distinct (VoteCandidates s) \<and>
          2 \<le> length (VoteCandidates s) \<and> set (VoteCandidates s) \<subseteq> player_ids s \<and>
          (PendingGameEnd s = None \<longrightarrow> open_round s \<and> set (VoteCandidates s) \<subseteq> alive_ids s)
      | PhaseNight \<Rightarrow> night_ok s \<and> Votes s = []
      | PhaseEnd \<Rightarrow> True
      | _ \<Rightarrow> False)"

definition core :: "state \<Rightarrow> bool" where
  "core s \<longleftrightarrow> wf_players s \<and> rep_ok s \<and> ballots_ok s \<and> police_ok s"

definition game_inv :: "state \<Rightarrow> bool" where
  "game_inv s \<longleftrightarrow> core s \<and> outcome_ok s \<and> phase_ok s"

lemmas core_parts = core_def wf_players_def rep_ok_def ballots_ok_def police_ok_def

lemmas player_counts =
  LiveCount_def LiveMafiaCount_def LiveCitizenSideCount_def LivingMafiaIDs_def

text \<open>Which fields the parts depend on.\<close>

lemma core_same:
  assumes "core s" "Players t = Players s" "IntroSpeakerIdx t = IntroSpeakerIdx s"
    "MafiaRepresentativeID t = MafiaRepresentativeID s" "Votes t = Votes s" "Day t = Day s"
    "PoliceHistory t = PoliceHistory s" "PoliceCheckedThisNight t = PoliceCheckedThisNight s"
  shows "core t"
  using assms by (simp add: core_parts player_counts cong: if_cong)

lemma outcome_same:
  assumes "outcome_ok s" "Players t = Players s" "Phase t = PhaseEnd \<longleftrightarrow> Phase s = PhaseEnd"
    "Winner t = Winner s" "EndReason t = EndReason s" "PendingGameEnd t = PendingGameEnd s"
  shows "outcome_ok t"
proof -
  have "verdict_ok t = verdict_ok s" "LiveMafiaCount t = LiveMafiaCount s"
    "LiveCitizenSideCount t = LiveCitizenSideCount s"
    using assms(2) by (simp_all add: fun_eq_iff verdict_ok_def player_counts)
  with assms show ?thesis
    by (simp add: outcome_ok_def cong: if_cong option.case_cong end_reason.case_cong)
qed

text \<open>Fields that the phase clauses read besides those of \<open>core\<close>.\<close>

definition phase_view where
  "phase_view s =
     (Phase s, Players s, (PendingMafiaTarget s, PendingDoctorTarget s, PendingPoliceTarget s),
      PoliceCheckedThisNight s, NightStep s, Votes s, VoteRound s, VoteCandidates s,
      PoliceHistory s, Day s, PendingGameEnd s = None)"

lemma phase_same: "phase_ok s \<Longrightarrow> phase_view t = phase_view s \<Longrightarrow> phase_ok t"
  by (cases "Phase s")
     (simp_all add: phase_view_def phase_ok_def quiet_def open_round_def night_ok_def player_counts)

lemma inv_frameI:
  assumes "game_inv s" "core s \<Longrightarrow> core t" "outcome_ok s \<Longrightarrow> outcome_ok t" "phase_ok s \<Longrightarrow> phase_ok t"
  shows "game_inv t"
  using assms by (simp add: game_inv_def)

section \<open>A result that keeps the invariant and does not panic\<close>

definition safe :: "result \<Rightarrow> bool" where
  "safe r \<longleftrightarrow> game_inv (est (res_engine r)) \<and> res_out r \<noteq> Inl GoPanic"

lemma safe_simps [simp]:
  "safe (ok e evs) \<longleftrightarrow> game_inv (est e)"
  "safe (fail e err) \<longleftrightarrow> game_inv (est e) \<and> err \<noteq> GoPanic"
  by (simp_all add: safe_def)

lemma safe_guard [simp]:
  "safe (guard g (fail e) b) \<longleftrightarrow>
     (g = None \<longrightarrow> safe b) \<and> (g \<noteq> None \<longrightarrow> game_inv (est e) \<and> g \<noteq> Some GoPanic)"
  by (cases g) auto

lemma errf_not_panic [simp]: "errf c \<noteq> GoPanic"
  by (simp add: errf_def)

lemma FindPlayer_alive: "FindPlayer s k = Some p \<Longrightarrow> Alive p \<Longrightarrow> k \<in> alive_ids s"
  by (auto dest: FindPlayer_Some)

lemma inv_mafia_target:
  assumes "game_inv s" "Phase s = PhaseNight" "FindPlayer s t = Some p" "Alive p" "Role p \<noteq> RoleMafia"
  shows "game_inv (s\<lparr>PendingMafiaTarget := Some t\<rparr>)"
  using assms(1)
proof (rule inv_frameI)
  assume "phase_ok s"
  with assms FindPlayer_Some [OF assms(3)] show "phase_ok (s\<lparr>PendingMafiaTarget := Some t\<rparr>)"
    by (auto simp: phase_ok_def night_ok_def)
qed (erule core_same outcome_same; simp)+


lemma inv_doctor_target:
  assumes "game_inv s" "Phase s = PhaseNight" "t \<in> alive_ids s"
  shows "game_inv (s\<lparr>PendingDoctorTarget := Some t\<rparr>)"
  using assms(1)
proof (rule inv_frameI)
  assume "phase_ok s"
  with assms show "phase_ok (s\<lparr>PendingDoctorTarget := Some t\<rparr>)"
    by (auto simp: phase_ok_def night_ok_def)
qed (erule core_same outcome_same; simp)+

lemma inv_police_check:
  assumes "game_inv s" "Phase s = PhaseNight" "FindPlayer s t = Some p" "\<not> PoliceCheckedThisNight s"
  shows "game_inv (s\<lparr>PendingPoliceTarget := Some t, PoliceCheckedThisNight := True,
    PoliceHistory := PoliceHistory s @ [\<lparr>pcDay = Day s, pcTarget = t, pcTeam = TeamOf (Role p)\<rparr>]\<rparr>)"
    (is "game_inv ?t")
  using assms(1)
proof (rule inv_frameI)
  assume c: "core s"
  then have "police_ok ?t"
    using assms(4) FindPlayer_Some [OF assms(3)]
    by (auto simp: core_def police_ok_def sorted_wrt_append less_le)
  with c show "core ?t"
    by (simp add: core_def wf_players_def rep_ok_def ballots_ok_def player_counts cong: if_cong)
next
  assume "phase_ok s"
  with assms show "phase_ok ?t"
    by (auto simp: phase_ok_def night_ok_def)
qed (erule outcome_same; simp)

text \<open>Updates of timers, settings and pause marks are invisible to the invariant.\<close>

definition verdict_view where
  "verdict_view s = map_option (\<lambda>g. (geReason g, geWinner g)) (PendingGameEnd s)"

lemma inv_same:
  assumes "game_inv s" "phase_view t = phase_view s" "IntroSpeakerIdx t = IntroSpeakerIdx s"
    "MafiaRepresentativeID t = MafiaRepresentativeID s" "Winner t = Winner s"
    "EndReason t = EndReason s" "verdict_view t = verdict_view s"
  shows "game_inv t"
  using assms(1)
proof (rule inv_frameI)
  assume "core s"
  then show "core t" by (rule core_same) (use assms in \<open>simp_all add: phase_view_def\<close>)
next
  assume o: "outcome_ok s"
  have "verdict_ok t = verdict_ok s" "LiveMafiaCount t = LiveMafiaCount s"
    "LiveCitizenSideCount t = LiveCitizenSideCount s" "Phase t = Phase s"
    using assms(2) by (simp_all add: phase_view_def fun_eq_iff verdict_ok_def player_counts)
  with o assms(5-7) show "outcome_ok t"
    by (cases "PendingGameEnd s"; cases "PendingGameEnd t")
       (simp_all add: outcome_ok_def verdict_view_def cong: if_cong option.case_cong end_reason.case_cong)
qed (rule phase_same [OF _ assms(2)])

lemma safe_mafia_kill: "game_inv (est e) \<Longrightarrow> safe (handleMafiaKill m t e)"
  by (auto simp: handleMafiaKill_def Let_def ensureRole_None ensureAlive_None intro: inv_mafia_target
      split: option.split)

lemma safe_doctor_heal: "game_inv (est e) \<Longrightarrow> safe (handleDoctorHeal d t e)"
  by (auto simp: handleDoctorHeal_def Let_def ensureRole_None ensureAlive_None
      simp del: ensureAlive.simps intro!: inv_doctor_target intro: FindPlayer_alive)

lemma FindPlayer_police:
  "FindPlayer (s\<lparr>PendingPoliceTarget := x, PoliceCheckedThisNight := c\<rparr>) = FindPlayer s"
  by (rule FindPlayer_Players_cong) simp

lemma safe_police_check: "game_inv (est e) \<Longrightarrow> safe (handlePoliceCheck q t e)"
  by (auto simp: handlePoliceCheck_def Let_def ensureRole_None ensureAlive_None FindPlayer_police
      simp del: ensureAlive.simps intro: inv_police_check split: option.split)

section \<open>Lifecycle handlers\<close>

lemma safe_toggle_voice: "game_inv (est e) \<Longrightarrow> safe (handleToggleVoice h on e)"
  by (auto simp: handleToggleVoice_def phase_view_def verdict_view_def intro: inv_same)

lemma safe_pause: "game_inv (est e) \<Longrightarrow> safe (handlePauseGame h e)"
  by (auto simp: handlePauseGame_def Let_def Now_def phase_view_def verdict_view_def intro: inv_same)

lemma shift_phase_timer_fields [simp]:
  "phase_view (shift_phase_timer d s) = phase_view s"
  "IntroSpeakerIdx (shift_phase_timer d s) = IntroSpeakerIdx s"
  "MafiaRepresentativeID (shift_phase_timer d s) = MafiaRepresentativeID s"
  "Winner (shift_phase_timer d s) = Winner s" "EndReason (shift_phase_timer d s) = EndReason s"
  "PendingGameEnd (shift_phase_timer d s) = PendingGameEnd s"
  by (simp_all add: shift_phase_timer_def phase_view_def split: phase.split)

lemma inv_shift_phase_timer: "game_inv s \<Longrightarrow> game_inv (shift_phase_timer d s)"
  by (erule inv_same) (simp_all add: verdict_view_def)

lemma inv_shift_pending_end: "game_inv s \<Longrightarrow> game_inv (shift_pending_end d s)"
  by (erule inv_same)
     (simp_all add: verdict_view_def phase_view_def shift_pending_end_def option.map_comp comp_def)

lemma inv_resumed:
  "game_inv s \<Longrightarrow> game_inv (s\<lparr>Paused := b, PausedAt := t, LastTickAt := u\<rparr>)"
  by (erule inv_same) (simp_all add: verdict_view_def phase_view_def)

lemma safe_resume: "game_inv (est e) \<Longrightarrow> safe (handleResumeGame h e)"
  by (simp add: handleResumeGame_def Let_def Now_def inv_resumed inv_shift_pending_end inv_shift_phase_timer)

lemma inv_force_end:
  assumes "game_inv s"
  shows "game_inv (s\<lparr>PendingGameEnd := None, Phase := PhaseEnd,
    EndReason := Some EndHostForceEnd, Winner := None\<rparr>)"
  using assms by (rule inv_frameI)
    (erule core_same, simp_all add: outcome_ok_def phase_ok_def)

lemma safe_force_end: "game_inv (est e) \<Longrightarrow> safe (handleForceEnd h e)"
  by (simp add: handleForceEnd_def inv_force_end)

lemma inv_intro_to_day:
  assumes "game_inv s" "Phase s = PhaseIntro"
  shows "game_inv (s\<lparr>Phase := PhaseDay, Deadline := d, PendingMafiaTarget := None,
    PendingDoctorTarget := None, PendingPoliceTarget := None, PoliceCheckedThisNight := False,
    NightStep := NightStepNone, LastTickAt := now\<rparr>)" (is "game_inv ?t")
  using assms(1)
proof (rule inv_frameI)
  have q: "\<not> PoliceCheckedThisNight s"
    using assms by (simp add: game_inv_def phase_ok_def quiet_def)
  show "core s \<Longrightarrow> core ?t" by (erule core_same) (simp_all add: q)
  show "outcome_ok s \<Longrightarrow> outcome_ok ?t" by (erule outcome_same) (simp_all add: assms)
  show "phase_ok s \<Longrightarrow> phase_ok ?t" using assms(2) by (simp add: phase_ok_def quiet_def)
qed

lemma safe_intro_to_day:
  "game_inv (est e) \<Longrightarrow> Phase (est e) = PhaseIntro \<Longrightarrow> safe (transitionIntroToDay now e)"
  by (simp add: transitionIntroToDay_def Let_def inv_intro_to_day)

lemma inv_next_speaker:
  assumes "game_inv s" "IntroSpeakerIdx s < int (length (Players s)) - 1"
  shows "game_inv (s\<lparr>IntroSpeakerIdx := IntroSpeakerIdx s + 1, IntroSpeakerStartedAt := now\<rparr>)"
    (is "game_inv ?t")
  using assms(1)
proof (rule inv_frameI)
  show "core s \<Longrightarrow> core ?t"
    using assms(2) by (simp add: core_parts player_counts cong: if_cong)
  show "outcome_ok s \<Longrightarrow> outcome_ok ?t" by (erule outcome_same) simp_all
  show "phase_ok s \<Longrightarrow> phase_ok ?t" by (erule phase_same) (simp add: phase_view_def)
qed

lemma inv_speaker_bounds:
  "game_inv s \<Longrightarrow> 0 \<le> IntroSpeakerIdx s \<and> IntroSpeakerIdx s < int (length (Players s))"
  by (simp add: game_inv_def core_def wf_players_def)

lemma safe_advanceSpeaker:
  assumes "game_inv (est e)" "Phase (est e) = PhaseIntro"
  shows "safe (advanceSpeaker e)"
  using assms inv_speaker_bounds [OF assms(1)]
  by (simp add: advanceSpeaker_def Let_def Now_def player_at_def safe_intro_to_day inv_next_speaker)

lemma safe_end_self_intro: "game_inv (est e) \<Longrightarrow> safe (handleEndSelfIntro p e)"
  by (simp add: handleEndSelfIntro_def Let_def safe_advanceSpeaker split: option.split)

lemma safe_advance_intro: "game_inv (est e) \<Longrightarrow> safe (handleAdvanceIntro h e)"
  by (simp add: handleAdvanceIntro_def Let_def safe_advanceSpeaker)

lemma inv_phase_started: "game_inv s \<Longrightarrow> Phase s \<noteq> PhaseNone \<and> Phase s \<noteq> PhaseLobby"
  by (auto simp: game_inv_def phase_ok_def)

lemma safe_start_game: "game_inv (est e) \<Longrightarrow> safe (handleStartGame lib h opts e)"
  by (simp add: handleStartGame_def inv_phase_started)

section \<open>Day, vote and deaths\<close>

lemma inv_day_to_vote:
  assumes "game_inv s" "Phase s = PhaseDay"
  shows "game_inv (s\<lparr>Phase := PhaseVote, Deadline := zero_time, Votes := [], VoteRound := 1,
    VoteCandidates := [], LastTickAt := now\<rparr>)" (is "game_inv ?t")
  using assms(1)
proof (rule inv_frameI)
  have v: "Votes s = []" using assms by (simp add: game_inv_def phase_ok_def)
  show "core s \<Longrightarrow> core ?t" by (erule core_same) (simp_all add: v)
  show "outcome_ok s \<Longrightarrow> outcome_ok ?t" by (erule outcome_same) (simp_all add: assms)
  have "PendingGameEnd s = None \<Longrightarrow> 0 < LiveCount ?t"
    using assms LiveCount_split [of s] by (simp add: game_inv_def outcome_ok_def LiveCount_def)
  then show "phase_ok s \<Longrightarrow> phase_ok ?t"
    using assms(2) by (simp add: phase_ok_def quiet_def open_round_def)
qed

lemma safe_end_discussion: "game_inv (est e) \<Longrightarrow> safe (handleEndDiscussionEarly h e)"
  by (simp add: handleEndDiscussionEarly_def transitionDayToVote_def Let_def Now_def inv_day_to_vote)

text \<open>
  Dying, as the vote and the night resolution do it: the player is marked dead and a dead
  representative is replaced.
\<close>

definition die :: "'r rand_lib \<Rightarrow> player_id \<Rightarrow> engine \<Rightarrow> engine \<times> envelope list" where
  "die lib k e =
     (let e = upd (kill k) e in
      if k = MafiaRepresentativeID (est e) then reassignMafiaRepresentative lib k e else (e, []))"

lemma applyElimination_die:
  "applyElimination lib k e =
     (case FindPlayer (est e) k of
        None \<Rightarrow> (e, [])
      | Some p \<Rightarrow> let (e, evs) = die lib k e in afterElimination (pub (Eliminated k (Role p)) # evs) e)"
  by (simp add: applyElimination_def die_def Let_def split_beta split: option.split)

lemma resolveNight_die:
  "resolveNight lib e =
     (case night_victim (est e) of
        None \<Rightarrow> startDay (eclock e 0) [pub PeacefulNight] (next_clock e)
      | Some k \<Rightarrow>
          (case FindPlayer (est e) k of
             None \<Rightarrow> (next_clock e, Inl (errf CodeUnknownPlayer))
           | Some p \<Rightarrow>
               let (e', evs) = die lib k (next_clock e)
               in startDay (eclock e 0) (pub (DeathAnnounced k) # evs) e'))"
  by (simp add: resolveNight_def die_def Let_def Now_def split_beta split: option.split)

lemma die_est:
  "est (fst (die lib k e)) =
     (kill k (est e))\<lparr>MafiaRepresentativeID := MafiaRepresentativeID (est (fst (die lib k e)))\<rparr>"
  using reassign_frame(1) [of lib k "upd (kill k) e"]
  by (auto simp: die_def Let_def prod_eq_iff)

lemma kill_ids_set [simp]: "player_ids (kill k s) = player_ids s"
  by (metis kill_ids list.set_map)

lemma set_kill:
  "distinct (map ID (Players s)) \<Longrightarrow>
   set (Players (kill k s)) = (\<lambda>p. if ID p = k then p\<lparr>Alive := False\<rparr> else p) ` set (Players s)"
  by (simp add: kill_Players)

lemma kill_living:
  "distinct (map ID (Players s)) \<Longrightarrow>
   {p \<in> set (Players (kill k s)). Alive p} = {p \<in> set (Players s). Alive p \<and> ID p \<noteq> k}"
  by (auto simp: set_kill image_iff split: if_splits)

lemma kill_alive_ids: "distinct (map ID (Players s)) \<Longrightarrow> alive_ids (kill k s) = alive_ids s - {k}"
  unfolding kill_living by blast

lemma kill_same_identity:
  "p \<in> set (Players s) \<Longrightarrow> \<exists>q\<in>set (Players (kill k s)). identity q = identity p"
  using kill_identity [of k s] by (metis (no_types, lifting) image_iff list.set_map)

lemma kill_rep:
  assumes "distinct (map ID (Players s))" "MafiaRepresentativeID s \<noteq> k" "rep_ok s"
  shows "rep_ok (kill k s)"
proof (cases "LiveMafiaCount s = 0")
  case True
  with kill_counts(1) [of k s] assms show ?thesis by (simp add: rep_ok_def)
next
  case False
  with assms obtain q where q: "q \<in> set (Players s)" "live_mafia q" "ID q = MafiaRepresentativeID s"
    by (auto simp: rep_ok_def set_LivingMafiaIDs)
  with assms(1,2) have "q \<in> set (Players (kill k s))"
    by (force simp: set_kill)
  with q have "MafiaRepresentativeID s \<in> set (LivingMafiaIDs (kill k s))"
    by (auto simp: set_LivingMafiaIDs image_iff)
  then show ?thesis
    using LivingMafiaIDs_empty [of "kill k s"] by (auto simp: rep_ok_def)
qed

lemma die_rep:
  assumes "distinct (map ID (Players (est e)))" "rep_ok (est e)" "rand_ok lib"
  shows "rep_ok (est (fst (die lib k e)))"
proof (cases "MafiaRepresentativeID (est e) = k")
  case True
  obtain e' evs where r: "reassignMafiaRepresentative lib k (upd (kill k) e) = (e', evs)" by fastforce
  from reassign_frame(1) [OF r] have "Players (est e') = Players (kill k (est e))"
    by (metis reassign_Players r fst_conv upd_simps(1))
  with reassign_rep [OF r assms(3)] have "rep_ok (est e')"
    by (auto simp: rep_ok_def player_counts split: if_splits)
  with True show ?thesis by (simp add: die_def Let_def r)
next
  case False
  then show ?thesis using kill_rep [OF assms(1) _ assms(2)] by (auto simp: die_def Let_def)
qed

lemma police_ok_kill:
  assumes "police_ok s"
  shows "police_ok (kill k s)"
proof -
  have "\<exists>q\<in>set (Players (kill k s)). ID q = t \<and> v = TeamOf (Role q)"
    if "\<exists>p\<in>set (Players s). ID p = t \<and> v = TeamOf (Role p)" for t v
    using that kill_same_identity [of _ s k] by (fastforce simp: identity_def)
  with assms show ?thesis by (simp add: police_ok_def)
qed

lemma die_core:
  assumes "core (est e)" "rand_ok lib"
  shows "core (est (fst (die lib k e)))"
proof -
  let ?s = "est e" and ?t = "est (fst (die lib k e))"
  have "distinct (map ID (Players ?s))" using assms(1) by (simp add: core_parts)
  then have "rep_ok ?t" using die_rep [of e lib k] assms by (simp add: core_def)
  moreover have "police_ok (kill k ?s)" "wf_players (kill k ?s)" "ballots_ok (kill k ?s)"
    using assms(1) police_ok_kill [of ?s k] by (simp_all add: core_def wf_players_def ballots_ok_def)
  moreover obtain r where "?t = (kill k ?s)\<lparr>MafiaRepresentativeID := r\<rparr>"
    using die_est by blast
  ultimately show ?thesis
    by (simp add: core_def wf_players_def police_ok_def ballots_ok_def)
qed

text \<open>
  A game that is not over, before the end check: no outcome is recorded, and a scheduled one
  still fits. The end check then restores the clause on the outcome.
\<close>

definition unsettled :: "state \<Rightarrow> bool" where
  "unsettled s \<longleftrightarrow>
     Phase s \<noteq> PhaseEnd \<and> Winner s = None \<and> EndReason s = None \<and>
     (\<forall>g. PendingGameEnd s = Some g \<longrightarrow> verdict_ok s (geReason g) (geWinner g))"

lemma outcome_unsettled: "outcome_ok s \<Longrightarrow> Phase s \<noteq> PhaseEnd \<Longrightarrow> unsettled s"
  by (auto simp: outcome_ok_def unsettled_def)

lemma verdict_ok_mono: "verdict_ok s r w \<Longrightarrow> LiveMafiaCount t \<le> LiveMafiaCount s \<Longrightarrow> verdict_ok t r w"
  by (auto simp: verdict_ok_def)

lemma unsettled_mono:
  "unsettled s \<Longrightarrow> LiveMafiaCount t \<le> LiveMafiaCount s \<Longrightarrow> Phase t \<noteq> PhaseEnd \<Longrightarrow>
   Winner t = Winner s \<Longrightarrow> EndReason t = EndReason s \<Longrightarrow> PendingGameEnd t = PendingGameEnd s \<Longrightarrow>
   unsettled t"
  by (auto simp: unsettled_def intro: verdict_ok_mono)

lemma unsettled_die:
  assumes "unsettled (est e)"
  shows "unsettled (est (fst (die lib k e)))"
proof -
  obtain r where t: "est (fst (die lib k e)) = (kill k (est e))\<lparr>MafiaRepresentativeID := r\<rparr>"
    using die_est by blast
  from assms show ?thesis
    unfolding t by (rule unsettled_mono)
      (use assms kill_counts(1) [of k "est e"] in \<open>simp_all add: unsettled_def LiveMafiaCount_def\<close>)
qed


lemma settle_None:
  "unsettled s \<Longrightarrow> evaluateEnd s = None \<Longrightarrow> outcome_ok s"
  by (auto simp: unsettled_def outcome_ok_def evaluateEnd_None split: option.split)

lemma settle_Some:
  assumes "unsettled (est e)" "evaluateEnd (est e) = Some (r, w)"
  shows "outcome_ok (est (scheduleGameEnd r w e))" "PendingGameEnd (est (scheduleGameEnd r w e)) \<noteq> None"
  using assms
  by (auto simp: scheduleGameEnd_est unsettled_def outcome_ok_def verdict_ok_def evaluateEnd_def
      player_counts split: option.split if_splits)


section \<open>The vote\<close>

definition voting :: "state \<Rightarrow> bool" where
  "voting s \<longleftrightarrow> quiet s \<and>
     (Phase s = PhaseVote \<and> VoteRound s = 1 \<or>
      Phase s = PhaseRecount \<and> VoteRound s = 2 \<and> distinct (VoteCandidates s) \<and>
        2 \<le> length (VoteCandidates s) \<and> set (VoteCandidates s) \<subseteq> player_ids s)"

lemma phase_ok_voting:
  assumes "Phase s = PhaseVote \<or> Phase s = PhaseRecount"
  shows "phase_ok s \<longleftrightarrow> voting s \<and> (PendingGameEnd s = None \<longrightarrow>
     open_round s \<and> (Phase s = PhaseRecount \<longrightarrow> set (VoteCandidates s) \<subseteq> alive_ids s))"
  using assms by (auto simp: phase_ok_def voting_def)

lemma inv_enter_night:
  assumes "core (est e)" "outcome_ok (est e)" "Phase (est e) \<noteq> PhaseEnd" "\<not> PoliceCheckedThisNight (est e)"
  shows "game_inv (est (fst (enterNight e)))"
proof -
  have "core (est (fst (enterNight e)))"
    using assms(1,4) by (simp add: enterNight_est core_parts player_counts cong: if_cong)
  moreover have "outcome_ok (est (fst (enterNight e)))"
    using assms(2) by (rule outcome_same) (simp_all add: enterNight_est assms)
  ultimately show ?thesis
    by (simp add: game_inv_def phase_ok_def night_ok_def enterNight_est)
qed

lemma inv_after_elimination:
  assumes "core (est e)" "unsettled (est e)" "voting (est e)"
  shows "game_inv (est (fst (afterElimination evs e)))"
proof (cases "evaluateEnd (est e)")
  case None
  with assms show ?thesis
    by (auto simp: afterElimination_def transitionVoteToNight_def split_beta Let_def voting_def quiet_def
        intro!: inv_enter_night settle_None)
next
  case (Some rw)
  obtain r w where rw: "rw = (r, w)" by fastforce
  let ?t = "est (scheduleGameEnd r w e)"
  have t: "?t = (est e)\<lparr>PendingGameEnd := PendingGameEnd ?t\<rparr>"
    by (simp add: scheduleGameEnd_est split: option.split)
  have "core ?t" using assms(1) by (rule core_same) (subst t, simp)+
  moreover have "voting ?t" using assms(3) by (subst t) (simp add: voting_def quiet_def)
  ultimately have "game_inv ?t"
    using settle_Some [OF assms(2) Some [unfolded rw]] phase_ok_voting [of ?t]
    by (auto simp: game_inv_def voting_def)
  with Some rw show ?thesis by (simp add: afterElimination_def)
qed

lemma voting_die: "voting (est e) \<Longrightarrow> voting (est (fst (die lib k e)))"
proof -
  obtain r where "est (fst (die lib k e)) = (kill k (est e))\<lparr>MafiaRepresentativeID := r\<rparr>"
    using die_est by blast
  moreover assume "voting (est e)"
  ultimately show ?thesis by (simp add: voting_def quiet_def)
qed

lemma inv_apply_elimination:
  assumes "core (est e)" "unsettled (est e)" "voting (est e)" "k \<in> player_ids (est e)" "rand_ok lib"
  shows "game_inv (est (fst (applyElimination lib k e)))"
proof -
  obtain p where "FindPlayer (est e) k = Some p"
    using assms(4) FindPlayer_None by fastforce
  then show ?thesis
    using assms by (simp add: applyElimination_die split_beta Let_def inv_after_elimination die_core
        unsettled_die voting_die)
qed

lemma inv_open_recount:
  assumes "core s" "outcome_ok s" "voting s" "distinct F" "2 \<le> length F" "set F \<subseteq> player_ids s"
    "PendingGameEnd s = None \<Longrightarrow> set F \<subseteq> alive_ids s"
  shows "game_inv (s\<lparr>Phase := PhaseRecount, VoteRound := 2, VoteCandidates := F, Votes := []\<rparr>)"
    (is "game_inv ?t")
proof -
  have "core ?t" using assms(1) by (simp add: core_parts player_counts cong: if_cong)
  moreover have "outcome_ok ?t"
    using assms(2) by (rule outcome_same) (use assms(3) in \<open>auto simp: voting_def\<close>)
  moreover have "PendingGameEnd s = None \<Longrightarrow> 0 < LiveCount ?t"
    using assms(2,3) LiveCount_split [of s] by (auto simp: outcome_ok_def voting_def LiveCount_def)
  ultimately show ?thesis
    using assms by (auto simp: game_inv_def phase_ok_def open_round_def voting_def quiet_def)
qed

lemma front_voted: "x \<in> set (front s) \<Longrightarrow> x \<in> snd ` set (Votes s) \<and> x \<noteq> ''''"
proof -
  assume "x \<in> set (front s)"
  then have "0 < ballots_for (Votes s) x" by (simp add: front_runners_iff)
  then show ?thesis by (force simp: ballots_for_def filter_empty_conv split: if_splits)
qed

lemma inv_tally:
  assumes "core (est e)" "outcome_ok (est e)" "voting (est e)" "rand_ok lib"
    "PendingGameEnd (est e) = None \<Longrightarrow> snd ` set (Votes (est e)) \<subseteq> insert '''' (alive_ids (est e))"
  shows "game_inv (est (fst (tally lib e)))"
proof -
  let ?s = "est e" and ?F = "front (est e)"
  have ne: "Phase ?s \<noteq> PhaseEnd" "\<not> PoliceCheckedThisNight ?s"
    using assms(3) by (auto simp: voting_def quiet_def)
  have F: "distinct ?F" "set ?F \<subseteq> player_ids ?s" "PendingGameEnd ?s = None \<Longrightarrow> set ?F \<subseteq> alive_ids ?s"
  proof -
    show "distinct ?F" using assms(1) by (simp add: core_parts front_runners_distinct)
    show "set ?F \<subseteq> player_ids ?s" by (rule front_runners_subset)
    show "PendingGameEnd ?s = None \<Longrightarrow> set ?F \<subseteq> alive_ids ?s" using front_voted [of _ ?s] assms(5) by blast
  qed
  consider "length ?F = 1" | "2 \<le> length ?F" "VoteRound ?s = 1" | "?F = [] \<or> VoteRound ?s \<noteq> 1" "length ?F \<noteq> 1"
    by (cases ?F; cases "tl ?F") auto
  then show ?thesis
  proof cases
    case 1
    then have "?F ! 0 \<in> player_ids ?s" using F(2) by (metis nth_mem subsetD zero_less_one)
    with 1 assms ne show ?thesis
      by (simp add: tally_cases Let_def split_beta inv_apply_elimination outcome_unsettled)
  next
    case 2
    with F assms show ?thesis by (auto simp: tally_cases Let_def intro!: inv_open_recount)
  next
    case 3
    with assms ne show ?thesis by (auto simp: tally_cases Let_def split_beta inv_enter_night)
  qed
qed

lemma snd_update: "snd ` set (AList.update k v m) \<subseteq> insert v (snd ` set m)"
  by (induction m) auto

lemma ballots_grow:
  assumes "keys m \<subseteq> V" "snd ` set m \<subseteq> T" "v \<in> V" "t \<in> T"
  shows "keys (AList.update v t m) \<subseteq> V \<and> snd ` set (AList.update v t m) \<subseteq> T"
proof
  show "keys (AList.update v t m) \<subseteq> V" using assms(1,3) by simp
  have "insert t (snd ` set m) \<subseteq> T" using assms(2,4) by simp
  then show "snd ` set (AList.update v t m) \<subseteq> T" using snd_update by (rule subset_trans [rotated])
qed

lemma vote_check_None:
  "vote_check s v t = None \<Longrightarrow>
     v \<in> alive_ids s \<and> (t = '''' \<or> t \<in> alive_ids s \<and> (Phase s = PhaseRecount \<longrightarrow> t \<in> set (VoteCandidates s)))"
  by (auto simp: vote_check_def ensureAlive_None simp del: ensureAlive.simps
      intro: FindPlayer_alive split: if_splits option.splits)

lemma alive_ids_subset: "alive_ids s \<subseteq> player_ids s"
  by blast

text \<open>The state with one more ballot, before the count is checked.\<close>

lemma ballot_added:
  assumes "game_inv s" "Phase s = PhaseVote \<or> Phase s = PhaseRecount" "vote_check s v t = None"
  defines "s' \<equiv> s\<lparr>Votes := AList.update v t (Votes s)\<rparr>"
  shows "core s'" "outcome_ok s'" "voting s'"
    "PendingGameEnd s' = None \<Longrightarrow>
       keys (Votes s') \<subseteq> alive_ids s' \<and> snd ` set (Votes s') \<subseteq> insert '''' (alive_ids s')"
proof -
  have v: "v \<in> alive_ids s" and t: "t \<in> insert '''' (alive_ids s)"
    using vote_check_None [OF assms(3)] by auto
  have V: "v \<in> player_ids s" and T: "t \<in> insert '''' (player_ids s)"
    using v t by auto
  have "ballots_ok s" using assms(1) by (simp add: game_inv_def core_def)
  then have "ballots_ok s'"
    using ballots_grow [OF _ _ V T, of "Votes s"] by (simp add: s'_def ballots_ok_def am.ok_put)
  then show "core s'"
    using assms(1) by (simp add: s'_def game_inv_def core_def wf_players_def rep_ok_def police_ok_def
        player_counts cong: if_cong)
  have "outcome_ok s" using assms(1) by (simp add: game_inv_def)
  then show "outcome_ok s'" by (rule outcome_same) (simp_all add: s'_def)
  have ph: "voting s \<and> (PendingGameEnd s = None \<longrightarrow> open_round s)"
    using assms(1) phase_ok_voting [OF assms(2)] by (simp add: game_inv_def)
  then show "voting s'" by (simp add: s'_def voting_def quiet_def)
  assume "PendingGameEnd s' = None"
  then have "open_round s" using ph by (simp add: s'_def)
  then show "keys (Votes s') \<subseteq> alive_ids s' \<and> snd ` set (Votes s') \<subseteq> insert '''' (alive_ids s')"
    using ballots_grow [OF _ _ v t, of "Votes s"] by (simp add: s'_def open_round_def)
qed

lemma safe_vote:
  assumes "game_inv (est e)" "rand_ok lib"
  shows "safe (handleVote lib v t e)"
proof (cases "(Phase (est e) = PhaseVote \<or> Phase (est e) = PhaseRecount) \<and> vote_check (est e) v t = None")
  case False
  with assms show ?thesis
    by (auto simp: handleVote_def Let_def vote_check_def split: if_splits option.splits)
next
  case True
  let ?e = "upd (\<lambda>s. s\<lparr>Votes := AList.update v t (Votes s)\<rparr>) e"
  note b = ballot_added [OF assms(1) conjunct1 [OF True] conjunct2 [OF True]]
  have "length (Votes (est ?e)) < LiveCount (est ?e) \<Longrightarrow> game_inv (est ?e)"
    using b True phase_ok_voting [of "est ?e"] assms(1) phase_ok_voting [of "est e"]
    by (auto simp: game_inv_def open_round_def)
  moreover have "game_inv (est (fst (tally lib ?e)))"
    by (rule inv_tally) (use b assms(2) in simp_all)
  ultimately show ?thesis
    using True by (simp add: handleVote_def Let_def split_beta not_le)
qed

section \<open>The night\<close>

definition day_state :: "time \<Rightarrow> state \<Rightarrow> state" where
  "day_state now s =
     s\<lparr>PendingMafiaTarget := None, PendingDoctorTarget := None, PendingPoliceTarget := None,
       PoliceCheckedThisNight := False, NightStep := NightStepNone, NightStepDeadline := zero_time,
       Day := Day s + 1, Phase := PhaseDay,
       Deadline := now + seconds (wrap64 (defaultDayIntroSeconds + DiscussionSeconds (Settings s))),
       LastTickAt := now\<rparr>"

lemma startDay_eq:
  "startDay now evs e =
     (let e = upd (day_state now) e in
      (case evaluateEnd (est e) of Some (r, w) \<Rightarrow> scheduleGameEnd r w e | None \<Rightarrow> e,
       Inr (pub (PhaseChanged PhaseDay (Day (est e)) (Deadline (est e))) # evs)))"
  by (simp add: startDay_def day_state_def upd_def Let_def split: option.split)

lemma police_ok_next_day:
  "police_ok s \<Longrightarrow> police_ok (s\<lparr>Day := Day s + 1, PoliceCheckedThisNight := c\<rparr>)"
  by (auto simp: police_ok_def)

lemma inv_start_day:
  assumes "core (est e)" "unsettled (est e)" "Votes (est e) = []"
  shows "game_inv (est (fst (startDay now evs e)))"
proof -
  let ?e = "upd (day_state now) e"
  have core: "core (est ?e)"
    using assms(1) police_ok_next_day [of "est e" False]
    by (simp add: core_def wf_players_def rep_ok_def ballots_ok_def police_ok_def day_state_def
        player_counts cong: if_cong)
  have uns: "unsettled (est ?e)"
    using assms(2) by (rule unsettled_mono) (simp_all add: day_state_def LiveMafiaCount_def)
  have ph: "phase_ok (est ?e)"
    using assms(3) by (simp add: phase_ok_def quiet_def day_state_def)
  show ?thesis
  proof (cases "evaluateEnd (est ?e)")
    case None
    with core uns ph settle_None show ?thesis by (simp add: startDay_eq game_inv_def Let_def)
  next
    case (Some rw)
    obtain r w where rw: "rw = (r, w)" by fastforce
    let ?t = "est (scheduleGameEnd r w ?e)"
    have t: "?t = (est ?e)\<lparr>PendingGameEnd := PendingGameEnd ?t\<rparr>"
      by (simp add: scheduleGameEnd_est split: option.split)
    have "core ?t" using core by (rule core_same) (subst t, simp)+
    moreover have "phase_ok ?t" using ph by (subst t) (simp add: phase_ok_def quiet_def day_state_def)
    ultimately show ?thesis
      using settle_Some [OF uns Some [unfolded rw]] Some rw by (simp add: startDay_eq game_inv_def Let_def)
  qed
qed

lemma inv_resolve_night:
  assumes "core (est e)" "unsettled (est e)" "Votes (est e) = []" "rand_ok lib"
    "\<And>k. PendingMafiaTarget (est e) = Some k \<Longrightarrow> k \<in> player_ids (est e)"
  shows "game_inv (est (fst (resolveNight lib e))) \<and> (\<exists>evs. snd (resolveNight lib e) = Inr evs)"
proof (cases "night_victim (est e)")
  case None
  have "game_inv (est (fst (startDay (eclock e 0) [pub PeacefulNight] (next_clock e))))"
    by (rule inv_start_day) (use assms in simp_all)
  with None show ?thesis by (simp add: resolveNight_die startDay_eq Let_def)
next
  case (Some k)
  then have "k \<in> player_ids (est e)"
    using assms(5) by (auto simp: night_victim_def split: option.splits if_splits)
  then obtain p where p: "FindPlayer (est e) k = Some p"
    using FindPlayer_None by fastforce
  let ?d = "die lib k (next_clock e)"
  obtain r where t: "est (fst ?d) = (kill k (est (next_clock e)))\<lparr>MafiaRepresentativeID := r\<rparr>"
    using die_est by blast
  have "game_inv (est (fst (startDay now evs (fst ?d))))" for now evs
    by (rule inv_start_day, rule die_core, simp_all add: assms unsettled_die) (simp add: t assms)
  with Some p show ?thesis by (simp add: resolveNight_die startDay_eq Let_def split_beta)
qed

lemma inv_night:
  assumes "game_inv s" "Phase s = PhaseNight"
  shows "core s" "unsettled s" "Votes s = []" "NightStep s \<in> {NightStepIntro, NightStepMafia, NightStepPolice, NightStepDoctor}"
    "PendingMafiaTarget s = Some k \<Longrightarrow> k \<in> player_ids s"
  using assms outcome_unsettled [of s] by (auto simp: game_inv_def phase_ok_def night_ok_def)

lemma safe_end_night:
  assumes "game_inv (est e)" "rand_ok lib"
  shows "safe (handleEndNightEarly lib h e)"
proof (cases "Phase (est e) = PhaseNight")
  case True
  note n = inv_night [OF assms(1) True]
  obtain e' evs where "resolveNight lib e = (e', Inr evs)" "game_inv (est e')"
    using inv_resolve_night [OF n(1-3) assms(2) n(5)] by (cases "resolveNight lib e") auto
  with assms(1) show ?thesis by (simp add: handleEndNightEarly_def Let_def)
qed (use assms(1) in \<open>simp add: handleEndNightEarly_def Let_def\<close>)

lemma safe_Apply:
  assumes "game_inv (est e)" "rand_ok lib"
  shows "safe (Apply lib a e)"
  using assms
  by (cases a)
     (simp_all add: Apply_def safe_start_game safe_advance_intro safe_end_self_intro safe_mafia_kill
       safe_doctor_heal safe_police_check safe_end_night safe_end_discussion safe_vote
       safe_toggle_voice safe_force_end safe_pause safe_resume)

section \<open>Ticks\<close>

lemma inv_LastTickAt: "game_inv s \<Longrightarrow> game_inv (s\<lparr>LastTickAt := now\<rparr>)"
  by (erule inv_same) (simp_all add: verdict_view_def phase_view_def)

lemma safe_with_state [simp]:
  "safe (with_state r) \<longleftrightarrow> game_inv (est (fst r)) \<and> snd r \<noteq> Inl GoPanic"
  by (cases r; cases "snd r") (auto simp: with_state_def)

lemma inv_intro_loop:
  assumes "game_inv (est e)" "Phase (est e) = PhaseIntro"
  shows "game_inv (est (fst (intro_loop now d e evs))) \<and> snd (intro_loop now d e evs) \<noteq> Inl GoPanic"
  using assms
proof (induction now d e evs rule: intro_loop.induct)
  case (1 now d e evs)
  note b = inv_speaker_bounds [OF 1(2)]
  show ?case
  proof (cases "time_sub now (IntroSpeakerStartedAt (est e)) < d")
    case True
    with 1(2) show ?thesis by (subst intro_loop.simps, subst intro_loop.simps) (simp add: Let_def)
  next
    case False
    show ?thesis
    proof (cases "IntroSpeakerIdx (est e) \<ge> int (length (Players (est e))) - 1")
      case True
      with False 1(2,3) show ?thesis
        by (subst intro_loop.simps, subst intro_loop.simps)
           (simp add: Let_def transitionIntroToDay_def inv_intro_to_day ok_def)
    next
      case le: False
      let ?e = "upd (\<lambda>s. s\<lparr>IntroSpeakerIdx := IntroSpeakerIdx s + 1,
                       IntroSpeakerStartedAt := IntroSpeakerStartedAt s + d\<rparr>) e"
      have "game_inv (est ?e)" using 1(2) le by (simp add: inv_next_speaker)
      with b le False 1(1) [OF refl refl le False refl] 1(3) show ?thesis
        by (subst intro_loop.simps, subst intro_loop.simps) (simp add: Let_def player_at_def)
    qed
  qed
qed

lemma inv_begin_step:
  assumes "game_inv (est e)" "Phase (est e) = PhaseNight"
    "step \<in> {NightStepIntro, NightStepMafia, NightStepPolice, NightStepDoctor}"
  shows "game_inv (est (fst (beginNightStep step t e)))" (is "game_inv ?t")
  using assms(1)
proof (rule inv_frameI)
  show "core (est e) \<Longrightarrow> core ?t"
    by (erule core_same) (simp_all add: beginNightStep_def Let_def)
  show "outcome_ok (est e) \<Longrightarrow> outcome_ok ?t"
    by (erule outcome_same) (simp_all add: beginNightStep_def Let_def)
  show "phase_ok (est e) \<Longrightarrow> phase_ok ?t"
    using assms(2,3) by (simp add: phase_ok_def night_ok_def beginNightStep_def Let_def)
qed

lemma inv_clear_step:
  assumes "core s" "unsettled s"
  shows "core (s\<lparr>NightStep := NightStepNone, NightStepDeadline := zero_time\<rparr>)"
    and "unsettled (s\<lparr>NightStep := NightStepNone, NightStepDeadline := zero_time\<rparr>)"
  using assms by (auto simp: unsettled_def verdict_ok_def LiveMafiaCount_def elim!: core_same)

lemma inv_night_loop:
  assumes "game_inv (est e)" "Phase (est e) = PhaseNight" "rand_ok lib"
  shows "game_inv (est (fst (night_loop lib now e evs))) \<and> (\<exists>out. snd (night_loop lib now e evs) = Inr out)"
  using assms
proof (induction lib now e evs rule: night_loop.induct)
  case (1 lib now e evs)
  let ?s = "est e" and ?next = "nextNightStep (NightStep (est e))"
  note n = inv_night [OF 1(2,3)]
  consider "NightStepDeadline ?s = 0 \<or> now < NightStepDeadline ?s"
    | "NightStepDeadline ?s \<noteq> 0" "\<not> now < NightStepDeadline ?s" "?next = NightStepResolved"
    | "NightStepDeadline ?s \<noteq> 0" "\<not> now < NightStepDeadline ?s" "?next \<noteq> NightStepResolved"
    by blast
  then show ?case
  proof cases
    case 1
    with \<open>game_inv ?s\<close> show ?thesis by (auto simp: Let_def night_loop.simps [of lib now e evs])
  next
    case 2
    let ?e = "upd (\<lambda>s. s\<lparr>NightStep := NightStepNone, NightStepDeadline := zero_time\<rparr>) e"
    obtain e' out where "resolveNight lib ?e = (e', Inr out)" "game_inv (est e')"
      using inv_resolve_night [of ?e lib] inv_clear_step [OF n(1,2)] n(3,5) \<open>rand_ok lib\<close>
      by (cases "resolveNight lib ?e") auto
    with 2 n(4) show ?thesis by (auto simp: Let_def night_loop.simps [of lib now e evs])
  next
    case 3
    let ?b = "beginNightStep ?next (NightStepDeadline ?s) e"
    from 3 n(4) have "game_inv (est (fst ?b))"
      by (intro inv_begin_step [OF \<open>game_inv ?s\<close> \<open>Phase ?s = PhaseNight\<close>]) auto
    moreover have "Phase (est (fst ?b)) = PhaseNight"
      using \<open>Phase ?s = PhaseNight\<close> by (simp add: beginNightStep_def Let_def)
    moreover have "NightStep ?s \<noteq> NightStepNone" using n(4) by auto
    ultimately show ?thesis
      using 1(1) [OF refl _ 3(2) refl refl 3(3) refl prod.collapse] 3 \<open>rand_ok lib\<close>
      by (simp add: Let_def night_loop.simps [of lib now e evs] split_beta)
  qed
qed

lemma safe_fire_pending:
  assumes "game_inv (est e)" "PendingGameEnd (est e) = Some g"
  shows "safe (firePendingEnd now e)"
proof -
  let ?s = "est e"
  have o: "outcome_ok ?s" and c: "core ?s" using assms(1) by (simp_all add: game_inv_def)
  with assms(2) have v: "verdict_ok ?s (geReason g) (geWinner g)"
    by (auto simp: outcome_ok_def split: if_splits)
  then obtain w where w: "geWinner g = Some w" by (auto simp: verdict_ok_def)
  let ?t = "?s\<lparr>PendingGameEnd := None, LastTickAt := now, Phase := PhaseEnd,
    EndReason := Some (geReason g), Winner := Some w\<rparr>"
  have "core ?t" using c by (rule core_same) simp_all
  moreover have "outcome_ok ?t"
    using v w by (auto simp: outcome_ok_def verdict_ok_def LiveMafiaCount_def)
  ultimately show ?thesis
    using assms(2) w by (simp add: firePendingEnd_def endGame_def Let_def safe_def game_inv_def phase_ok_def)
qed

lemma safe_tick_day:
  "game_inv (est e) \<Longrightarrow> Phase (est e) = PhaseDay \<Longrightarrow> safe (tickDay now prev e)"
  by (simp add: tickDay_def Let_def transitionDayToVote_def ok_def safe_def inv_day_to_vote)

lemma safe_Tick:
  assumes "game_inv (est e)" "rand_ok lib"
  shows "safe (Tick lib now e)"
proof -
  let ?e = "upd (\<lambda>s. s\<lparr>LastTickAt := now\<rparr>) e"
  have i: "game_inv (est ?e)" using assms(1) by (simp add: inv_LastTickAt)
  have "safe (tickIntro now ?e)" if "Phase (est e) = PhaseIntro"
    using inv_intro_loop [OF i] that by (simp add: tickIntro_def)
  moreover have "safe (tickNight lib now ?e)" if "Phase (est e) = PhaseNight"
    using inv_night_loop [OF i _ assms(2)] that by (fastforce simp: tickNight_def)
  moreover have "safe (tickDay now prev ?e)" if "Phase (est e) = PhaseDay" for prev
    using safe_tick_day [OF i] that by simp
  ultimately show ?thesis
    using assms(1) i by (auto simp: Tick_def Let_def safe_fire_pending split: phase.split option.splits)
qed



section \<open>A fresh game\<close>

text \<open>What the session layer guarantees about the players it passes to \<open>Start\<close>.\<close>

definition lobby_ok :: "player list \<Rightarrow> options \<Rightarrow> bool" where
  "lobby_ok players opts \<longleftrightarrow>
     distinct (map ID players) \<and> '''' \<notin> ID ` set players \<and> options_in_range opts"

lemma assign_player_simps [simp]:
  "ID (assign_player a p) = ID p" "Name (assign_player a p) = Name p" "Alive (assign_player a p)"
  "Role (assign_player a p) = RoleMafia \<longleftrightarrow> PlayerRoles a (ID p) = Some RoleMafia"
  by (simp_all add: assign_player_def split: option.split)

lemma count_players_card:
  assumes "distinct (map ID ps)" "\<And>p. P (f p) \<longleftrightarrow> ID p \<in> K" "K \<subseteq> ID ` set ps"
  shows "count_players P (map f ps) = card K"
proof -
  have "count_players P (map f ps) = length (filter (\<lambda>i. i \<in> K) (map ID ps))"
    by (induction ps) (auto simp: assms(2))
  also have "\<dots> = card (set (filter (\<lambda>i. i \<in> K) (map ID ps)))"
    by (rule distinct_card [symmetric]) (use assms(1) in simp)
  also have "set (filter (\<lambda>i. i \<in> K) (map ID ps)) = K" using assms(3) by auto
  finally show ?thesis .
qed

lemma assigned_counts:
  assumes "distinct (map ID ps)" "good_assignment pool (map ID ps) opts a" "Players s = map (assign_player a) ps"
  shows "LiveMafiaCount s = nat (MafiaCount opts)" "LiveCount s = length ps"
    "RepresentativeID a \<in> set (LivingMafiaIDs s)"
proof -
  have M: "set (MafiaIDs a) = {q. PlayerRoles a q = Some RoleMafia}" "distinct (MafiaIDs a)"
    "length (MafiaIDs a) = nat (MafiaCount opts)" "dom (PlayerRoles a) = ID ` set ps"
    "RepresentativeID a \<in> set (MafiaIDs a)"
    using assms(2) unfolding good_assignment_def set_map by - (elim conjE, assumption)+
  then have sub: "set (MafiaIDs a) \<subseteq> ID ` set ps" by (auto simp: dom_def)
  show "LiveMafiaCount s = nat (MafiaCount opts)"
    unfolding LiveMafiaCount_def assms(3) distinct_card [OF M(2), unfolded M(3), symmetric]
    by (rule count_players_card [OF assms(1) _ sub]) (simp add: M(1))
  show "LiveCount s = length ps"
    using count_players_card [OF assms(1) _ order_refl, of Alive "assign_player a"] distinct_card [OF assms(1)]
    unfolding LiveCount_def assms(3) by (simp add: count_players_filter)
  have "RepresentativeID a \<in> ID ` set ps" using M(5) sub by blast
  then show "RepresentativeID a \<in> set (LivingMafiaIDs s)"
    using M(1,5) by (auto simp: set_LivingMafiaIDs assms(3) image_iff)
qed

lemma inv_fresh:
  assumes "lobby_ok players opts" "good_assignment pool (map ID players) opts a"
    "options_allowed opts (int (length players))"
    "s = zero_state\<lparr>GameID := g, Phase := PhaseIntro, Day := 1,
      Players := map (assign_player a) players, HostID := host,
      Settings := opts, StartedAt := now, IntroSpeakerIdx := 0, IntroSpeakerStartedAt := now,
      MafiaRepresentativeID := RepresentativeID a, Votes := [], PoliceCheckedThisNight := False,
      LastTickAt := now\<rparr>"
  shows "game_inv s"
proof -
  have ps: "Players s = map (assign_player a) players" by (simp add: assms(4))
  have d: "distinct (map ID players)" using assms(1) by (simp add: lobby_ok_def)
  note cs = assigned_counts [OF d assms(2) ps]
  have ids: "player_ids s = ID ` set players" "map ID (Players s) = map ID players"
    by (simp_all add: ps image_image comp_def)
  have m: "0 < LiveMafiaCount s" "LiveMafiaCount s < LiveCitizenSideCount s"
    using assms(3) cs LiveCount_split [of s] by (auto simp: options_allowed_def)
  have "core s"
    using assms(1,3) cs(3) m(1) ids
    by (auto simp: core_def wf_players_def rep_ok_def ballots_ok_def police_ok_def lobby_ok_def
        options_allowed_def assms(4) zero_state_def simp del: map_map)
  moreover have "outcome_ok s"
    using m by (simp add: outcome_ok_def) (simp add: assms(4) zero_state_def)
  moreover have "phase_ok s"
    by (auto simp: phase_ok_def quiet_def assms(4) zero_state_def)
  ultimately show ?thesis by (simp add: game_inv_def)
qed

lemma safe_Start:
  assumes "rand_ok lib" "pool_ok (epool e)" "lobby_ok players opts" "res_out (Start lib g h players opts e) = Inr evs"
  shows "game_inv (est (res_engine (Start lib g h players opts e)))"
proof -
  obtain r e' where n: "newInnerRand lib e = (r, e')" by fastforce
  have e': "epool e' = epool e" using n by (metis snd_conv newInnerRand_simps(3))
  from assms(4) obtain rng where r: "r = Some rng"
    by (cases r) (auto simp: Start_def n split: if_splits)
  from assms(4) obtain a where a: "Assign lib (epool e) (map ID players) opts rng = Inr a"
    by (cases "Assign lib (epool e) (map ID players) opts rng") (auto simp: Start_def n r e' split: if_splits)
  then have v: "validateOptions opts (int (length players)) = None"
    by (auto simp: Assign_def Let_def split: option.splits)
  have l: "distinct (map ID players)" "options_in_range opts" using assms(3) by (simp_all add: lobby_ok_def)
  have good: "good_assignment (epool e) (map ID players) opts a"
    using Assign_good [OF assms(1,2) l, of rng] v a by simp
  have "options_allowed opts (int (length players))"
    using v option_errors_Nil [OF l(2)] by (simp add: validateOptions_def Let_def split: if_splits)
  note inv_fresh [OF assms(3) good this refl]
  then show ?thesis
    using assms(4) by (auto simp: Start_def n r e' a Let_def Now_def split: if_splits option.splits)
qed

end
