(* ===== verification/Reachability.thy ===== *)
theory Reachability
  imports Invariants "HOL-Library.Sublist"
begin

text \<open>
  Runs of the engine: a game is started, then actions and ticks arrive in any order, with any
  arguments and clock readings, and the process may restart from the last snapshot.
\<close>

section \<open>Transition systems\<close>

locale transition_system =
  fixes start :: "'s \<Rightarrow> bool" and step :: "'s \<Rightarrow> 's \<Rightarrow> bool" and good :: "'s \<Rightarrow> bool"
    and later :: "'s \<Rightarrow> 's \<Rightarrow> bool"
  assumes start_good: "start s \<Longrightarrow> good s"
    and step_good: "good s \<Longrightarrow> step s t \<Longrightarrow> good t"
    and step_later: "good s \<Longrightarrow> step s t \<Longrightarrow> later s t"
    and later_refl: "later s s"
    and later_trans: "later s t \<Longrightarrow> later t u \<Longrightarrow> later s u"
begin

lemma steps_good: "step\<^sup>*\<^sup>* s t \<Longrightarrow> good s \<Longrightarrow> good t"
  by (induction rule: rtranclp_induct) (auto intro: step_good)

lemma steps_later: "step\<^sup>*\<^sup>* s t \<Longrightarrow> good s \<Longrightarrow> later s t"
  by (induction rule: rtranclp_induct) (auto intro: later_refl later_trans step_later steps_good)

lemma run_good: "start s \<Longrightarrow> step\<^sup>*\<^sup>* s t \<Longrightarrow> good t"
  using steps_good start_good by blast

end

section \<open>The runs of a game\<close>

inductive game_step :: "'r rand_lib \<Rightarrow> engine \<Rightarrow> engine \<Rightarrow> bool" for lib where
  action: "game_step lib e (res_engine (Apply lib a e))"
| tick: "game_step lib e (res_engine (Tick lib now e))"
| restart: "game_step lib e (fst (Restore (New (epool e) clock rng) (Snapshot e)))"

inductive_cases game_stepE: "game_step lib e e'"

inductive started :: "'r rand_lib \<Rightarrow> engine \<Rightarrow> bool" for lib where
  "pool_ok pool \<Longrightarrow> lobby_ok players opts \<Longrightarrow>
   Start lib g host players opts (New pool clock rng) = (e, s, Inr evs) \<Longrightarrow> started lib e"

definition reachable :: "'r rand_lib \<Rightarrow> engine \<Rightarrow> bool" where
  "reachable lib e \<longleftrightarrow> (\<exists>e0. started lib e0 \<and> (game_step lib)\<^sup>*\<^sup>* e0 e)"

section \<open>What never changes back\<close>

definition evolves :: "state \<Rightarrow> state \<Rightarrow> bool" where
  "evolves s t \<longleftrightarrow>
     GameID t = GameID s \<and> HostID t = HostID s \<and>
     map identity (Players t) = map identity (Players s) \<and>
     list_all2 (\<lambda>p q. Alive q \<longrightarrow> Alive p) (Players s) (Players t) \<and>
     Day s \<le> Day t \<and> prefix (PoliceHistory s) (PoliceHistory t) \<and>
     (Phase s = PhaseEnd \<longrightarrow> Phase t = PhaseEnd \<and> Winner t = Winner s \<and> EndReason t = EndReason s)"

lemma evolves_refl [simp]: "evolves s s"
  by (simp add: evolves_def list_all2_refl)

lemma evolves_trans:
  assumes "evolves s t" "evolves t u"
  shows "evolves s u"
proof -
  have "list_all2 (\<lambda>p q. Alive q \<longrightarrow> Alive p) (Players s) (Players u)"
    by (rule list_all2_trans [of "\<lambda>p q. Alive q \<longrightarrow> Alive p" "\<lambda>p q. Alive q \<longrightarrow> Alive p" _ _ "Players t"])
       (use assms in \<open>simp_all add: evolves_def\<close>)
  moreover have "prefix (PoliceHistory s) (PoliceHistory u)"
    using assms prefix_order.trans by (simp add: evolves_def) blast
  ultimately show ?thesis using assms by (simp add: evolves_def)
qed


lemma evolves_same:
  "Players t = Players s \<Longrightarrow> GameID t = GameID s \<Longrightarrow> HostID t = HostID s \<Longrightarrow> Day s \<le> Day t \<Longrightarrow>
   prefix (PoliceHistory s) (PoliceHistory t) \<Longrightarrow> Phase s \<noteq> PhaseEnd \<Longrightarrow> evolves s t"
  by (simp add: evolves_def list_all2_refl)

lemma guard_est: "est (res_engine (guard g (fail e) b)) = (if g = None then est (res_engine b) else est e)"
  by (cases g) simp_all

lemma list_all2_kill:
  "list_all2 (\<lambda>p q. Alive q \<longrightarrow> Alive p) ps (update_first P (\<lambda>p. p\<lparr>Alive := False\<rparr>) ps)"
  by (induction ps) (auto simp: list_all2_refl)

lemma evolves_kill: "evolves s (kill k s)"
proof -
  have "list_all2 (\<lambda>p q. Alive q \<longrightarrow> Alive p) (Players s) (Players (kill k s))"
    by (simp add: kill_def list_all2_kill)
  then show ?thesis by (simp add: evolves_def)
qed

lemma evolves_die: "evolves (est e) (est (fst (die lib k e)))"
proof -
  obtain r where "est (fst (die lib k e)) = (kill k (est e))\<lparr>MafiaRepresentativeID := r\<rparr>"
    using die_est by blast
  with evolves_kill [of "est e" k] show ?thesis by (simp add: evolves_def)
qed

lemma evolves_schedule: "evolves (est e) (est (scheduleGameEnd r w e))"
  by (simp add: scheduleGameEnd_est evolves_def list_all2_refl split: option.split)

lemma evolves_enterNight: "Phase (est e) \<noteq> PhaseEnd \<Longrightarrow> evolves (est e) (est (fst (enterNight e)))"
  by (rule evolves_same) (simp_all add: enterNight_est)

lemma evolves_after:
  "Phase (est e) \<noteq> PhaseEnd \<Longrightarrow> evolves (est e) (est (fst (afterElimination evs e)))"
  by (simp add: afterElimination_def transitionVoteToNight_def split_beta Let_def evolves_schedule
      evolves_enterNight split: option.split)

lemma die_Phase [simp]: "Phase (est (fst (die lib k e))) = Phase (est e)"
  by (subst die_est) simp

lemma evolves_elimination:
  assumes "Phase (est e) \<noteq> PhaseEnd"
  shows "evolves (est e) (est (fst (applyElimination lib k e)))"
  using evolves_trans [OF evolves_die evolves_after, of lib k e] assms
  by (simp add: applyElimination_die split_beta Let_def split: option.split)


lemma evolves_tally: "Phase (est e) \<noteq> PhaseEnd \<Longrightarrow> evolves (est e) (est (fst (tally lib e)))"
  by (auto simp: tally_cases Let_def split_beta intro!: evolves_elimination evolves_enterNight evolves_same)

lemma evolves_startDay:
  assumes "Phase (est e) \<noteq> PhaseEnd"
  shows "evolves (est e) (est (fst (startDay now evs e)))"
proof -
  have "evolves (est e) (est (upd (day_state now) e))"
    by (rule evolves_same) (simp_all add: day_state_def assms)
  then show ?thesis
    using evolves_trans [OF _ evolves_schedule]
    by (auto simp: startDay_eq Let_def split: option.split)
qed

lemma evolves_resolveNight:
  assumes "Phase (est e) \<noteq> PhaseEnd"
  shows "evolves (est e) (est (fst (resolveNight lib e)))"
proof -
  let ?d = "\<lambda>k. fst (die lib k (next_clock e))"
  have "evolves (est e) (est (fst (startDay now evs (?d k))))" for now evs k
    using evolves_trans [OF evolves_die evolves_startDay, of lib k "next_clock e"] assms by simp
  moreover have "evolves (est e) (est (fst (startDay now evs (next_clock e))))" for now evs
    using evolves_startDay [of "next_clock e"] assms by simp
  ultimately show ?thesis
    by (simp add: resolveNight_die split_beta Let_def split: option.split)
qed

lemma evolves_handlers:
  assumes "Phase (est e) \<noteq> PhaseEnd"
  shows "evolves (est e) (est (res_engine (handleMafiaKill p t e)))"
    "evolves (est e) (est (res_engine (handleDoctorHeal p t e)))"
    "evolves (est e) (est (res_engine (handlePoliceCheck p t e)))"
    "evolves (est e) (est (res_engine (handleEndDiscussionEarly p e)))"
    "evolves (est e) (est (res_engine (handleToggleVoice p b e)))"
    "evolves (est e) (est (res_engine (handleForceEnd p e)))"
    "evolves (est e) (est (res_engine (handlePauseGame p e)))"
  using assms
  by (auto simp: guard_est Let_def Now_def handleMafiaKill_def handleDoctorHeal_def handlePoliceCheck_def
      handleEndDiscussionEarly_def transitionDayToVote_def handleToggleVoice_def handleForceEnd_def
      handlePauseGame_def intro!: evolves_same split: option.split simp del: ensureAlive.simps)



lemma evolves_advance: "Phase (est e) \<noteq> PhaseEnd \<Longrightarrow> evolves (est e) (est (res_engine (advanceSpeaker e)))"
  by (auto simp: advanceSpeaker_def transitionIntroToDay_def Let_def Now_def intro!: evolves_same split: option.split)

lemma evolves_resume: "Phase (est e) \<noteq> PhaseEnd \<Longrightarrow> evolves (est e) (est (res_engine (handleResumeGame h e)))"
  by (auto simp: handleResumeGame_def guard_est Let_def Now_def shift_phase_timer_def shift_pending_end_def
      intro!: evolves_same split: phase.split)

lemma evolves_vote:
  assumes "Phase (est e) \<noteq> PhaseEnd"
  shows "evolves (est e) (est (res_engine (handleVote lib v t e)))"
proof -
  let ?e = "upd (\<lambda>s. s\<lparr>Votes := AList.update v t (Votes s)\<rparr>) e"
  have "evolves (est e) (est ?e)" by (rule evolves_same) (simp_all add: assms)
  with evolves_trans [OF this evolves_tally, of lib] assms show ?thesis
    by (simp add: handleVote_def guard_est Let_def split_beta)
qed

lemma evolves_end_night:
  assumes "Phase (est e) \<noteq> PhaseEnd"
  shows "evolves (est e) (est (res_engine (handleEndNightEarly lib h e)))"
proof -
  obtain e' out where r: "resolveNight lib e = (e', out)" by fastforce
  with evolves_resolveNight [OF assms, of lib] show ?thesis
    by (cases out) (simp_all add: handleEndNightEarly_def guard_est Let_def r)
qed

lemma evolves_Apply:
  assumes "Phase (est e) \<noteq> PhaseLobby"
  shows "evolves (est e) (est (res_engine (Apply lib a e)))"
proof (cases "Phase (est e) = PhaseEnd")
  case False
  have "evolves (est e) (est (res_engine (handleEndSelfIntro p e)))"
    "evolves (est e) (est (res_engine (handleAdvanceIntro p e)))" for p
    using evolves_advance [OF False]
    by (simp_all add: handleEndSelfIntro_def handleAdvanceIntro_def guard_est Let_def split: option.split)
  with False assms show ?thesis
    by (cases a) (simp_all add: Apply_def evolves_handlers evolves_resume evolves_vote evolves_end_night
        handleStartGame_def)
qed (simp add: Apply_def)

lemma with_state_est [simp]: "est (res_engine (with_state r)) = est (fst r)"
  by (cases r; cases "snd r") (auto simp: with_state_def)

lemma evolves_intro_loop:
  "Phase (est e) = PhaseIntro \<Longrightarrow> evolves (est e) (est (fst (intro_loop now d e evs)))"
proof (induction now d e evs rule: intro_loop.induct)
  case (1 now d e evs)
  let ?e = "upd (\<lambda>s. s\<lparr>IntroSpeakerIdx := IntroSpeakerIdx s + 1,
                   IntroSpeakerStartedAt := IntroSpeakerStartedAt s + d\<rparr>) e"
  have e: "evolves (est e) (est ?e)" by (rule evolves_same) (simp_all add: 1)
  have day: "evolves (est e) (est (res_engine (transitionIntroToDay now e)))"
    using 1(2) by (auto simp: transitionIntroToDay_def Let_def intro: evolves_same)
  show ?case
    using 1(1) [OF refl refl _ _ refl] e day evolves_trans [OF e] 1(2)
    by (simp add: intro_loop.simps [of now d e evs] Let_def split_beta split: option.split sum.split)
qed

lemma evolves_night_loop:
  "Phase (est e) = PhaseNight \<Longrightarrow> evolves (est e) (est (fst (night_loop lib now e evs)))"
proof (induction lib now e evs rule: night_loop.induct)
  case (1 lib now e evs)
  let ?e = "upd (\<lambda>s. s\<lparr>NightStep := NightStepNone, NightStepDeadline := zero_time\<rparr>) e"
  let ?b = "fst (beginNightStep (nextNightStep (NightStep (est e))) (NightStepDeadline (est e)) e)"
  have "evolves (est e) (est ?e)" by (rule evolves_same) (simp_all add: 1)
  then have r: "evolves (est e) (est (fst (resolveNight lib ?e)))"
    using evolves_trans evolves_resolveNight [of ?e lib] 1(2) by simp
  have b: "evolves (est e) (est ?b)" "Phase (est ?b) = PhaseNight"
    using 1(2) by (auto simp: beginNightStep_def Let_def intro: evolves_same)
  show ?case
    using 1(1) [OF refl _ _ refl refl _ refl prod.collapse] r b evolves_trans [OF b(1)]
    by (simp add: night_loop.simps [of lib now e evs] Let_def split_beta split: sum.split)
qed

lemma evolves_Tick:
  assumes "game_inv (est e)"
  shows "evolves (est e) (est (res_engine (Tick lib now e)))"
proof (cases "Phase (est e) = PhaseEnd")
  case True
  then have "PendingGameEnd (est e) = None" using assms by (simp add: game_inv_def outcome_ok_def)
  with True show ?thesis
    by (simp add: Tick_def Let_def evolves_def list_all2_refl)
next
  case False
  let ?e = "upd (\<lambda>s. s\<lparr>LastTickAt := now\<rparr>) e"
  have t: "evolves (est e) (est ?e)" by (rule evolves_same) (simp_all add: False)
  have f: "evolves (est e) (est (res_engine (firePendingEnd now e)))"
    using False by (auto simp: firePendingEnd_def endGame_def Let_def intro!: evolves_same split: option.split)
  have d: "evolves (est e) (est (res_engine (tickDay now prev ?e)))" for prev
    using False t by (auto simp: tickDay_def transitionDayToVote_def Let_def ok_def intro!: evolves_same)
  have "Phase (est e) = PhaseIntro \<Longrightarrow> evolves (est e) (est (res_engine (tickIntro now ?e)))"
    "Phase (est e) = PhaseNight \<Longrightarrow> evolves (est e) (est (res_engine (tickNight lib now ?e)))"
    using evolves_trans [OF t] evolves_intro_loop [of ?e now] evolves_night_loop [of ?e lib now]
    by (simp_all add: tickIntro_def tickNight_def)
  with f d t show ?thesis by (simp add: Tick_def Let_def split: phase.split)
qed

lemma restore_est: "game_inv (est e) \<Longrightarrow> est (fst (Restore (New pool clock rng) (Snapshot e))) = est e"
  by (simp add: Restore_def Snapshot_def New_def inv_phase_started)

section \<open>The engine as a transition system\<close>

lemma started_inv:
  assumes "rand_ok lib" "started lib e"
  shows "game_inv (est e)"
  using assms(2)
proof cases
  case (1 pool players opts g host clock rng s evs)
  with safe_Start [OF assms(1), of "New pool clock rng" players opts g host evs] show ?thesis
    by (simp add: New_def)
qed

lemma game_step_inv:
  assumes "rand_ok lib" "game_inv (est e)" "game_step lib e e'"
  shows "game_inv (est e') \<and> evolves (est e) (est e')"
  using assms(3)
proof cases
  case (action a)
  with safe_Apply [OF assms(2,1)] evolves_Apply [of e lib a] inv_phase_started [OF assms(2)] show ?thesis
    by (simp add: safe_def)
next
  case (tick now)
  with safe_Tick [OF assms(2,1)] evolves_Tick [OF assms(2)] show ?thesis
    by (simp add: safe_def)
next
  case (restart clock rng)
  with assms(2) show ?thesis by (simp add: restore_est)
qed

text \<open>
  The interface is discharged by the engine: a start establishes the invariant, every step
  keeps it and moves only forward. The generator is fixed by its documented behaviour, which
  enters as part of the states that count as started.
\<close>

interpretation game: transition_system
  "\<lambda>(l :: 'r rand_lib, e). rand_ok l \<and> started l e"
  "\<lambda>(l, e) (l', e'). l' = l \<and> game_step l e e'"
  "\<lambda>(l, e). rand_ok l \<and> game_inv (est e)"
  "\<lambda>(l, e) (l', e'). l' = l \<and> evolves (est e) (est e')"
  by unfold_locales (auto dest: started_inv game_step_inv evolves_trans)

lemma run_lift:
  "(game_step lib)\<^sup>*\<^sup>* e e' \<Longrightarrow> (\<lambda>(l, e) (l', e'). l' = l \<and> game_step l e e')\<^sup>*\<^sup>* (lib, e) (lib, e')"
  by (induction rule: rtranclp_induct) (auto intro: rtranclp.rtrancl_into_rtrancl)

lemma reachable_inv: "rand_ok lib \<Longrightarrow> reachable lib e \<Longrightarrow> game_inv (est e)"
  using game.run_good [OF _ run_lift, of lib] by (fastforce simp: reachable_def)

lemma run_evolves:
  "rand_ok lib \<Longrightarrow> reachable lib e \<Longrightarrow> (game_step lib)\<^sup>*\<^sup>* e e' \<Longrightarrow> evolves (est e) (est e')"
  using game.steps_later [OF run_lift, of lib e e'] reachable_inv [of lib e] by simp

lemma LiveCount_card: "distinct (map ID (Players s)) \<Longrightarrow> LiveCount s = card (alive_ids s)"
proof -
  assume d: "distinct (map ID (Players s))"
  have "alive_ids s = set (map ID (filter Alive (Players s)))" by simp
  then show ?thesis
    using distinct_card [of "map ID (filter Alive (Players s))"] distinct_map_filter [OF d]
    by (simp add: LiveCount_def count_players_filter)
qed

section \<open>A concrete game\<close>

definition demo_lobby :: "player list" where
  "demo_lobby = map (\<lambda>i. \<lparr>ID = i, Name = i, Alive = False, Role = RoleNone, Keyword = ''''\<rparr>) demo_ids"

definition demo_game :: engine where
  "demo_game =
     res_engine (Start demo_lib ''g'' ''a'' demo_lobby (DefaultOptions 6) (New demo_pool (\<lambda>_. 100) (replicate 8 0)))"

lemma demo_lobby_ok: "lobby_ok demo_lobby (DefaultOptions 6)"
  by (simp add: lobby_ok_def demo_lobby_def demo_ids_def options_in_range_def DefaultOptions_def
      recommendedMafiaCount_def int64_range_def)

lemma demo_start:
  "\<exists>s evs. Start demo_lib ''g'' ''a'' demo_lobby (DefaultOptions 6) (New demo_pool (\<lambda>_. 100) (replicate 8 0))
     = (demo_game, s, Inr evs)"
proof -
  let ?r = "Start demo_lib ''g'' ''a'' demo_lobby (DefaultOptions 6) (New demo_pool (\<lambda>_. 100) (replicate 8 0))"
  have "case res_out ?r of Inr x \<Rightarrow> True | Inl x \<Rightarrow> False"
    by code_simp
  then show ?thesis
    by (cases ?r) (auto simp: demo_game_def split: sum.splits)
qed

lemma demo_pool_ok: "pool_ok demo_pool"
  by (simp add: pool_ok_def demo_pool_def)

lemma demo_reachable: "reachable demo_lib demo_game"
proof -
  obtain s evs where "Start demo_lib ''g'' ''a'' demo_lobby (DefaultOptions 6)
      (New demo_pool (\<lambda>_. 100) (replicate 8 0)) = (demo_game, s, Inr evs)"
    using demo_start by blast
  from started.intros [OF demo_pool_ok demo_lobby_ok this] show ?thesis
    by (auto simp: reachable_def)
qed

lemma reachable_step: "reachable lib e \<Longrightarrow> game_step lib e e' \<Longrightarrow> reachable lib e'"
  by (auto simp: reachable_def intro: rtranclp.rtrancl_into_rtrancl)

text \<open>A script of actions and tick times, and the game in its first night, with one investigation.\<close>

datatype command = Act action | At time

fun exec :: "'r rand_lib \<Rightarrow> command list \<Rightarrow> engine \<Rightarrow> engine" where
  "exec lib [] e = e"
| "exec lib (Act a # cs) e = exec lib cs (res_engine (Apply lib a e))"
| "exec lib (At t # cs) e = exec lib cs (res_engine (Tick lib t e))"

lemma reachable_exec: "reachable lib e \<Longrightarrow> reachable lib (exec lib cs e)"
  by (induction lib cs e rule: exec.induct) (auto intro: reachable_step game_step.intros)

definition to_vote :: "command list" where
  "to_vote = [At (121 * 10 ^ 9), Act (EndDiscussionEarly ''a'')]"

definition to_police :: "command list" where
  "to_police = to_vote @ map (\<lambda>i. Act (SubmitVote i '''')) demo_ids
     @ [At (51 * 10 ^ 9), Act (SubmitPoliceCheck ''c'' ''f'')]"

definition demo_night :: engine where
  "demo_night = exec demo_lib to_police demo_game"

lemma demo_night_reachable: "reachable demo_lib demo_night"
  unfolding demo_night_def by (rule reachable_exec [OF demo_reachable])

lemma demo_night_log:
  "PoliceHistory (est demo_night) = [\<lparr>pcDay = 1, pcTarget = ''f'', pcTeam = TeamMafia\<rparr>]"
  by code_simp

section \<open>What holds in every reachable game\<close>

text \<open>
  C5: no run-time panic. In every reachable game no action, whatever its sender and target, and
  no tick, whatever its time, makes the engine index out of range or follow a nil pointer.
\<close>
theorem reachable_no_panic:
  assumes "rand_ok lib" "reachable lib e"
  shows "res_out (Apply lib a e) \<noteq> Inl GoPanic \<and> res_out (Tick lib now e) \<noteq> Inl GoPanic"
  using safe_Apply [OF reachable_inv [OF assms] assms(1)] safe_Tick [OF reachable_inv [OF assms] assms(1)]
  by (simp add: safe_def)

theorem reachable_no_panic_witness:
  "res_out (Apply demo_lib (EndSelfIntro ''a'') demo_game) \<noteq> Inl GoPanic
   \<and> res_out (Tick demo_lib (10 ^ 12) demo_game) \<noteq> Inl GoPanic"
  by (rule reachable_no_panic [OF demo_lib_ok demo_reachable])

text \<open>
  C7: the mafia representative. In every reachable game, while a mafia lives the representative
  is a living mafia member, and when none lives there is no representative.
\<close>
theorem representative_alive:
  assumes "rand_ok lib" "reachable lib e"
  shows "if \<exists>p\<in>set (Players (est e)). live_mafia p
    then \<exists>p\<in>set (Players (est e)). live_mafia p \<and> ID p = MafiaRepresentativeID (est e)
    else MafiaRepresentativeID (est e) = ''''"
proof -
  have "rep_ok (est e)" using reachable_inv [OF assms] by (simp add: game_inv_def core_def)
  then show ?thesis
    using count_players_pos [of live_mafia "Players (est e)"]
    by (auto simp: rep_ok_def LiveMafiaCount_def set_LivingMafiaIDs split: if_splits)
qed

theorem representative_alive_witness:
  "\<exists>p\<in>set (Players (est demo_game)). live_mafia p \<and> ID p = MafiaRepresentativeID (est demo_game)"
proof -
  have "list_ex live_mafia (Players (est demo_game))" by code_simp
  with representative_alive [OF demo_lib_ok demo_reachable] show ?thesis
    by (auto simp: list_ex_iff split: if_splits)
qed

text \<open>
  C6: outcomes. In every reachable game that is neither over nor about to be declared over, both
  sides still can win: a mafia lives and the citizen side is in the majority. A finished game
  has a reason; it has no winner exactly when the host forced the end; and a citizen win is only
  declared when no mafia lives.
\<close>
theorem reachable_outcome:
  assumes "rand_ok lib" "reachable lib e"
  shows "let s = est e in
    (Phase s \<noteq> PhaseEnd \<longrightarrow> Winner s = None \<and> EndReason s = None \<and>
      (PendingGameEnd s = None \<longrightarrow> 0 < LiveMafiaCount s \<and> LiveMafiaCount s < LiveCitizenSideCount s)) \<and>
    (Phase s = PhaseEnd \<longrightarrow> PendingGameEnd s = None \<and> EndReason s \<noteq> None \<and>
      (Winner s = None \<longleftrightarrow> EndReason s = Some EndHostForceEnd) \<and>
      (Winner s = Some TeamMafia \<longleftrightarrow> EndReason s = Some EndMafiaWin) \<and>
      (Winner s = Some TeamCitizen \<longleftrightarrow> EndReason s = Some EndCitizenWin) \<and>
      (EndReason s = Some EndCitizenWin \<longrightarrow> LiveMafiaCount s = 0))"
proof -
  have "outcome_ok (est e)" using reachable_inv [OF assms] by (simp add: game_inv_def)
  then show ?thesis
    by (auto simp: Let_def outcome_ok_def verdict_ok_def split: option.splits end_reason.splits)
qed

theorem reachable_outcome_witness:
  "0 < LiveMafiaCount (est demo_game) \<and> LiveMafiaCount (est demo_game) < LiveCitizenSideCount (est demo_game)"
proof -
  have "Phase (est demo_game) = PhaseIntro \<and> PendingGameEnd (est demo_game) = None" by code_simp
  with reachable_outcome [OF demo_lib_ok demo_reachable] show ?thesis by (simp add: Let_def)
qed

text \<open>
  C29: investigations. In every reachable game the log holds at most one investigation per night,
  in the order of the nights, each of a player of the game and with that player's true team.
\<close>
theorem investigations_sound:
  assumes "rand_ok lib" "reachable lib e"
  shows "sorted_wrt (<) (map pcDay (PoliceHistory (est e))) \<and>
    (\<forall>r\<in>set (PoliceHistory (est e)). 1 \<le> Day (est e) \<and> pcDay r \<le> Day (est e) \<and>
       (\<exists>p\<in>set (Players (est e)). ID p = pcTarget r \<and> pcTeam r = TeamOf (Role p)))"
  using reachable_inv [OF assms] by (auto simp: game_inv_def core_def police_ok_def)

theorem investigations_sound_witness:
  "PoliceHistory (est demo_night) = [\<lparr>pcDay = 1, pcTarget = ''f'', pcTeam = TeamMafia\<rparr>]
   \<and> (\<exists>p\<in>set (Players (est demo_night)). ID p = ''f'' \<and> TeamMafia = TeamOf (Role p))"
  using investigations_sound [OF demo_lib_ok demo_night_reachable] by (simp add: demo_night_log)

text \<open>
  An open vote. While a vote or recount runs and no end is scheduled, every ballot was cast
  by a distinct living player for a living player or is blank, and at least one living player
  has not voted: the vote never waits for a ballot that cannot come. A recount has at least two
  candidates, all alive.
\<close>
theorem open_vote:
  assumes "rand_ok lib" "reachable lib e" "Phase (est e) = PhaseVote \<or> Phase (est e) = PhaseRecount"
    "PendingGameEnd (est e) = None"
  shows "let s = est e in
    distinct (map fst (Votes s)) \<and> keys (Votes s) \<subset> alive_ids s \<and>
    snd ` set (Votes s) \<subseteq> insert '''' (alive_ids s) \<and>
    (Phase s = PhaseRecount \<longrightarrow> 2 \<le> length (VoteCandidates s) \<and> set (VoteCandidates s) \<subseteq> alive_ids s)"
proof -
  let ?s = "est e"
  have i: "core ?s" "phase_ok ?s" using reachable_inv [OF assms(1,2)] by (simp_all add: game_inv_def)
  then have d: "distinct (map ID (Players ?s))" "gomap_ok (Votes ?s)" by (simp_all add: core_parts)
  have o: "open_round ?s \<and> (Phase ?s = PhaseRecount \<longrightarrow> 2 \<le> length (VoteCandidates ?s) \<and>
      set (VoteCandidates ?s) \<subseteq> alive_ids ?s)"
    using i(2) assms(3,4) by (auto simp: phase_ok_def)
  moreover have "keys (Votes ?s) \<noteq> alive_ids ?s"
    using o am.len_dom [OF d(2)] LiveCount_card [OF d(1)] by (auto simp: open_round_def dom_map_of_keys)
  ultimately show ?thesis
    using d(2) by (auto simp: open_round_def gomap_ok_def Let_def)
qed

theorem open_vote_witness:
  "keys (Votes (est (exec demo_lib to_vote demo_game))) \<subset> alive_ids (est (exec demo_lib to_vote demo_game))"
proof -
  have "Phase (est (exec demo_lib to_vote demo_game)) = PhaseVote \<and>
      PendingGameEnd (est (exec demo_lib to_vote demo_game)) = None"
    by code_simp
  with open_vote [OF demo_lib_ok reachable_exec [OF demo_reachable], of to_vote] show ?thesis
    by (simp add: Let_def)
qed

text \<open>
  C28: nothing is undone. Along every run of a game the identities of the players (identifier,
  name, role, keyword) never change, a dead player stays dead, the day never goes back, the
  investigation log only grows at its end, and a finished game stays finished with the same
  winner and reason.
\<close>
theorem run_monotone:
  assumes "rand_ok lib" "reachable lib e" "(game_step lib)\<^sup>*\<^sup>* e e'"
  shows "map identity (Players (est e')) = map identity (Players (est e)) \<and>
    (\<forall>i < length (Players (est e)). Alive (Players (est e') ! i) \<longrightarrow> Alive (Players (est e) ! i)) \<and>
    Day (est e) \<le> Day (est e') \<and> prefix (PoliceHistory (est e)) (PoliceHistory (est e')) \<and>
    (Phase (est e) = PhaseEnd \<longrightarrow> Phase (est e') = PhaseEnd \<and> Winner (est e') = Winner (est e) \<and>
       EndReason (est e') = EndReason (est e))"
  using run_evolves [OF assms] by (auto simp: evolves_def list_all2_conv_all_nth)

lemma exec_steps: "(game_step lib)\<^sup>*\<^sup>* e (exec lib cs e)"
  by (induction lib cs e rule: exec.induct)
     (auto intro: game_step.intros converse_rtranclp_into_rtranclp)

theorem run_monotone_witness:
  "map identity (Players (est demo_night)) = map identity (Players (est demo_game))
   \<and> Day (est demo_game) \<le> Day (est demo_night)"
  unfolding demo_night_def
  using run_monotone [OF demo_lib_ok demo_reachable exec_steps] by blast

text \<open>
  The night's target. Whenever a mafia target is stored in a reachable game that is not
  over, it is night and the target is a living player who is not mafia; and a stored doctor's
  target is a living player.
\<close>
theorem night_target_valid:
  assumes "rand_ok lib" "reachable lib e" "Phase (est e) \<noteq> PhaseEnd"
  shows "(\<forall>t. PendingMafiaTarget (est e) = Some t \<longrightarrow> Phase (est e) = PhaseNight \<and>
      (\<exists>p\<in>set (Players (est e)). ID p = t \<and> live_citizen p)) \<and>
    (\<forall>t. PendingDoctorTarget (est e) = Some t \<longrightarrow> Phase (est e) = PhaseNight \<and> t \<in> alive_ids (est e))"
proof -
  have "phase_ok (est e)" using reachable_inv [OF assms(1,2)] by (simp add: game_inv_def)
  then show ?thesis
    using assms(3) by (cases "Phase (est e)") (simp_all add: phase_ok_def quiet_def night_ok_def)
qed

definition demo_attack :: engine where
  "demo_attack = exec demo_lib (to_vote @ map (\<lambda>i. Act (SubmitVote i '''')) demo_ids
     @ [At (21 * 10 ^ 9), Act (SubmitMafiaKill ''f'' ''a'')]) demo_game"

theorem night_target_valid_witness:
  "PendingMafiaTarget (est demo_attack) = Some ''a'' \<and>
   (\<exists>p\<in>set (Players (est demo_attack)). ID p = ''a'' \<and> live_citizen p)"
proof -
  have "PendingMafiaTarget (est demo_attack) = Some ''a'' \<and> Phase (est demo_attack) = PhaseNight"
    by code_simp
  moreover have "reachable demo_lib demo_attack"
    unfolding demo_attack_def by (rule reachable_exec [OF demo_reachable])
  ultimately show ?thesis
    using night_target_valid [OF demo_lib_ok, of demo_attack] by simp
qed

end
