(* ===== verification/Timing.thy ===== *)
theory Timing
  imports Reachability
begin

text \<open>
  Time: how ticks, deadlines, and pause and resume behave. A tick may come late, twice or in
  several smaller pieces; the game must not depend on that.
\<close>

section \<open>Splitting a tick\<close>

definition touch :: "time \<Rightarrow> engine \<Rightarrow> engine" where
  "touch t e = upd (\<lambda>s. s\<lparr>LastTickAt := t\<rparr>) e"

lemma touch_touch [simp]: "touch t (touch u e) = touch t e"
  by (simp add: touch_def upd_def)

lemma touch_simps [simp]:
  "est (touch t e) = (est e)\<lparr>LastTickAt := t\<rparr>" "eclock (touch t e) = eclock e"
  by (simp_all add: touch_def)

lemma touch_speaker:
  "upd (\<lambda>s. s\<lparr>IntroSpeakerIdx := IntroSpeakerIdx s + 1, IntroSpeakerStartedAt := IntroSpeakerStartedAt s + d\<rparr>)
     (touch t e) =
   touch t (upd (\<lambda>s. s\<lparr>IntroSpeakerIdx := IntroSpeakerIdx s + 1,
     IntroSpeakerStartedAt := IntroSpeakerStartedAt s + d\<rparr>) e)"
  by (simp add: touch_def upd_def)

lemma player_at_frame [simp]:
  "player_at (s\<lparr>LastTickAt := t\<rparr>) i = player_at s i"
  "player_at (s\<lparr>IntroSpeakerIdx := j, IntroSpeakerStartedAt := u\<rparr>) i = player_at s i"
  by (simp_all add: player_at_def)

lemma time_sub_mono: "t \<le> t' \<Longrightarrow> time_sub t u \<le> time_sub t' u"
  unfolding time_sub_def by (intro max.mono min.mono) simp_all

text \<open>Fields the loops leave alone while the phase lasts.\<close>

definition clockwork where
  "clockwork s = (Phase s, LastTickAt s, Paused s, Settings s, PendingGameEnd s)"

lemma intro_loop_split:
  assumes "intro_loop t1 d e evs = (e1, Inr ev1)" "Phase (est e1) = PhaseIntro" "t1 \<le> t2"
  shows "intro_loop t2 d (touch x e) evs = intro_loop t2 d (touch x e1) ev1 \<and>
    clockwork (est e1) = clockwork (est e)"
  using assms
proof (induction t1 d e evs rule: intro_loop.induct)
  case (1 t1 d e evs)
  let ?s = "est e"
  let ?e = "upd (\<lambda>s. s\<lparr>IntroSpeakerIdx := IntroSpeakerIdx s + 1,
                   IntroSpeakerStartedAt := IntroSpeakerStartedAt s + d\<rparr>) e"
  show ?case
  proof (cases "time_sub t1 (IntroSpeakerStartedAt ?s) < d")
    case True
    with 1(2,3) show ?thesis by (simp add: intro_loop.simps [of t1] Let_def split: if_splits)
  next
    case False
    then have f2: "\<not> time_sub t2 (IntroSpeakerStartedAt ?s) < d"
      using time_sub_mono [OF 1(4), of "IntroSpeakerStartedAt ?s"] by linarith
    show ?thesis
    proof (cases "IntroSpeakerIdx ?s \<ge> int (length (Players ?s)) - 1")
      case True
      with False 1(2,3) show ?thesis
        by (auto simp: intro_loop.simps [of t1] transitionIntroToDay_def ok_def Let_def)
    next
      case le: False
      from 1(2) False le obtain p where p: "player_at ?s (IntroSpeakerIdx ?s + 1) = Some p"
        and l: "intro_loop t1 d ?e (evs @ [pub (IntroSpeakerChanged (ID p) (IntroSecondsPerPlayer (Settings ?s)))]) = (e1, Inr ev1)"
        by (subst (asm) intro_loop.simps) (auto simp: Let_def split: option.splits)
      have "intro_loop t2 d (touch x e) evs = intro_loop t2 d (touch x ?e) (evs @ [pub (IntroSpeakerChanged (ID p) (IntroSecondsPerPlayer (Settings ?s)))])"
        using f2 le p by (subst intro_loop.simps) (simp add: Let_def touch_speaker)
      with 1(1) [OF refl refl le False refl, of p] p l 1(3,4) show ?thesis
        by (simp add: clockwork_def)
    qed
  qed
qed
lemma touch_beginNightStep:
  "beginNightStep step t (touch x e) = map_prod (touch x) id (beginNightStep step t e)"
  by (simp add: beginNightStep_def touch_def upd_def Let_def)

lemma resolveNight_Inr_Phase:
  "resolveNight lib e = (e', Inr evs) \<Longrightarrow> Phase (est e') = PhaseDay"
  by (auto simp: resolveNight_die startDay_eq Let_def split_beta scheduleGameEnd_est day_state_def
      split: option.splits)

lemma night_loop_split:
  assumes "night_loop lib t1 e evs = (e1, Inr ev1)" "Phase (est e1) = PhaseNight" "t1 \<le> t2"
  shows "night_loop lib t2 (touch x e) evs = night_loop lib t2 (touch x e1) ev1 \<and>
    clockwork (est e1) = clockwork (est e)"
  using assms
proof (induction lib t1 e evs rule: night_loop.induct)
  case (1 lib t1 e evs)
  let ?s = "est e" and ?next = "nextNightStep (NightStep (est e))"
  let ?b = "beginNightStep ?next (NightStepDeadline ?s) e"
  consider "NightStep ?s = NightStepNone \<or> NightStepDeadline ?s = 0 \<or> t1 < NightStepDeadline ?s"
    | (resolved) "\<not> (NightStep ?s = NightStepNone \<or> NightStepDeadline ?s = 0)"
        "\<not> t1 < NightStepDeadline ?s" "?next = NightStepResolved"
    | (step) "\<not> (NightStep ?s = NightStepNone \<or> NightStepDeadline ?s = 0)"
        "\<not> t1 < NightStepDeadline ?s" "?next \<noteq> NightStepResolved"
    by blast
  then show ?case
  proof cases
    case 1
    with \<open>night_loop lib t1 e evs = (e1, Inr ev1)\<close> show ?thesis
      by (auto simp: night_loop.simps [of lib t1 e evs] Let_def split: if_splits)
  next
    case resolved
    with 1(2,3) show ?thesis
      by (auto simp: Let_def night_loop.simps [of lib t1 e evs] split: sum.splits prod.splits
          dest!: resolveNight_Inr_Phase)
  next
    case step
    have l: "night_loop lib t1 (fst ?b) (evs @ snd ?b) = (e1, Inr ev1)"
      using 1(2) step by (simp add: Let_def night_loop.simps [of lib t1 e evs] split_beta)
    have "night_loop lib t2 (touch x e) evs = night_loop lib t2 (touch x (fst ?b)) (evs @ snd ?b)"
      using step 1(4)
      by (simp add: Let_def night_loop.simps [of lib t2 "touch x e"] touch_beginNightStep split_beta)
    moreover have "clockwork (est (fst ?b)) = clockwork ?s"
      by (simp add: clockwork_def beginNightStep_def Let_def)
    ultimately show ?thesis
      using 1(1) [OF refl step(1,2) refl refl step(3) refl prod.collapse l 1(3,4)] by simp
  qed
qed

lemma threshold_split:
  assumes "prev \<le> t1" "t1 \<le> t2"
  shows "threshold_events d t2 prev = threshold_events d t1 prev @ threshold_events d t2 t1"
  using assms by (auto simp: threshold_events_def discussionTimerThresholds_def second_def)

lemma with_state_Inr: "with_state r = (e, s, Inr evs) \<Longrightarrow> r = (e, Inr evs)"
  by (cases r; cases "snd r") (auto simp: with_state_def)

lemma Tick_running:
  assumes "\<not> Paused (est e)" "LastTickAt (est e) < now" "PendingGameEnd (est e) = None"
  shows "Tick lib now e =
    (case Phase (est e) of
       PhaseIntro \<Rightarrow> tickIntro now (touch now e)
     | PhaseDay \<Rightarrow> tickDay now (LastTickAt (est e)) (touch now e)
     | PhaseNight \<Rightarrow> tickNight lib now (touch now e)
     | _ \<Rightarrow> ok (touch now e) [])"
  unfolding touch_def using assms by (simp add: Tick_def Let_def)

lemma tickDay_stays:
  assumes "tickDay t prev e = (e1, s1, Inr ev1)" "Phase (est e1) = PhaseDay"
  shows "e1 = e \<and> t < Deadline (est e) \<and> ev1 = threshold_events (Deadline (est e)) t prev"
  using assms by (auto simp: tickDay_def transitionDayToVote_def ok_def Let_def split: if_splits)

lemma intro_loop_acc:
  "intro_loop now d e (xs @ evs) = map_prod id (map_sum id ((@) xs)) (intro_loop now d e evs)"
proof (induction now d e evs rule: intro_loop.induct)
  case (1 now d e evs)
  show ?case
    using 1 [OF refl refl _ _ refl]
    by (simp add: intro_loop.simps [of now d e] transitionIntroToDay_def ok_def Let_def split: option.split)
qed

lemma night_loop_acc:
  "night_loop lib now e (xs @ evs) = map_prod id (map_sum id ((@) xs)) (night_loop lib now e evs)"
proof (induction lib now e evs rule: night_loop.induct)
  case (1 lib now e evs)
  show ?case
    using 1 [OF refl _ _ refl refl _ refl prod.collapse]
    by (simp add: night_loop.simps [of lib now e] Let_def split_beta split: sum.split)
qed

lemma with_state_acc:
  "res_engine (with_state (map_prod id (map_sum id ((@) xs)) r)) = res_engine (with_state r) \<and>
   (\<forall>evs. res_out (with_state r) = Inr evs \<longrightarrow>
      res_out (with_state (map_prod id (map_sum id ((@) xs)) r)) = Inr (xs @ evs))"
  by (cases r; cases "snd r") (auto simp: with_state_def)

text \<open>
  C32: the game does not depend on how often it is ticked. If a tick leaves the phase unchanged,
  then ticking later gives the same engine as if the first tick had not happened, and the events
  of the two ticks are together the events of the single one: no speaker, night step or
  discussion warning is lost or repeated.
\<close>
theorem Tick_split:
  assumes "\<not> Paused (est e)" "PendingGameEnd (est e) = None" "LastTickAt (est e) < t1" "t1 < t2"
    and "Tick lib t1 e = (e1, s1, Inr ev1)" "Phase (est e1) = Phase (est e)"
  shows "res_engine (Tick lib t2 e1) = res_engine (Tick lib t2 e) \<and>
    (\<forall>ev2. res_out (Tick lib t2 e1) = Inr ev2 \<longrightarrow> res_out (Tick lib t2 e) = Inr (ev1 @ ev2))"
proof -
  have r1: "Tick lib t2 e = (case Phase (est e) of
       PhaseIntro \<Rightarrow> tickIntro t2 (touch t2 e)
     | PhaseDay \<Rightarrow> tickDay t2 (LastTickAt (est e)) (touch t2 e)
     | PhaseNight \<Rightarrow> tickNight lib t2 (touch t2 e)
     | _ \<Rightarrow> ok (touch t2 e) [])"
    using assms(1-4) by (simp add: Tick_running)
  have r2: "Tick lib t2 e1 = (case Phase (est e) of
       PhaseIntro \<Rightarrow> tickIntro t2 (touch t2 e1)
     | PhaseDay \<Rightarrow> tickDay t2 t1 (touch t2 e1)
     | PhaseNight \<Rightarrow> tickNight lib t2 (touch t2 e1)
     | _ \<Rightarrow> ok (touch t2 e1) [])" if "clockwork (est e1) = clockwork (est (touch t1 e))"
    using assms(1-4) that by (subst Tick_running) (auto simp: clockwork_def)
  note t1 = assms(5) [unfolded Tick_running [OF assms(1,3,2)]]
  show ?thesis
  proof (cases "Phase (est e)")
    case PhaseIntro
    let ?d = "seconds (IntroSecondsPerPlayer (Settings (est e)))"
    have "intro_loop t1 ?d (touch t1 e) [] = (e1, Inr ev1)"
      using t1 PhaseIntro by (auto simp: tickIntro_def dest: with_state_Inr)
    from intro_loop_split [OF this _ less_imp_le [OF assms(4)], of t2] assms(6) PhaseIntro
    have "intro_loop t2 ?d (touch t2 e) [] = intro_loop t2 ?d (touch t2 e1) (ev1 @ [])"
      and c: "clockwork (est e1) = clockwork (est (touch t1 e))" by simp_all
    moreover have "Settings (est e1) = Settings (est e)" using c by (simp add: clockwork_def)
    ultimately show ?thesis
      using with_state_acc [of ev1 "intro_loop t2 ?d (touch t2 e1) []"] PhaseIntro
      unfolding r1 r2 [OF c] by (simp add: tickIntro_def intro_loop_acc del: append_Nil2)
  next
    case PhaseNight
    have "night_loop lib t1 (touch t1 e) [] = (e1, Inr ev1)"
      using t1 PhaseNight by (auto simp: tickNight_def dest: with_state_Inr)
    from night_loop_split [OF this _ less_imp_le [OF assms(4)], of t2] assms(6) PhaseNight
    have "night_loop lib t2 (touch t2 e) [] = night_loop lib t2 (touch t2 e1) (ev1 @ [])"
      and c: "clockwork (est e1) = clockwork (est (touch t1 e))" by simp_all
    then show ?thesis
      using with_state_acc [of ev1 "night_loop lib t2 (touch t2 e1) []"] PhaseNight
      unfolding r1 r2 [OF c] by (simp add: tickNight_def night_loop_acc del: append_Nil2)
  next
    case PhaseDay
    have d: "e1 = touch t1 e" "t1 < Deadline (est e)" "ev1 = threshold_events (Deadline (est e)) t1 (LastTickAt (est e))"
      using tickDay_stays [of t1 _ "touch t1 e" e1 s1 ev1] t1 PhaseDay assms(6) by auto
    then show ?thesis
      using r2 PhaseDay threshold_split [of "LastTickAt (est e)" t1 t2 "Deadline (est e)"] assms(3,4)
      unfolding r1 by (auto simp: tickDay_def transitionDayToVote_def ok_def Let_def clockwork_def)
  qed (use t1 r1 r2 in \<open>auto simp: ok_def clockwork_def\<close>)
qed



theorem Tick_split_witness:
  "res_engine (Tick demo_lib (50 * 10 ^ 9) (res_engine (Tick demo_lib (30 * 10 ^ 9) demo_game)))
   = res_engine (Tick demo_lib (50 * 10 ^ 9) demo_game)"
proof -
  let ?r = "Tick demo_lib (30 * 10 ^ 9) demo_game"
  have "\<not> Paused (est demo_game) \<and> PendingGameEnd (est demo_game) = None \<and>
      LastTickAt (est demo_game) < 30 * 10 ^ 9 \<and> Phase (est (res_engine ?r)) = Phase (est demo_game)"
    by code_simp
  moreover have "case res_out ?r of Inr evs \<Rightarrow> length evs = 1 | Inl x \<Rightarrow> False" by code_simp
  then obtain ev1 where "?r = (res_engine ?r, res_state ?r, Inr ev1)"
    by (cases ?r) (auto split: sum.splits)
  ultimately show ?thesis
    using Tick_split [of demo_game "30 * 10 ^ 9" "50 * 10 ^ 9" demo_lib] by force
qed

section \<open>Repeated ticks\<close>

definition clock_from :: "time \<Rightarrow> engine \<Rightarrow> bool" where
  "clock_from t e \<longleftrightarrow> (\<forall>n. t \<le> eclock e n)"

lemma Tick_stale: "now \<le> LastTickAt (est e) \<Longrightarrow> Tick lib now e = ok e []"
  by (simp add: Tick_def Let_def)

lemma Tick_paused: "Paused (est e) \<Longrightarrow> Tick lib now e = ok e []"
  by (simp add: Tick_def)

lemma startDay_LastTickAt: "LastTickAt (est (fst (startDay now evs e))) = now"
  by (simp add: startDay_eq scheduleGameEnd_est day_state_def Let_def split: option.split)

lemma resolveNight_LastTickAt:
  "t \<le> LastTickAt (est e) \<Longrightarrow> clock_from t e \<Longrightarrow> t \<le> LastTickAt (est (fst (resolveNight lib e)))"
  by (simp add: resolveNight_die startDay_LastTickAt clock_from_def split_beta Let_def split: option.split)

lemma intro_loop_LastTickAt:
  "now \<le> LastTickAt (est e) \<Longrightarrow> now \<le> LastTickAt (est (fst (intro_loop now d e evs)))"
proof (induction now d e evs rule: intro_loop.induct)
  case (1 now d e evs)
  show ?case
    using 1(1) [OF refl refl _ _ refl] 1(2)
    by (simp add: intro_loop.simps [of now d e evs] transitionIntroToDay_def ok_def Let_def split: option.split)
qed

lemma night_loop_LastTickAt:
  "now \<le> LastTickAt (est e) \<Longrightarrow> clock_from now e \<Longrightarrow>
   now \<le> LastTickAt (est (fst (night_loop lib now e evs)))"
proof (induction lib now e evs rule: night_loop.induct)
  case (1 lib now e evs)
  let ?e = "upd (\<lambda>s. s\<lparr>NightStep := NightStepNone, NightStepDeadline := zero_time\<rparr>) e"
  have "now \<le> LastTickAt (est (fst (resolveNight lib ?e)))"
    using resolveNight_LastTickAt [of now ?e lib] 1(2,3) by (simp add: clock_from_def)
  moreover have "LastTickAt (est (fst (beginNightStep st t e))) = LastTickAt (est e)"
    "clock_from now (fst (beginNightStep st t e)) = clock_from now e" for st t
    by (simp_all add: beginNightStep_def Let_def clock_from_def)
  ultimately show ?case
    using 1(1) [OF refl _ _ refl refl _ refl prod.collapse] 1(2,3)
    by (simp add: night_loop.simps [of lib now e evs] Let_def split_beta split: sum.split)
qed

text \<open>
  A repeated tick is harmless. When the clock never reads earlier than the tick's own time,
  ticking again at the same or an earlier time, or ticking a paused game, changes nothing and
  emits nothing.
\<close>
theorem Tick_idempotent:
  assumes "clock_from now e" "t \<le> now"
  shows "let e' = res_engine (Tick lib now e) in Tick lib t e' = ok e' []"
proof -
  let ?e = "touch now e"
  have c: "clock_from now ?e" using assms(1) by (simp add: clock_from_def)
  have "now \<le> LastTickAt (est (res_engine (tickIntro now ?e)))"
    "now \<le> LastTickAt (est (res_engine (tickNight lib now ?e)))"
    "now \<le> LastTickAt (est (res_engine (tickDay now prev ?e)))" for prev
    using intro_loop_LastTickAt [of now ?e] night_loop_LastTickAt [of now ?e lib] c
    by (simp_all add: tickIntro_def tickNight_def tickDay_def transitionDayToVote_def ok_def Let_def)
  moreover have "PendingGameEnd (est e) \<noteq> None \<Longrightarrow> now \<le> LastTickAt (est (res_engine (firePendingEnd now e)))"
    by (auto simp: firePendingEnd_def endGame_def Let_def split: option.split)
  ultimately have "Paused (est e) \<or> now \<le> LastTickAt (est (res_engine (Tick lib now e)))"
    unfolding touch_def by (auto simp: Tick_def Let_def split: option.split phase.split)
  then show ?thesis
    using assms(2) Tick_paused [of e lib] Tick_stale [of t "res_engine (Tick lib now e)" lib]
    by (auto simp: Let_def)
qed

theorem Tick_idempotent_witness:
  "let e' = res_engine (Tick demo_lib (10 ^ 11) (demo_game\<lparr>eclock := \<lambda>_. 10 ^ 12\<rparr>))
   in Tick demo_lib (10 ^ 11) e' = ok e' []"
  by (rule Tick_idempotent) (simp_all add: clock_from_def)

section \<open>Pause and resume\<close>

lemma exec_append: "exec lib (xs @ ys) e = exec lib ys (exec lib xs e)"
  by (induction lib xs e rule: exec.induct) simp_all

lemma exec_ticks_paused: "Paused (est e) \<Longrightarrow> exec lib (map At ts) e = e"
  by (induction ts) (simp_all add: Tick_paused)

definition pausable :: "state \<Rightarrow> bool" where
  "pausable s \<longleftrightarrow>
     Phase s \<noteq> PhaseEnd \<and> \<not> Paused s \<and>
     (PendingGameEnd s \<noteq> None \<or> canPause (Phase s) \<and> \<not> (Phase s = PhaseNight \<and> NightStep s = NightStepIntro))"

lemma pause_accepted:
  "pausable (est e) \<Longrightarrow> h = HostID (est e) \<Longrightarrow>
   Apply lib (PauseGame h) e =
     ok (upd (\<lambda>s. s\<lparr>Paused := True, PausedAt := eclock e 0\<rparr>) (next_clock e)) [pub (GamePaused (Phase (est e)))]"
  by (auto simp: Apply_def handlePauseGame_def pausable_def ensureHost_def Let_def Now_def)

lemma resume_accepted:
  assumes "Paused (est e)" "Phase (est e) \<noteq> PhaseEnd" "h = HostID (est e)"
    "PausedAt (est e) \<le> eclock e 0" "eclock e 0 - PausedAt (est e) < 2 ^ 63"
  shows "est (res_engine (Apply lib (ResumeGame h) e)) =
    (let d = eclock e 0 - PausedAt (est e) in
     (shift_pending_end d (shift_phase_timer d (est e)))\<lparr>Paused := False, PausedAt := zero_time,
        LastTickAt := eclock e 0\<rparr>)"
proof -
  have "max 0 (time_sub (eclock e 0) (PausedAt (est e))) = eclock e 0 - PausedAt (est e)"
    using assms(4,5) by (simp add: time_sub_exact int64_range_def)
  with assms(1-3) show ?thesis
    by (simp add: Apply_def handleResumeGame_def ensureHost_def Let_def Now_def)
qed

text \<open>
  C30: a pause costs no game time. After the host pauses at a reading \<open>p\<close> of the clock and
  resumes at a reading \<open>r\<close>, with any ticks in between, the running timer (the speaker's elapsed
  time, the discussion deadline or the night step's deadline, and the buffer of a scheduled end)
  has exactly as much left as when the game was paused, and the players are untouched.
\<close>
theorem pause_resume_exact:
  assumes "pausable (est e)" "h = HostID (est e)" "eclock e 0 \<le> eclock e 1" "eclock e 1 - eclock e 0 < 2 ^ 63"
  shows "let s = est e; p = eclock e 0; r = eclock e 1;
      t = est (exec lib (Act (PauseGame h) # map At ts @ [Act (ResumeGame h)]) e) in
    \<not> Paused t \<and> Phase t = Phase s \<and> Players t = Players s \<and>
    (Phase s = PhaseIntro \<longrightarrow> r - IntroSpeakerStartedAt t = p - IntroSpeakerStartedAt s) \<and>
    (Phase s = PhaseDay \<and> Deadline s \<noteq> 0 \<longrightarrow> Deadline t - r = Deadline s - p) \<and>
    (Phase s = PhaseNight \<and> NightStepDeadline s \<noteq> 0 \<longrightarrow> NightStepDeadline t - r = NightStepDeadline s - p) \<and>
    (case PendingGameEnd s of
       None \<Rightarrow> PendingGameEnd t = None
     | Some g \<Rightarrow> PendingGameEnd t = Some (g\<lparr>geDeadline := r + (geDeadline g - p)\<rparr>))"
proof -
  let ?e = "upd (\<lambda>s. s\<lparr>Paused := True, PausedAt := eclock e 0\<rparr>) (next_clock e)"
  have "exec lib (Act (PauseGame h) # map At ts @ [Act (ResumeGame h)]) e = res_engine (Apply lib (ResumeGame h) ?e)"
    using exec_ticks_paused [of ?e lib ts] by (simp add: pause_accepted [OF assms(1,2)] exec_append)
  moreover have "est (res_engine (Apply lib (ResumeGame h) ?e)) =
    (let d = eclock e 1 - eclock e 0 in
     (shift_pending_end d (shift_phase_timer d (est ?e)))\<lparr>Paused := False, PausedAt := zero_time,
        LastTickAt := eclock e 1\<rparr>)"
    using assms by (subst resume_accepted) (simp_all add: pausable_def)
  ultimately show ?thesis
    by (simp add: Let_def shift_pending_end_def shift_phase_timer_def split: phase.split option.split)
qed

theorem pause_resume_exact_witness:
  "let e = demo_game\<lparr>eclock := \<lambda>n. 10 ^ 9 * int (Suc n)\<rparr>;
     t = est (exec demo_lib (Act (PauseGame ''a'') # map At [7, 8] @ [Act (ResumeGame ''a'')]) e)
   in 2 * 10 ^ 9 - IntroSpeakerStartedAt t = 10 ^ 9 - IntroSpeakerStartedAt (est demo_game)"
proof -
  let ?e = "demo_game\<lparr>eclock := \<lambda>n. 10 ^ 9 * int (Suc n)\<rparr>"
  have "pausable (est demo_game) \<and> HostID (est demo_game) = ''a'' \<and> Phase (est demo_game) = PhaseIntro"
    by code_simp
  then show ?thesis
    using pause_resume_exact [of ?e "''a''" demo_lib "[7, 8]"] by (simp add: Let_def)
qed

section \<open>The length of a night\<close>

text \<open>When the night that is now in \<open>step\<close>, with deadline \<open>d\<close>, will be resolved.\<close>

definition night_end :: "options \<Rightarrow> night_step \<Rightarrow> time \<Rightarrow> time" where
  "night_end opts step d =
     (let m = seconds (nightStepSeconds opts NightStepMafia);
          p = seconds (nightStepSeconds opts NightStepPolice);
          q = seconds (nightStepSeconds opts NightStepDoctor) in
      case step of
        NightStepIntro \<Rightarrow> d + m + p + q
      | NightStepMafia \<Rightarrow> d + p + q
      | NightStepPolice \<Rightarrow> d + q
      | _ \<Rightarrow> d)"

definition night_seconds_ok :: "options \<Rightarrow> bool" where
  "night_seconds_ok opts \<longleftrightarrow>
     NightMafiaSeconds opts \<le> max_seconds \<and> NightPoliceSeconds opts \<le> max_seconds \<and>
     NightDoctorSeconds opts \<le> max_seconds"

lemma night_step_seconds_nonneg:
  assumes "night_seconds_ok opts"
  shows "0 \<le> seconds (nightStepSeconds opts step)"
  by (rule seconds_nonneg)
     (use assms in \<open>auto simp: night_seconds_ok_def nightStepSeconds_def max_seconds_def Let_def
        split: night_step.split\<close>)

lemma night_end_next:
  assumes "step \<in> {NightStepIntro, NightStepMafia, NightStepPolice}"
  shows "night_end opts step d =
    night_end opts (nextNightStep step) (d + seconds (nightStepSeconds opts (nextNightStep step)))"
  using assms by (auto simp: night_end_def Let_def)

lemma night_end_ge: "night_seconds_ok opts \<Longrightarrow> d \<le> night_end opts step d"
  using night_step_seconds_nonneg [of opts]
  by (auto simp: night_end_def Let_def add_nonneg_nonneg add.assoc split: night_step.split)

lemma night_loop_Phase:
  assumes "game_inv (est e)" "Phase (est e) = PhaseNight" "rand_ok lib"
    "night_seconds_ok (Settings (est e))" "0 < NightStepDeadline (est e)"
  shows "Phase (est (fst (night_loop lib now e evs))) =
    (if now < night_end (Settings (est e)) (NightStep (est e)) (NightStepDeadline (est e))
     then PhaseNight else PhaseDay)"
  using assms
proof (induction lib now e evs rule: night_loop.induct)
  case (1 lib now e evs)
  let ?s = "est e" and ?next = "nextNightStep (NightStep (est e))"
  note n = inv_night [OF 1(2,3)]
  have some: "\<not> (NightStep ?s = NightStepNone \<or> NightStepDeadline ?s = 0)" using n(4) 1(6) by auto
  consider (early) "now < NightStepDeadline ?s"
    | (resolved) "\<not> now < NightStepDeadline ?s" "NightStep ?s = NightStepDoctor"
    | (step) "\<not> now < NightStepDeadline ?s" "NightStep ?s \<in> {NightStepIntro, NightStepMafia, NightStepPolice}"
    using n(4) by auto
  then show ?case
  proof cases
    case early
    with some 1(3) night_end_ge [OF 1(5), of "NightStepDeadline ?s" "NightStep ?s"] show ?thesis
      by (auto simp: night_loop.simps [of lib now e evs] Let_def)
  next
    case resolved
    let ?e = "upd (\<lambda>s. s\<lparr>NightStep := NightStepNone, NightStepDeadline := zero_time\<rparr>) e"
    obtain e' out where "resolveNight lib ?e = (e', Inr out)"
      using inv_resolve_night [of ?e lib] inv_clear_step [OF n(1,2)] n(3,5) \<open>rand_ok lib\<close>
      by (cases "resolveNight lib ?e") auto
    with resolved some resolveNight_Inr_Phase [OF this] show ?thesis
      by (simp add: night_loop.simps [of lib now e evs] Let_def night_end_def)
  next
    case step
    let ?b = "beginNightStep ?next (NightStepDeadline ?s) e"
    have nx: "?next \<noteq> NightStepResolved" "?next \<in> {NightStepIntro, NightStepMafia, NightStepPolice, NightStepDoctor}"
      using step(2) by auto
    have b: "game_inv (est (fst ?b))" using inv_begin_step [OF 1(2,3) nx(2)] .
    have "est (fst ?b) = ?s\<lparr>NightStep := ?next,
        NightStepDeadline := NightStepDeadline ?s + seconds (nightStepSeconds (Settings ?s) ?next)\<rparr>"
      by (simp add: beginNightStep_def Let_def)
    with 1(1) [OF refl some step(1) refl refl nx(1) refl prod.collapse b] step some nx 1(3-6)
      night_step_seconds_nonneg [OF 1(5), of ?next]
    show ?thesis
      by (simp add: night_loop.simps [of lib now e evs] Let_def split_beta night_end_next [OF step(2)])
  qed
qed



section \<open>What the night does\<close>

lemma startDay_frame:
  "Players (est (fst (startDay now evs e))) = Players (est e)"
  "Phase (est (fst (startDay now evs e))) = PhaseDay"
  "Day (est (fst (startDay now evs e))) = Day (est e) + 1"
  "quiet (est (fst (startDay now evs e)))"
  "\<exists>ev. snd (startDay now evs e) = Inr (ev # evs)"
  by (simp_all add: startDay_eq scheduleGameEnd_est day_state_def quiet_def Let_def split: option.split)

text \<open>
  C4: the night's resolution. In a reachable game at night, resolving it always succeeds: exactly
  the mafia's target dies, unless there is none or the doctor chose the same player, in which
  case nobody does; the day count goes up by one, it is day, the secret actions are cleared, and
  the announcement is the death of that player or a peaceful night.
\<close>
theorem night_resolution:
  assumes "rand_ok lib" "reachable lib e" "Phase (est e) = PhaseNight"
  shows "\<exists>e' evs. resolveNight lib e = (e', Inr evs) \<and>
    (let s = est e; t = est e' in
     Phase t = PhaseDay \<and> Day t = Day s + 1 \<and> quiet t \<and>
     (case PendingMafiaTarget s of
        Some k \<Rightarrow>
          if PendingDoctorTarget s = Some k then Players t = Players s \<and> pub PeacefulNight \<in> set evs
          else alive_ids t = alive_ids s - {k} \<and> k \<in> alive_ids s \<and> pub (DeathAnnounced k) \<in> set evs
      | None \<Rightarrow> Players t = Players s \<and> pub PeacefulNight \<in> set evs))"
proof -
  let ?s = "est e"
  note n = inv_night [OF reachable_inv [OF assms(1,2)] assms(3)]
  have d: "distinct (map ID (Players ?s))" using n(1) by (simp add: core_parts)
  have peace: "\<exists>e' evs. startDay now [pub PeacefulNight] (next_clock e) = (e', Inr evs) \<and>
      Phase (est e') = PhaseDay \<and> Day (est e') = Day ?s + 1 \<and> quiet (est e') \<and>
      Players (est e') = Players ?s \<and> pub PeacefulNight \<in> set evs" for now
    using startDay_frame [of now "[pub PeacefulNight]" "next_clock e"]
    by (cases "startDay now [pub PeacefulNight] (next_clock e)") auto
  show ?thesis
  proof (cases "night_victim ?s")
    case None
    with peace [of "eclock e 0"] show ?thesis
      by (auto simp: resolveNight_die night_victim_def Let_def split: option.splits if_splits)
  next
    case (Some k)
    then have k: "PendingMafiaTarget ?s = Some k" "PendingDoctorTarget ?s \<noteq> Some k"
      by (auto simp: night_victim_def split: option.splits if_splits)
    have alive: "k \<in> alive_ids ?s"
      using reachable_inv [OF assms(1,2)] assms(3) k(1) by (auto simp: game_inv_def phase_ok_def night_ok_def)
    obtain p where p: "FindPlayer ?s k = Some p"
      using n(5) [OF k(1)] FindPlayer_None by fastforce
    obtain r where t: "est (fst (die lib k (next_clock e))) = (kill k ?s)\<lparr>MafiaRepresentativeID := r\<rparr>"
      using die_est [of lib k "next_clock e"] by auto
    let ?evs = "pub (DeathAnnounced k) # snd (die lib k (next_clock e))"
    let ?d = "startDay (eclock e 0) ?evs (fst (die lib k (next_clock e)))"
    note f = startDay_frame [of "eclock e 0" ?evs "fst (die lib k (next_clock e))"]
    from f(5) obtain ev where "snd ?d = Inr (ev # ?evs)" by blast
    then have "resolveNight lib e = (fst ?d, Inr (ev # ?evs))"
      by (simp add: resolveNight_die Some p split_beta prod_eq_iff Let_def)
    moreover have "Players (est (fst ?d)) = Players (kill k ?s)" using f(1) by (simp add: t)
    then have "alive_ids (est (fst ?d)) = alive_ids ?s - {k}"
      using kill_alive_ids [OF d, of k] by simp
    ultimately show ?thesis
      using f(2,3,4) k alive by (simp add: Let_def t)
  qed
qed

theorem night_resolution_witness:
  "\<exists>e' evs. resolveNight demo_lib demo_attack = (e', Inr evs) \<and>
     alive_ids (est e') = alive_ids (est demo_attack) - {''a''} \<and> pub (DeathAnnounced ''a'') \<in> set evs"
proof -
  have "PendingMafiaTarget (est demo_attack) = Some ''a'' \<and> PendingDoctorTarget (est demo_attack) = None \<and>
      Phase (est demo_attack) = PhaseNight"
    by code_simp
  moreover have "reachable demo_lib demo_attack"
    unfolding demo_attack_def by (rule reachable_exec [OF demo_reachable])
  ultimately show ?thesis
    using night_resolution [OF demo_lib_ok, of demo_attack] by (force simp: Let_def)
qed

end
