(* ===== verification/Scenarios.thy ===== *)
theory Scenarios
  imports Timing
begin

text \<open>
  What each player action needs to be accepted, and runs of the engine that show behaviour its
  documentation does not announce.
\<close>

section \<open>Which actions are accepted\<close>

definition accepted :: "result \<Rightarrow> bool" where
  "accepted r \<longleftrightarrow> (case res_out r of Inr evs \<Rightarrow> True | Inl err \<Rightarrow> False)"

lemma accepted_simps [simp]:
  "\<not> accepted (fail e err)" "accepted (ok e evs)"
  "accepted (guard g (fail e) r) \<longleftrightarrow> g = None \<and> accepted r"
  "accepted (if b then fail e err else r) \<longleftrightarrow> \<not> b \<and> accepted r"
  by (cases g; simp add: accepted_def)+

text \<open>The demonstration game in the mafia's sub-step of its first night.\<close>

definition demo_ready :: engine where
  "demo_ready = exec demo_lib (to_vote @ map (\<lambda>i. Act (SubmitVote i '''')) demo_ids @ [At (21 * 10 ^ 9)]) demo_game"

lemma demo_ready_reachable: "reachable demo_lib demo_ready"
  unfolding demo_ready_def by (rule reachable_exec [OF demo_reachable])

definition kill_allowed :: "state \<Rightarrow> player_id \<Rightarrow> player_id \<Rightarrow> bool" where
  "kill_allowed s m t \<longleftrightarrow>
     Phase s = PhaseNight \<and> NightStep s = NightStepMafia \<and> m = MafiaRepresentativeID s \<and>
     LiveMafiaCount s \<noteq> 0 \<and> PendingMafiaTarget s = None \<and>
     (\<exists>p\<in>set (Players s). ID p = t \<and> live_citizen p)"

lemma mafia_kill_accepted_iff:
  "accepted (handleMafiaKill m t e) \<longleftrightarrow>
     (let s = est e in Phase s = PhaseNight \<and> NightStep s = NightStepMafia \<and>
        (\<exists>p. FindPlayer s m = Some p \<and> live_mafia p) \<and> m = MafiaRepresentativeID s \<and>
        PendingMafiaTarget s = None \<and> (\<exists>p. FindPlayer s t = Some p \<and> live_citizen p))"
  by (cases "FindPlayer (est e) t"; cases "FindPlayer (est e) m")
     (auto simp: handleMafiaKill_def Let_def ensureRole_None ensureAlive_None
       simp del: ensureAlive.simps)

lemma mafia_kill_effect:
  "accepted (handleMafiaKill m t e) \<Longrightarrow>
   handleMafiaKill m t e = ok (upd (\<lambda>s. s\<lparr>PendingMafiaTarget := Some t\<rparr>) e) [mafia (MafiaTargetSelected m t)]"
  unfolding mafia_kill_accepted_iff
  by (auto simp: handleMafiaKill_def Let_def ensureRole_def ensurePhase_def)

lemma rep_FindPlayer:
  assumes "core s"
  shows "LiveMafiaCount s \<noteq> 0 \<longleftrightarrow> (\<exists>p. FindPlayer s (MafiaRepresentativeID s) = Some p \<and> live_mafia p)"
proof -
  have d: "distinct (map ID (Players s))" using assms by (simp add: core_parts)
  show ?thesis
    using assms count_players_pos [of live_mafia "Players s"]
    by (auto simp: core_def rep_ok_def set_LivingMafiaIDs LiveMafiaCount_def FindPlayer_iff [OF d]) blast
qed

text \<open>
  The mafia's kill order. In a reachable game it is accepted exactly when it is the mafia's
  sub-step of the night, the sender is the representative, the target is a living player who is
  not mafia, and no target has been chosen this night; the target is then stored and only the
  mafia are told.
\<close>
theorem mafia_kill_accepted:
  assumes "rand_ok lib" "reachable lib e"
  shows "let s = est e; r = Apply lib (SubmitMafiaKill m t) e in
    (accepted r \<longleftrightarrow> kill_allowed s m t) \<and>
    (accepted r \<longrightarrow> r = ok (upd (\<lambda>s. s\<lparr>PendingMafiaTarget := Some t\<rparr>) e) [mafia (MafiaTargetSelected m t)])"
proof -
  let ?s = "est e"
  have c: "core ?s" using reachable_inv [OF assms] by (simp add: game_inv_def)
  then have d: "distinct (map ID (Players ?s))" by (simp add: core_parts)
  have "accepted (handleMafiaKill m t e) \<longleftrightarrow> kill_allowed ?s m t"
    using rep_FindPlayer [OF c] unfolding mafia_kill_accepted_iff kill_allowed_def Let_def
    by (auto simp: FindPlayer_iff [OF d])
  moreover have "Phase ?s = PhaseEnd \<Longrightarrow> \<not> kill_allowed ?s m t"
    by (simp add: kill_allowed_def)
  ultimately show ?thesis
    using mafia_kill_effect [of m t e] by (simp add: Apply_def Let_def) blast
qed

theorem mafia_kill_accepted_witness:
  "kill_allowed (est demo_ready) ''f'' ''b'' \<and>
   PendingMafiaTarget (est (res_engine (Apply demo_lib (SubmitMafiaKill ''f'' ''b'') demo_ready))) = Some ''b''"
proof -
  have "accepted (Apply demo_lib (SubmitMafiaKill ''f'' ''b'') demo_ready)"
    by code_simp
  then show ?thesis
    using mafia_kill_accepted [OF demo_lib_ok demo_ready_reachable, of "''f''" "''b''"] by (simp add: Let_def)
qed

section \<open>Finding: a vote during the result buffer\<close>

definition buffer_lobby :: "player list" where
  "buffer_lobby = map (\<lambda>i. \<lparr>ID = i, Name = i, Alive = False, Role = RoleNone, Keyword = ''''\<rparr>)
     [''a'', ''b'', ''c'', ''d'', ''e'', ''f'', ''g'']"

definition buffer_game :: engine where
  "buffer_game =
     res_engine (Start demo_lib ''g'' ''a'' buffer_lobby (DefaultOptions 7) (New demo_pool (\<lambda>_. 100) (replicate 8 0)))"

lemma buffer_reachable: "reachable demo_lib buffer_game"
proof -
  let ?r = "Start demo_lib ''g'' ''a'' buffer_lobby (DefaultOptions 7) (New demo_pool (\<lambda>_. 100) (replicate 8 0))"
  have "case res_out ?r of Inr x \<Rightarrow> True | Inl x \<Rightarrow> False" by code_simp
  then obtain s evs where r: "?r = (buffer_game, s, Inr evs)"
    by (cases ?r) (auto simp: buffer_game_def split: sum.splits)
  have "lobby_ok buffer_lobby (DefaultOptions 7)"
    by (simp add: lobby_ok_def buffer_lobby_def options_in_range_def DefaultOptions_def
        recommendedMafiaCount_def int64_range_def)
  from started.intros [OF demo_pool_ok this r] show ?thesis by (auto simp: reachable_def)
qed

definition ballots :: "(player_id \<times> player_id) list \<Rightarrow> command list" where
  "ballots vs = map (\<lambda>(v, t). Act (SubmitVote v t)) vs"

text \<open>
  The citizens \<open>f\<close> (vote) and \<open>e\<close> (night) die, then \<open>d\<close> is voted out and the mafia \<open>b\<close>, \<open>g\<close>
  equal the citizens \<open>a\<close>, \<open>c\<close>: the end is scheduled. During the five seconds of the result
  buffer \<open>a\<close> changes the ballot.
\<close>

definition buffer_script :: "command list" where
  "buffer_script =
     [At (141 * 10 ^ 9), Act (EndDiscussionEarly ''a'')]
   @ ballots (map (\<lambda>p. (ID p, ''f'')) buffer_lobby)
   @ [At (21 * 10 ^ 9), Act (SubmitMafiaKill ''b'' ''e''), Act (EndNightEarly ''a''), Act (EndDiscussionEarly ''a'')]
   @ ballots [(''a'', ''d''), (''b'', ''d''), (''g'', ''d''), (''c'', ''b''), (''d'', ''b'')]"

definition buffer_end :: engine where
  "buffer_end = exec demo_lib (buffer_script @ [Act (SubmitVote ''a'' ''b''), At (10 ^ 11)]) buffer_game"

text \<open>
  A vote is still open during the result buffer. There is a game in which a vote eliminates
  one player and schedules the mafia's win, a further ballot in the same vote eliminates a
  second player, and the game is then declared won by the mafia although the living mafia are
  fewer than the living citizens.
\<close>
theorem revote_in_buffer:
  "\<exists>e. reachable demo_lib e \<and> Phase (est e) = PhaseEnd \<and> EndReason (est e) = Some EndMafiaWin \<and>
     LiveMafiaCount (est e) < LiveCitizenSideCount (est e)"
proof (intro exI conjI)
  show "reachable demo_lib buffer_end"
    unfolding buffer_end_def by (rule reachable_exec [OF buffer_reachable])
  show "Phase (est buffer_end) = PhaseEnd" "EndReason (est buffer_end) = Some EndMafiaWin"
    "LiveMafiaCount (est buffer_end) < LiveCitizenSideCount (est buffer_end)"
    by code_simp+
qed

section \<open>Finding: the state returned by the tick that ends the game\<close>

text \<open>
  The tick that fires a scheduled end returns a stale state. The engine moves to END, but
  the state value handed to the caller, the one the session layer persists, is still in the
  previous phase.
\<close>
theorem fire_returns_stale_state:
  assumes "rand_ok lib" "reachable lib e" "\<not> Paused (est e)" "LastTickAt (est e) < now"
    "PendingGameEnd (est e) = Some g" "geDeadline g \<le> now"
  shows "Phase (Snapshot (res_engine (Tick lib now e))) = PhaseEnd \<and>
    Phase (res_state (Tick lib now e)) = Phase (est e) \<and> Phase (est e) \<noteq> PhaseEnd"
proof -
  have o: "outcome_ok (est e)" using reachable_inv [OF assms(1,2)] by (simp add: game_inv_def)
  with assms(5) obtain w where w: "geWinner g = Some w" "Phase (est e) \<noteq> PhaseEnd"
    by (auto simp: outcome_ok_def verdict_ok_def split: if_splits)
  with assms(3-6) show ?thesis
    by (simp add: Tick_def Let_def firePendingEnd_def endGame_def Snapshot_def)
qed

definition buffer_wait :: engine where
  "buffer_wait = exec demo_lib buffer_script buffer_game"

theorem fire_returns_stale_state_witness:
  "Phase (Snapshot (res_engine (Tick demo_lib (10 ^ 11) buffer_wait))) = PhaseEnd \<and>
   Phase (res_state (Tick demo_lib (10 ^ 11) buffer_wait)) = PhaseVote"
proof -
  have "reachable demo_lib buffer_wait"
    unfolding buffer_wait_def by (rule reachable_exec [OF buffer_reachable])
  moreover have "\<not> Paused (est buffer_wait) \<and> LastTickAt (est buffer_wait) < 10 ^ 11 \<and>
      Phase (est buffer_wait) = PhaseVote \<and>
      PendingGameEnd (est buffer_wait) =
        Some \<lparr>geReason = EndMafiaWin, geWinner = Some TeamMafia, geDeadline = 5000000100\<rparr>"
    by code_simp
  ultimately show ?thesis
    using fire_returns_stale_state [OF demo_lib_ok, of buffer_wait "10 ^ 11"] by simp
qed



end
