(* ===== verification/View.thy ===== *)
theory View
  imports Scenarios
begin

text \<open>
  Who learns what: the audience of the engine's events (\<open>internal/game/event.go\<close>) and the masked
  state a player receives when resuming (\<open>internal/session/view.go\<close>).
\<close>

section \<open>The audience of an event\<close>

text \<open>
  Facts about one player go to that player, facts about the mafia to the mafia, everything else
  is public.
\<close>

definition routed :: "envelope \<Rightarrow> bool" where
  "routed env \<longleftrightarrow>
     (case Event env of
        RoleRevealedToPlayer pid r k \<Rightarrow> Visibility env = VisPlayer \<and> Recipient env = pid
      | PoliceResult pid t tm \<Rightarrow> Visibility env = VisPlayer \<and> Recipient env = pid
      | MafiaCohortRevealed ms r \<Rightarrow> Visibility env = VisRoleMafia
      | MafiaTargetSelected m t \<Rightarrow> Visibility env = VisRoleMafia
      | MafiaRepresentativeReassigned old new \<Rightarrow> Visibility env = VisRoleMafia
      | _ \<Rightarrow> Visibility env = VisPublic)"

definition routes :: "result \<Rightarrow> bool" where
  "routes r \<longleftrightarrow> (\<forall>evs. res_out r = Inr evs \<longrightarrow> list_all routed evs)"

lemma routes_simps [simp]:
  "routes (fail e err)" "routes (ok e evs) \<longleftrightarrow> list_all routed evs"
  "routes (guard g (fail e) r) \<longleftrightarrow> (g = None \<longrightarrow> routes r)"
  by (auto simp: routes_def guard_def split: option.splits)

lemma routed_die: "list_all routed (snd (die lib k e))"
  by (simp add: die_def reassignMafiaRepresentative_def Let_def split_beta routed_def)

lemma routed_enterNight: "list_all routed (snd (enterNight e))"
  by (simp add: enterNight_def beginNightStep_def Let_def Now_def routed_def)

lemma routed_elimination: "list_all routed (snd (applyElimination lib k e))"
  using routed_die [of lib k e] routed_enterNight
  by (simp add: applyElimination_die afterElimination_def transitionVoteToNight_def Let_def split_beta
      routed_def split: option.split)

lemma routed_tally: "list_all routed (snd (tally lib e))"
  using routed_elimination [of lib _ e] routed_enterNight [of e]
  by (simp add: tally_cases Let_def split_beta) (simp add: routed_def)

lemma routed_resolve: "snd (resolveNight lib e) = Inr evs \<Longrightarrow> list_all routed evs"
  using routed_die [of lib _ "next_clock e"]
  by (auto simp: resolveNight_die startDay_eq Let_def split_beta routed_def split: option.splits)

lemma routes_intro: "list_all routed evs \<Longrightarrow> snd (intro_loop now d e evs) = Inr out \<Longrightarrow> list_all routed out"
proof (induction now d e evs arbitrary: out rule: intro_loop.induct)
  case (1 now d e evs)
  show ?case
    using 1(1) [OF refl refl _ _ refl] 1(2,3)
    by (auto simp: intro_loop.simps [of now d e evs] transitionIntroToDay_def ok_def Let_def routed_def
        split: if_splits option.splits)
qed

lemma routes_night: "list_all routed evs \<Longrightarrow> snd (night_loop lib now e evs) = Inr out \<Longrightarrow> list_all routed out"
proof (induction lib now e evs arbitrary: out rule: night_loop.induct)
  case (1 lib now e evs)
  have "list_all routed (snd (beginNightStep st t e))" for st t
    by (simp add: beginNightStep_def Let_def routed_def)
  then show ?case
    using 1(1) [OF refl _ _ refl refl _ refl prod.collapse] 1(2,3)
    by (auto simp: night_loop.simps [of lib now e evs] Let_def split_beta dest: routed_resolve
        split: if_splits sum.splits)
qed

lemma routes_with_state: "(\<And>evs. snd r = Inr evs \<Longrightarrow> list_all routed evs) \<Longrightarrow> routes (with_state r)"
  by (cases r; cases "snd r") (auto simp: with_state_def)

lemma routes_Tick: "routes (Tick lib now e)"
proof -
  have "routes (tickIntro now (touch now e))" "routes (tickNight lib now (touch now e))"
    by (auto simp: tickIntro_def tickNight_def intro!: routes_with_state elim: routes_intro [rotated]
        routes_night [rotated])
  moreover have "routes (tickDay now prev (touch now e))" for prev
    by (auto simp: tickDay_def transitionDayToVote_def ok_def routes_def Let_def threshold_events_def
        list_all_iff routed_def)
  ultimately show ?thesis
    unfolding touch_def
    by (simp add: Tick_def Let_def firePendingEnd_def endGame_def split: phase.split option.split)
       (simp add: routes_def routed_def)
qed
lemma routed_start: "list_all routed (start_events s asg p n)"
  by (auto simp: start_events_def list_all_iff routed_def)

lemma routes_advance: "routes (advanceSpeaker e)"
  by (simp add: advanceSpeaker_def transitionIntroToDay_def Let_def Now_def routed_def split: option.split)

lemma routes_end_night: "routes (handleEndNightEarly lib h e)"
proof -
  obtain e' out where "resolveNight lib e = (e', out)" by fastforce
  with routed_resolve [of lib e] show ?thesis
    by (cases out) (simp_all add: handleEndNightEarly_def Let_def)
qed

lemma routes_handlers:
  "routes (handleMafiaKill p t e)" "routes (handleDoctorHeal p t e)" "routes (handlePoliceCheck p t e)"
  "routes (handleEndDiscussionEarly p e)" "routes (handleToggleVoice p b e)" "routes (handleForceEnd p e)"
  "routes (handlePauseGame p e)" "routes (handleResumeGame p e)" "routes (handleEndSelfIntro p e)"
  "routes (handleAdvanceIntro p e)" "routes (handleVote lib p t e)"
  by (simp_all add: handleMafiaKill_def handleDoctorHeal_def handlePoliceCheck_def handleEndDiscussionEarly_def
      transitionDayToVote_def handleToggleVoice_def handleForceEnd_def handlePauseGame_def handleResumeGame_def
      handleEndSelfIntro_def handleAdvanceIntro_def handleVote_def routes_advance routed_tally Let_def Now_def
      split_beta split: option.split)
     (simp_all add: routed_def)

lemma routes_start_game: "routes (handleStartGame lib h opts e)"
  by (simp add: handleStartGame_def Let_def split_beta routed_start split: option.split prod.split sum.split)

lemma routes_Start: "routes (Start lib g h ps opts e)"
  by (simp add: Start_def Let_def split_beta routed_start split: option.split prod.split sum.split)

lemma routes_Apply: "routes (Apply lib a e)"
  by (cases a) (simp_all add: Apply_def routes_handlers routes_end_night routes_start_game)

text \<open>
  C33: events reach only their audience. Whatever the state and the input, every event the engine
  emits carries the right audience: a role, a keyword or an investigation result is addressed to
  the one player concerned, the cohort, its target and its representative to the mafia only, and
  nothing else is private.
\<close>
theorem engine_events_routed:
  "routes (Start lib g h ps opts e) \<and> routes (Apply lib a e) \<and> routes (Tick lib now e)"
  by (intro conjI routes_Start routes_Apply routes_Tick)

section \<open>view.go\<close>

record private_view =
  pvState :: state
  YourRole :: role
  YourKeyword :: string
  YourTeam :: team
  MafiaCohort :: "player_id list"
  IsHost :: bool

definition scrub :: "bool \<Rightarrow> player_id \<Rightarrow> player \<Rightarrow> player" where
  "scrub revealAll pid p =
     p\<lparr>Role := (if \<not> revealAll then RoleNone else Role p),
       Keyword := (if ID p \<noteq> pid then '''' else Keyword p)\<rparr>"

definition readd_self :: "player_id \<Rightarrow> role \<Rightarrow> string \<Rightarrow> player \<Rightarrow> player" where
  "readd_self pid myRole myKeyword p =
     (if pid \<noteq> '''' \<and> ID p = pid then p\<lparr>Role := myRole, Keyword := myKeyword\<rparr> else p)"

definition is_ally :: "state \<Rightarrow> player \<Rightarrow> bool" where
  "is_ally s p = (case FindPlayer s (ID p) of None \<Rightarrow> False | Some orig \<Rightarrow> Role orig = RoleMafia)"

definition BuildPrivateView :: "state \<Rightarrow> player_id \<Rightarrow> player_id \<Rightarrow> private_view" where
  "BuildPrivateView s pid hostID =
     (let me = (if pid \<noteq> '''' then FindPlayer s pid else None);
          myRole = (case me of None \<Rightarrow> RoleNone | Some m \<Rightarrow> Role m);
          myKeyword = (case me of None \<Rightarrow> '''' | Some m \<Rightarrow> Keyword m);
          myTeam = (case me of None \<Rightarrow> TeamNone | Some m \<Rightarrow> TeamOf (Role m));
          isMafia = (case me of None \<Rightarrow> False | Some m \<Rightarrow> Role m = RoleMafia);
          isPolice = (case me of None \<Rightarrow> False | Some m \<Rightarrow> Role m = RolePolice);
          view = (if \<not> isPolice then s\<lparr>PoliceHistory := []\<rparr> else s);
          revealAll = (Phase s = PhaseEnd);
          players = map (scrub revealAll pid) (Players view);
          players = map (readd_self pid myRole myKeyword) players;
          cohort = (if isMafia then map ID (filter (is_ally s) players) else []);
          players = (if isMafia
                     then map (\<lambda>p. if is_ally s p then p\<lparr>Role := RoleMafia\<rparr> else p) players
                     else players)
      in \<lparr>pvState = view\<lparr>Players := players\<rparr>, YourRole = myRole, YourKeyword = myKeyword,
          YourTeam = myTeam, MafiaCohort = cohort, IsHost = (pid = hostID \<and> pid \<noteq> '''')\<rparr>)"

text \<open>What viewer \<open>pid\<close> may know about player \<open>p\<close>.\<close>

definition viewer_mafia :: "state \<Rightarrow> player_id \<Rightarrow> bool" where
  "viewer_mafia s pid \<longleftrightarrow> (\<exists>q\<in>set (Players s). ID q = pid \<and> Role q = RoleMafia)"

definition may_see_role :: "state \<Rightarrow> player_id \<Rightarrow> player \<Rightarrow> bool" where
  "may_see_role s pid p \<longleftrightarrow>
     Phase s = PhaseEnd \<or> ID p = pid \<or> viewer_mafia s pid \<and> Role p = RoleMafia"

definition masked :: "state \<Rightarrow> player_id \<Rightarrow> player \<Rightarrow> player" where
  "masked s pid p =
     p\<lparr>Role := (if may_see_role s pid p then Role p else RoleNone),
       Keyword := (if ID p = pid then Keyword p else '''')\<rparr>"

lemma view_player:
  fixes pid :: player_id
  assumes "distinct (map ID (Players s))" "'''' \<notin> player_ids s" "p \<in> set (Players s)"
  defines "me \<equiv> (if pid \<noteq> '''' then FindPlayer s pid else None)"
  defines "q \<equiv> readd_self pid (case me of None \<Rightarrow> RoleNone | Some m \<Rightarrow> Role m)
      (case me of None \<Rightarrow> '''' | Some m \<Rightarrow> Keyword m) (scrub (Phase s = PhaseEnd) pid p)"
  shows "(if case me of None \<Rightarrow> False | Some m \<Rightarrow> Role m = RoleMafia
          then if is_ally s q then q\<lparr>Role := RoleMafia\<rparr> else q else q) = masked s pid p"
proof -
  have f: "FindPlayer s (ID p) = Some p" using assms(1,3) by (simp add: FindPlayer_iff)
  have "ID q = ID p" by (simp add: q_def readd_self_def scrub_def)
  with f have "is_ally s q \<longleftrightarrow> Role p = RoleMafia" by (simp add: is_ally_def)
  moreover have "viewer_mafia s pid \<longleftrightarrow> (case me of None \<Rightarrow> False | Some m \<Rightarrow> Role m = RoleMafia)"
  proof (cases "pid = ''''")
    case True
    with assms(2) show ?thesis by (auto simp: me_def viewer_mafia_def image_iff)
  next
    case False
    have "viewer_mafia s pid \<longleftrightarrow> (\<exists>q. FindPlayer s pid = Some q \<and> Role q = RoleMafia)"
      by (auto simp: viewer_mafia_def FindPlayer_iff [OF assms(1)])
    with False show ?thesis by (simp add: me_def split: option.split)
  qed
  moreover have "ID p = pid \<Longrightarrow> me = Some p"
    using f assms(2,3) by (auto simp: me_def image_iff)
  moreover have "ID p \<noteq> ''''" using assms(2,3) by (auto simp: image_iff)
  ultimately show ?thesis
    by (auto simp: q_def masked_def may_see_role_def readd_self_def scrub_def)
qed

lemma view_players:
  assumes "distinct (map ID (Players s))" "'''' \<notin> player_ids s"
  shows "Players (pvState (BuildPrivateView s pid h)) = map (masked s pid) (Players s)"
proof -
  obtain me where me: "(if pid \<noteq> '''' then FindPlayer s pid else None) = me" by blast
  show ?thesis
    using view_player [OF assms, of _ pid, unfolded me]
    by (cases "case me of None \<Rightarrow> False | Some m \<Rightarrow> Role m = RoleMafia")
       (simp_all add: BuildPrivateView_def Let_def comp_def me)
qed

lemma inv_ids: "game_inv s \<Longrightarrow> distinct (map ID (Players s)) \<and> '''' \<notin> player_ids s"
  by (simp add: game_inv_def core_parts)

text \<open>
  C11: the masking of a player's view. In every reachable game, for every viewer (the public
  screen being the empty identifier), the view shows a player's role only if the game is over,
  the player is the viewer, or both are mafia; it shows a keyword only to its owner; every other
  attribute of the players is unchanged; and the investigation log is shown to the police only.
\<close>
theorem view_masking:
  assumes "rand_ok lib" "reachable lib e"
  shows "let s = est e; v = BuildPrivateView s pid h in
    length (Players (pvState v)) = length (Players s) \<and>
    (\<forall>i < length (Players s). let p = Players s ! i; q = Players (pvState v) ! i in
       ID q = ID p \<and> Name q = Name p \<and> Alive q = Alive p \<and>
       (if Phase s = PhaseEnd \<or> ID p = pid \<or> viewer_mafia s pid \<and> Role p = RoleMafia
        then Role q = Role p else Role q = RoleNone) \<and>
       (if ID p = pid then Keyword q = Keyword p else Keyword q = '''')) \<and>
    ((\<exists>p\<in>set (Players s). ID p = pid \<and> Role p = RolePolice) \<or> PoliceHistory (pvState v) = [])"
proof -
  have i: "distinct (map ID (Players (est e)))" "'''' \<notin> player_ids (est e)"
    using inv_ids [OF reachable_inv [OF assms]] by simp_all
  have "PoliceHistory (pvState (BuildPrivateView (est e) pid h)) = []"
    if "\<not> (\<exists>p\<in>set (Players (est e)). ID p = pid \<and> Role p = RolePolice)"
    using that FindPlayer_Some [of "est e" pid] by (auto simp: BuildPrivateView_def Let_def split: option.split)
  then show ?thesis
    by (auto simp: Let_def view_players [OF i] masked_def may_see_role_def)
qed

theorem view_masking_witness:
  "map Role (Players (pvState (BuildPrivateView (est demo_game) ''a'' ''''))) =
     [RoleCitizen, RoleNone, RoleNone, RoleNone, RoleNone, RoleNone]
   \<and> length (Players (pvState (BuildPrivateView (est demo_game) ''a'' ''''))) = length (Players (est demo_game))"
proof
  show "map Role (Players (pvState (BuildPrivateView (est demo_game) ''a'' ''''))) =
     [RoleCitizen, RoleNone, RoleNone, RoleNone, RoleNone, RoleNone]"
    by code_simp
qed (use view_masking [OF demo_lib_ok demo_reachable, of "''a''" "''''"] in \<open>simp add: Let_def\<close>)

text \<open>
  C34: masked players carry no secret. Two states whose players differ only in the roles and
  keywords of players other than the viewer give a viewer who is not mafia, before the end of
  the game, the same list of players.
\<close>
theorem view_noninterference:
  assumes "distinct (map ID (Players s))" "'''' \<notin> player_ids s" "Phase s \<noteq> PhaseEnd" "Phase s' \<noteq> PhaseEnd"
    and "\<not> viewer_mafia s pid" "\<not> viewer_mafia s' pid"
    and "list_all2 (\<lambda>p q. ID p = ID q \<and> Name p = Name q \<and> Alive p = Alive q \<and> (ID p = pid \<longrightarrow> p = q))
           (Players s) (Players s')"
  shows "Players (pvState (BuildPrivateView s pid h)) = Players (pvState (BuildPrivateView s' pid h))"
proof -
  have ids: "map ID (Players s) = map ID (Players s')"
    using assms(7) by (induction rule: list_all2_induct) simp_all
  then have d: "distinct (map ID (Players s'))" "'''' \<notin> player_ids s'"
    using assms(1,2) by (metis, metis list.set_map)
  have eq: "masked s pid p = masked s' pid q"
    if "ID p = ID q \<and> Name p = Name q \<and> Alive p = Alive q \<and> (ID p = pid \<longrightarrow> p = q)" for p q
  proof (cases "ID p = pid")
    case True
    with that show ?thesis by (simp add: masked_def may_see_role_def)
  next
    case False
    with that assms(3-6) show ?thesis by (simp add: masked_def may_see_role_def)
  qed
  have "map (masked s pid) (Players s) = map (masked s' pid) (Players s')"
    using assms(7)
  proof (induction rule: list_all2_induct)
    case (Cons p ps q qs)
    from eq [OF Cons(1)] Cons(3) show ?case by (simp only: list.map)
  qed simp
  then show ?thesis by (simp add: view_players assms(1,2) d)
qed

definition swapped_game :: state where
  "swapped_game = (est demo_game)\<lparr>Players :=
     map (\<lambda>p. if ID p = ''f'' then p\<lparr>Role := RoleCitizen\<rparr> else if ID p = ''e'' then p\<lparr>Role := RoleMafia\<rparr> else p)
       (Players (est demo_game))\<rparr>"

theorem view_noninterference_witness:
  "Players (pvState (BuildPrivateView (est demo_game) ''a'' '''')) =
   Players (pvState (BuildPrivateView swapped_game ''a'' ''''))"
proof (rule view_noninterference)
qed (code_simp, code_simp, code_simp, code_simp, code_simp, code_simp, code_simp)

section \<open>Finding: what the view does not mask\<close>

text \<open>
  The view names a mafia member. In every reachable game with a living mafia, the state in
  everybody's view, the public one included, still carries the representative's identifier, and
  the stored night targets: they are copied unmasked.
\<close>
theorem view_discloses_representative:
  assumes "rand_ok lib" "reachable lib e" "LiveMafiaCount (est e) \<noteq> 0"
  shows "let v = pvState (BuildPrivateView (est e) pid h) in
    (\<exists>p\<in>set (Players (est e)). ID p = MafiaRepresentativeID v \<and> live_mafia p) \<and>
    PendingMafiaTarget v = PendingMafiaTarget (est e) \<and> PendingDoctorTarget v = PendingDoctorTarget (est e)"
proof -
  have "rep_ok (est e)" using reachable_inv [OF assms(1,2)] by (simp add: game_inv_def core_def)
  then show ?thesis
    using assms(3) by (auto simp: BuildPrivateView_def Let_def rep_ok_def set_LivingMafiaIDs)
qed

theorem view_discloses_representative_witness:
  "MafiaRepresentativeID (pvState (BuildPrivateView (est demo_game) '''' '''')) = ''f'' \<and>
   (\<exists>p\<in>set (Players (est demo_game)). ID p = ''f'' \<and> live_mafia p)"
proof -
  have "MafiaRepresentativeID (pvState (BuildPrivateView (est demo_game) '''' '''')) = ''f'' \<and>
      LiveMafiaCount (est demo_game) = 1" by code_simp
  with view_discloses_representative [OF demo_lib_ok demo_reachable, of "''''" "''''"] show ?thesis
    by (simp add: Let_def)
qed

end
