(* ===== verification/Announce.thy ===== *)
theory Announce
  imports View
begin

text \<open>
  \<open>internal/announce\<close>: the Korean announcement catalog. The message constants are given by their
  code points; a Go string is its UTF-8 encoding, \<open>utf8\<close>. \<open>fmt.Sprintf\<close> is modelled for the two
  verbs the catalog uses, with the arguments already formatted.
\<close>

section \<open>Text\<close>

fun utf8_char :: "nat \<Rightarrow> nat list" where
  "utf8_char c =
     (if c < 0x80 then [c]
      else if c < 0x800 then [0xC0 + c div 64, 0x80 + c mod 64]
      else if c < 0x10000 then [0xE0 + c div 4096, 0x80 + c div 64 mod 64, 0x80 + c mod 64]
      else [0xF0 + c div 262144, 0x80 + c div 4096 mod 64, 0x80 + c div 64 mod 64, 0x80 + c mod 64])"

definition utf8 :: "nat list \<Rightarrow> string" where
  "utf8 cs = map char_of (concat (map utf8_char cs))"

fun Sprintf :: "string \<Rightarrow> string list \<Rightarrow> string" where
  "Sprintf (c # d # cs) (a # as) =
     (if c = CHR ''%'' \<and> (d = CHR ''d'' \<or> d = CHR ''s'') then a @ Sprintf cs as
      else c # Sprintf (d # cs) (a # as))"
| "Sprintf cs as = cs"

section \<open>catalog.go\<close>

datatype severity = SeverityNone | SeverityInfo | SeverityEmphasis | SeverityWarn

record announcement =
  Subtitle :: string
  AudioID :: string
  Severity :: severity
  ForPublicOnly :: bool

definition no_announcement :: announcement where
  "no_announcement = \<lparr>Subtitle = '''', AudioID = '''', Severity = SeverityNone, ForPublicOnly = False\<rparr>"

definition IsEmpty :: "announcement \<Rightarrow> bool" where
  "IsEmpty a \<longleftrightarrow> Subtitle a = ''''"

record catalog_context =
  GetName :: "(player_id \<Rightarrow> string) option"
  ctxIntroSeconds :: int

definition nameOf :: "catalog_context \<Rightarrow> player_id \<Rightarrow> string" where
  "nameOf c pid = (case GetName c of Some f \<Rightarrow> f pid | None \<Rightarrow> pid)"

section \<open>catalog_data.go\<close>

definition msgGameStarted :: string where
  "msgGameStarted =
     utf8 [0xB9C8, 0xD53C, 0xC544, 0x20, 0xAC8C, 0xC784, 0xC774, 0x20, 0xC2DC, 0xC791,
      0xB429, 0xB2C8, 0xB2E4, 0x2E, 0x20, 0xBAA8, 0xB4E0, 0x20, 0xC2DC, 0xBBFC,
      0xC740, 0x20, 0xCE68, 0xBB35, 0x20, 0xC18D, 0xC5D0, 0xC11C, 0x20, 0xC6B4,
      0xBA85, 0xC744, 0x20, 0xBC1B, 0xC544, 0xB4E4, 0xC774, 0xC2DC, 0xC624, 0x2E]"

definition msgPhaseIntro :: string where
  "msgPhaseIntro =
     utf8 [0xAC01, 0xC790, 0x20, 0xCC28, 0xB840, 0xB300, 0xB85C, 0x20, 0xC790, 0xAE30,
      0xC18C, 0xAC1C, 0xB97C, 0x20, 0xC9C4, 0xD589, 0xD558, 0xC2DC, 0xC624, 0x2E,
      0x20, 0xD55C, 0x20, 0xC0AC, 0xB78C, 0xB2F9, 0x20]
     @ ''%d''
     @ utf8 [0xCD08, 0xAC00, 0x20, 0xC8FC, 0xC5B4, 0xC9D1, 0xB2C8, 0xB2E4, 0x2E]"

definition msgPhaseNight :: string where
  "msgPhaseNight =
     utf8 [0xC774, 0xC81C, 0x20, 0xBC24, 0xC774, 0x20, 0xAE4A, 0xC5B4, 0xC84C, 0xC2B5,
      0xB2C8, 0xB2E4, 0x2E, 0x20, 0xBAA8, 0xB450, 0x20, 0xB208, 0xC744, 0x20, 0xAC10,
      0xC73C, 0xC2DC, 0xC624, 0x2E]"

definition msgPhaseDayFirst :: string where
  "msgPhaseDayFirst =
     utf8 [0xCCAB, 0xC9F8, 0x20, 0xB0A0, 0x20, 0xC544, 0xCE68, 0xC774, 0x20, 0xBC1D,
      0xC558, 0xC2B5, 0xB2C8, 0xB2E4, 0x2E, 0x20, 0xC5B4, 0xB5A4, 0x20, 0xC790,
      0xAC00, 0x20, 0xB9C8, 0xC744, 0xC744, 0x20, 0xC704, 0xD611, 0xD558, 0xB294,
      0xC9C0, 0x2C, 0x20, 0xD1A0, 0xB860, 0xC744, 0x20, 0xC2DC, 0xC791, 0xD558,
      0xC2DC, 0xC624, 0x2E]"

definition msgPhaseDay :: string where
  "msgPhaseDay =
     ''%d''
     @ utf8 [0xC77C, 0xC9F8, 0x20, 0xC544, 0xCE68, 0xC774, 0x20, 0xBC1D, 0xC558, 0xC2B5,
      0xB2C8, 0xB2E4, 0x2E, 0x20, 0xB9C8, 0xC744, 0xC740, 0x20, 0xC5B4, 0xB5A4, 0x20,
      0xC6B4, 0xBA85, 0xC744, 0x20, 0xB9DE, 0xC774, 0xD588, 0xB294, 0xAC00, 0x2E]"

definition msgPhaseVote :: string where
  "msgPhaseVote =
     utf8 [0xD1A0, 0xB860, 0xC740, 0x20, 0xB05D, 0xB0AC, 0xC2B5, 0xB2C8, 0xB2E4, 0x2E,
      0x20, 0xC774, 0xC81C, 0x20, 0xC758, 0xC2EC, 0xC2A4, 0xB7EC, 0xC6B4, 0x20,
      0xC790, 0xC5D0, 0xAC8C, 0x20, 0xD45C, 0xB97C, 0x20, 0xB358, 0xC9C0, 0xC2DC,
      0xC624, 0x2E]"

definition msgPhaseRecount :: string where
  "msgPhaseRecount =
     utf8 [0xACB0, 0xACFC, 0xAC00, 0x20, 0xAC19, 0xC2B5, 0xB2C8, 0xB2E4, 0x2E, 0x20,
      0xB9C8, 0xC9C0, 0xB9C9, 0x20, 0xD55C, 0x20, 0xBC88, 0x20, 0xB354, 0x2C, 0x20,
      0xC2E0, 0xC911, 0xD788, 0x20, 0xC120, 0xD0DD, 0xD558, 0xC2DC, 0xC624, 0x2E]"

definition msgIntroSpeaker :: string where
  "msgIntroSpeaker =
     ''%s''
     @ utf8 [0x2C, 0x20, 0xBC1C, 0xC5B8, 0xD558, 0xC2DC, 0xC624, 0x2E]"

definition msgDeath :: string where
  "msgDeath =
     utf8 [0xC804, 0xB0A0, 0x20, 0xBC24, 0x20]
     @ ''%s''
     @ utf8 [0xC774, 0x28, 0xAC00, 0x29, 0x20, 0xC0AC, 0xB9DD, 0xD588, 0xC2B5, 0xB2C8,
      0xB2E4, 0x2E, 0x20, 0xB9C8, 0xC744, 0xC758, 0x20, 0xC2AC, 0xD514, 0xC774, 0x20,
      0xAE4A, 0xC5B4, 0xC9D1, 0xB2C8, 0xB2E4, 0x2E]"

definition msgPeacefulNight :: string where
  "msgPeacefulNight =
     utf8 [0xC804, 0xB0A0, 0x20, 0xBC24, 0xC5D0, 0xB294, 0x20, 0xC544, 0xBB34, 0xB3C4,
      0x20, 0xC0AC, 0xB9DD, 0xD558, 0xC9C0, 0x20, 0xC54A, 0xC558, 0xC2B5, 0xB2C8,
      0xB2E4, 0x2E]"

definition msgEliminated :: string where
  "msgEliminated =
     ''%s''
     @ utf8 [0xC774, 0x28, 0xAC00, 0x29, 0x20, 0xB9C8, 0xC744, 0xC758, 0x20, 0xACB0, 0xC815,
      0xC73C, 0xB85C, 0x20, 0xCC98, 0xD615, 0xB418, 0xC5C8, 0xC2B5, 0xB2C8, 0xB2E4,
      0x2E, 0x20, 0xADF8, 0xC758, 0x20, 0xC815, 0xCCB4, 0xB294, 0x20]
     @ ''%s''
     @ utf8 [0xC774, 0xC5C8, 0xC2B5, 0xB2C8, 0xB2E4, 0x2E]"

definition msgNightStepMafia :: string where
  "msgNightStepMafia =
     utf8 [0xB9C8, 0xD53C, 0xC544, 0xB294, 0x20, 0xB208, 0xC744, 0x20, 0xB728, 0xACE0,
      0x2C, 0x20, 0xCC98, 0xB2E8, 0xD560, 0x20, 0xC790, 0xB97C, 0x20, 0xC9C0, 0xBAA9,
      0xD558, 0xC2DC, 0xC624, 0x2E]"

definition msgNightStepPolice :: string where
  "msgNightStepPolice =
     utf8 [0xACBD, 0xCC30, 0xC740, 0x20, 0xB208, 0xC744, 0x20, 0xB728, 0xACE0, 0x2C, 0x20,
      0xC758, 0xC2EC, 0xC2A4, 0xB7EC, 0xC6B4, 0x20, 0xC790, 0xB97C, 0x20, 0xC870,
      0xC0AC, 0xD558, 0xC2DC, 0xC624, 0x2E]"

definition msgNightStepDoctor :: string where
  "msgNightStepDoctor =
     utf8 [0xC758, 0xC0AC, 0xB294, 0x20, 0xB208, 0xC744, 0x20, 0xB728, 0xACE0, 0x2C, 0x20,
      0xC9C0, 0xD0AC, 0x20, 0xC790, 0xB97C, 0x20, 0xC120, 0xD0DD, 0xD558, 0xC2DC,
      0xC624, 0x2E]"

definition msgTimer30 :: string where
  "msgTimer30 =
     utf8 [0xD1A0, 0xB860, 0x20, 0xC885, 0xB8CC, 0xAE4C, 0xC9C0, 0x20, 0x33, 0x30, 0xCD08,
      0x20, 0xB0A8, 0xC558, 0xC2B5, 0xB2C8, 0xB2E4, 0x2E]"

definition msgTimer10 :: string where
  "msgTimer10 =
     utf8 [0xD1A0, 0xB860, 0x20, 0xC885, 0xB8CC, 0xAE4C, 0xC9C0, 0x20, 0x31, 0x30, 0xCD08,
      0x20, 0xB0A8, 0xC558, 0xC2B5, 0xB2C8, 0xB2E4, 0x2E, 0x20, 0xB9C8, 0xC74C,
      0xC744, 0x20, 0xC815, 0xD558, 0xC2DC, 0xC624, 0x2E]"

definition msgTimer0 :: string where
  "msgTimer0 =
     utf8 [0xD1A0, 0xB860, 0xC774, 0x20, 0xC885, 0xB8CC, 0xB418, 0xC5C8, 0xC2B5, 0xB2C8,
      0xB2E4, 0x2E]"

definition msgVoteNoElim :: string where
  "msgVoteNoElim =
     utf8 [0xC7AC, 0xD22C, 0xD45C, 0x20, 0xB610, 0xD55C, 0x20, 0xB3D9, 0xB960, 0xC774,
      0xC5C8, 0xC2B5, 0xB2C8, 0xB2E4, 0x2E, 0x20, 0xC624, 0xB298, 0xC740, 0x20,
      0xCC98, 0xD615, 0xC774, 0x20, 0xC5C6, 0xC2B5, 0xB2C8, 0xB2E4, 0x2E]"

definition msgEndMafia :: string where
  "msgEndMafia =
     utf8 [0xB9C8, 0xD53C, 0xC544, 0xC758, 0x20, 0xC2B9, 0xB9AC, 0x2E, 0x20, 0xC5B4,
      0xB460, 0xC774, 0x20, 0xB9C8, 0xC744, 0xC744, 0x20, 0xC0BC, 0xCF30, 0xC2B5,
      0xB2C8, 0xB2E4, 0x2E]"

definition msgEndCitizen :: string where
  "msgEndCitizen =
     utf8 [0xC2DC, 0xBBFC, 0xC758, 0x20, 0xC2B9, 0xB9AC, 0x2E, 0x20, 0xC815, 0xC758,
      0xAC00, 0x20, 0xC5B4, 0xB460, 0xC744, 0x20, 0xBAB0, 0xC544, 0xB0C8, 0xC2B5,
      0xB2C8, 0xB2E4, 0x2E]"

definition msgEndForce :: string where
  "msgEndForce =
     utf8 [0xC9C4, 0xD589, 0xC790, 0xC758, 0x20, 0xACB0, 0xC815, 0xC73C, 0xB85C, 0x20,
      0xAC8C, 0xC784, 0xC774, 0x20, 0xC885, 0xB8CC, 0xB418, 0xC5C8, 0xC2B5, 0xB2C8,
      0xB2E4, 0x2E]"

definition msgVoiceOn :: string where
  "msgVoiceOn =
     utf8 [0xC74C, 0xC131, 0x20, 0xC548, 0xB0B4, 0xAC00, 0x20, 0xD65C, 0xC131, 0xD654,
      0xB418, 0xC5C8, 0xC2B5, 0xB2C8, 0xB2E4, 0x2E]"

definition msgVoiceOff :: string where
  "msgVoiceOff =
     utf8 [0xC74C, 0xC131, 0x20, 0xC548, 0xB0B4, 0xAC00, 0x20, 0xBE44, 0xD65C, 0xC131,
      0xD654, 0xB418, 0xC5C8, 0xC2B5, 0xB2C8, 0xB2E4, 0x2E]"

definition msgRestoreNotice :: string where
  "msgRestoreNotice =
     utf8 [0xC774, 0xC804, 0x20, 0xAC8C, 0xC784, 0xC774, 0x20, 0xBCF5, 0xC6D0, 0xB418,
      0xC5C8, 0xC2B5, 0xB2C8, 0xB2E4, 0x2E, 0x20, 0xAC19, 0xC740, 0x20, 0xB2E8,
      0xACC4, 0xBD80, 0xD130, 0x20, 0xC774, 0xC5B4, 0xC9D1, 0xB2C8, 0xB2E4, 0x2E]"

definition msgPersistFailure :: string where
  "msgPersistFailure =
     utf8 [0xAC8C, 0xC784, 0x20, 0xC0C1, 0xD0DC, 0xB97C, 0x20, 0xC800, 0xC7A5, 0xD558,
      0xC9C0, 0x20, 0xBABB, 0xD588, 0xC2B5, 0xB2C8, 0xB2E4, 0x2E, 0x20, 0xACE7, 0x20,
      0xB2E4, 0xC2DC, 0x20, 0xC2DC, 0xB3C4, 0xD569, 0xB2C8, 0xB2E4, 0x2E]"

definition msgGamePaused :: string where
  "msgGamePaused =
     utf8 [0xC7A0, 0xC2DC, 0x20, 0xC9C4, 0xD589, 0xC744, 0x20, 0xBA48, 0xCDA5, 0xB2C8,
      0xB2E4, 0x2E, 0x20, 0xBAA8, 0xB450, 0x20, 0xC790, 0xB9AC, 0xB97C, 0x20, 0xC9C0,
      0xD0A4, 0xC2DC, 0xC624, 0x2E]"

definition msgGameResumed :: string where
  "msgGameResumed =
     utf8 [0xB2E4, 0xC2DC, 0x20, 0xC2DC, 0xAC04, 0xC774, 0x20, 0xD750, 0xB974, 0xAE30,
      0x20, 0xC2DC, 0xC791, 0xD569, 0xB2C8, 0xB2E4, 0x2E, 0x20, 0xC9C4, 0xD589,
      0xC744, 0x20, 0xC774, 0xC5B4, 0xAC00, 0xC2DC, 0xC624, 0x2E]"

fun roleKr :: "role \<Rightarrow> string" where
  "roleKr RoleMafia = utf8 [0xB9C8, 0xD53C, 0xC544]"
| "roleKr RoleDoctor = utf8 [0xC758, 0xC0AC]"
| "roleKr RolePolice = utf8 [0xACBD, 0xCC30]"
| "roleKr RoleCitizen = utf8 [0xC2DC, 0xBBFC]"
| "roleKr RoleNone = ''''"

section \<open>catalog\_default.go\<close>

definition cueGameStarted :: string where "cueGameStarted = ''game.started''"
definition cuePhaseIntro :: string where "cuePhaseIntro = ''phase.intro''"
definition cuePhaseNight :: string where "cuePhaseNight = ''phase.night''"
definition cuePhaseDayFirst :: string where "cuePhaseDayFirst = ''phase.day.first''"
definition cuePhaseDay :: string where "cuePhaseDay = ''phase.day''"
definition cuePhaseVote :: string where "cuePhaseVote = ''phase.vote''"
definition cuePhaseRecount :: string where "cuePhaseRecount = ''phase.recount''"
definition cueNightMafia :: string where "cueNightMafia = ''night.mafia''"
definition cueNightPolice :: string where "cueNightPolice = ''night.police''"
definition cueNightDoctor :: string where "cueNightDoctor = ''night.doctor''"
definition cueIntroSpeaker :: string where "cueIntroSpeaker = ''intro.speaker''"
definition cueDeathAnnounced :: string where "cueDeathAnnounced = ''death.announced''"
definition cuePeacefulNight :: string where "cuePeacefulNight = ''peaceful.night''"
definition cueEliminatedMafia :: string where "cueEliminatedMafia = ''eliminated.mafia''"
definition cueEliminatedNotMafia :: string where "cueEliminatedNotMafia = ''eliminated.notmafia''"
definition cueTimer30 :: string where "cueTimer30 = ''timer.30''"
definition cueTimer10 :: string where "cueTimer10 = ''timer.10''"
definition cueTimer0 :: string where "cueTimer0 = ''timer.0''"
definition cueVoteNoElim :: string where "cueVoteNoElim = ''vote.noelim''"
definition cueEndMafia :: string where "cueEndMafia = ''end.mafia''"
definition cueEndCitizen :: string where "cueEndCitizen = ''end.citizen''"
definition cueEndForce :: string where "cueEndForce = ''end.force''"
definition cueVoiceOn :: string where "cueVoiceOn = ''voice.on''"
definition cueVoiceOff :: string where "cueVoiceOff = ''voice.off''"
definition cueGamePaused :: string where "cueGamePaused = ''game.paused''"
definition cueGameResumed :: string where "cueGameResumed = ''game.resumed''"
definition cueSystemRestore :: string where "cueSystemRestore = ''system.restore''"
definition cueSystemPersistFailure :: string where "cueSystemPersistFailure = ''system.persist.failure''"

definition ann :: "string \<Rightarrow> string \<Rightarrow> severity \<Rightarrow> announcement" where
  "ann txt audioID sev = \<lparr>Subtitle = txt, AudioID = audioID, Severity = sev, ForPublicOnly = True\<rparr>"

definition SystemRestore :: announcement where
  "SystemRestore = ann msgRestoreNotice cueSystemRestore SeverityInfo"

definition SystemPersistFailure :: announcement where
  "SystemPersistFailure = ann msgPersistFailure cueSystemPersistFailure SeverityWarn"

definition Render :: "envelope \<Rightarrow> catalog_context \<Rightarrow> announcement" where
  "Render env ctx =
     (case Event env of
        GameStarted s \<Rightarrow> ann msgGameStarted cueGameStarted SeverityEmphasis
      | PhaseChanged ph day deadline \<Rightarrow>
          (case ph of
             PhaseIntro \<Rightarrow>
               let secs = (if ctxIntroSeconds ctx \<le> 0 then 20 else ctxIntroSeconds ctx)
               in ann (Sprintf msgPhaseIntro [fmt_d secs]) cuePhaseIntro SeverityInfo
           | PhaseNight \<Rightarrow> ann msgPhaseNight cuePhaseNight SeverityEmphasis
           | PhaseDay \<Rightarrow>
               if day = 1 then ann msgPhaseDayFirst cuePhaseDayFirst SeverityEmphasis
               else ann (Sprintf msgPhaseDay [fmt_d day]) cuePhaseDay SeverityEmphasis
           | PhaseVote \<Rightarrow> ann msgPhaseVote cuePhaseVote SeverityEmphasis
           | PhaseRecount \<Rightarrow> ann msgPhaseRecount cuePhaseRecount SeverityWarn
           | _ \<Rightarrow> no_announcement)
      | NightStepChanged step day deadline \<Rightarrow>
          (case step of
             NightStepMafia \<Rightarrow> ann msgNightStepMafia cueNightMafia SeverityEmphasis
           | NightStepPolice \<Rightarrow> ann msgNightStepPolice cueNightPolice SeverityEmphasis
           | NightStepDoctor \<Rightarrow> ann msgNightStepDoctor cueNightDoctor SeverityEmphasis
           | _ \<Rightarrow> no_announcement)
      | IntroSpeakerChanged pid secs \<Rightarrow> ann (Sprintf msgIntroSpeaker [nameOf ctx pid]) cueIntroSpeaker SeverityInfo
      | DeathAnnounced victim \<Rightarrow> ann (Sprintf msgDeath [nameOf ctx victim]) cueDeathAnnounced SeverityEmphasis
      | PeacefulNight \<Rightarrow> ann msgPeacefulNight cuePeacefulNight SeverityInfo
      | Eliminated pid r \<Rightarrow>
          ann (Sprintf msgEliminated [nameOf ctx pid, roleKr r])
            (if r = RoleMafia then cueEliminatedMafia else cueEliminatedNotMafia) SeverityEmphasis
      | DiscussionTimerTick secondsLeft \<Rightarrow>
          if secondsLeft = 30 then ann msgTimer30 cueTimer30 SeverityInfo
          else if secondsLeft = 10 then ann msgTimer10 cueTimer10 SeverityWarn
          else if secondsLeft = 0 then ann msgTimer0 cueTimer0 SeverityInfo
          else no_announcement
      | VoteTallied counts eliminated recount \<Rightarrow>
          if recount then no_announcement
          else if eliminated = None then ann msgVoteNoElim cueVoteNoElim SeverityInfo
          else no_announcement
      | GameEnded winner reason reveal \<Rightarrow>
          (case reason of
             EndMafiaWin \<Rightarrow> ann msgEndMafia cueEndMafia SeverityEmphasis
           | EndCitizenWin \<Rightarrow> ann msgEndCitizen cueEndCitizen SeverityEmphasis
           | EndHostForceEnd \<Rightarrow> ann msgEndForce cueEndForce SeverityInfo)
      | VoiceToggled on \<Rightarrow>
          if on then ann msgVoiceOn cueVoiceOn SeverityInfo else ann msgVoiceOff cueVoiceOff SeverityInfo
      | GamePaused ph \<Rightarrow> ann msgGamePaused cueGamePaused SeverityInfo
      | GameResumed ph deadline \<Rightarrow> ann msgGameResumed cueGameResumed SeverityInfo
      | _ \<Rightarrow> no_announcement)"

section \<open>error.go\<close>

fun errorMessages :: "error_code \<Rightarrow> string" where
  "errorMessages CodeValidation =
     utf8 [0xC785, 0xB825, 0xC774, 0x20, 0xC62C, 0xBC14, 0xB974, 0xC9C0, 0x20, 0xC54A,
      0xC2B5, 0xB2C8, 0xB2E4]"
| "errorMessages CodeWrongPhase =
     utf8 [0xC9C0, 0xAE08, 0xC740, 0x20, 0xADF8, 0x20, 0xD589, 0xB3D9, 0xC744, 0x20,
      0xD560, 0x20, 0xC218, 0x20, 0xC5C6, 0xC2B5, 0xB2C8, 0xB2E4, 0x2E]"
| "errorMessages CodePermissionDenied =
     utf8 [0xAD8C, 0xD55C, 0xC774, 0x20, 0xC5C6, 0xC2B5, 0xB2C8, 0xB2E4, 0x2E]"
| "errorMessages CodeRoleMismatch =
     utf8 [0xB2F9, 0xC2E0, 0xC758, 0x20, 0xC5ED, 0xD560, 0xC740, 0x20, 0xADF8, 0x20,
      0xD589, 0xB3D9, 0xC744, 0x20, 0xD560, 0x20, 0xC218, 0x20, 0xC5C6, 0xC2B5,
      0xB2C8, 0xB2E4, 0x2E]"
| "errorMessages CodeNotRepresentative =
     utf8 [0xC774, 0xBC88, 0x20, 0xAC8C, 0xC784, 0xC758, 0x20, 0xB9C8, 0xD53C, 0xC544,
      0x20, 0xB300, 0xD45C, 0xC790, 0xB9CC, 0x20, 0xC0B4, 0xD574, 0x20, 0xB300,
      0xC0C1, 0xC744, 0x20, 0xC785, 0xB825, 0xD560, 0x20, 0xC218, 0x20, 0xC788,
      0xC2B5, 0xB2C8, 0xB2E4, 0x2E]"
| "errorMessages CodeDeadPlayer =
     utf8 [0xC0AC, 0xB9DD, 0xD55C, 0x20, 0xD50C, 0xB808, 0xC774, 0xC5B4, 0xB294, 0x20,
      0xD589, 0xB3D9, 0xD560, 0x20, 0xC218, 0x20, 0xC5C6, 0xC2B5, 0xB2C8, 0xB2E4,
      0x2E]"
| "errorMessages CodeAlreadyDone =
     utf8 [0xC774, 0xBC88, 0x20, 0xB2E8, 0xACC4, 0xC5D0, 0xC11C, 0xB294, 0x20, 0xC774,
      0xBBF8, 0x20, 0xD589, 0xB3D9, 0xC744, 0x20, 0xC644, 0xB8CC, 0xD588, 0xC2B5,
      0xB2C8, 0xB2E4, 0x2E]"
| "errorMessages CodeInvalidTarget =
     utf8 [0xC120, 0xD0DD, 0xD560, 0x20, 0xC218, 0x20, 0xC5C6, 0xB294, 0x20, 0xB300,
      0xC0C1, 0xC785, 0xB2C8, 0xB2E4, 0x2E]"
| "errorMessages CodeUnknownPlayer =
     utf8 [0xC54C, 0x20, 0xC218, 0x20, 0xC5C6, 0xB294, 0x20, 0xD50C, 0xB808, 0xC774,
      0xC5B4, 0xC785, 0xB2C8, 0xB2E4, 0x2E]"

definition errFallback :: string where
  "errFallback =
     utf8 [0xC54C, 0x20, 0xC218, 0x20, 0xC5C6, 0xB294, 0x20, 0xC624, 0xB958, 0xAC00, 0x20,
      0xBC1C, 0xC0DD, 0xD588, 0xC2B5, 0xB2C8, 0xB2E4, 0x2E]"

definition severityForCode :: "error_code \<Rightarrow> severity" where
  "severityForCode code = SeverityWarn"

definition error_toast :: "string \<Rightarrow> severity \<Rightarrow> announcement" where
  "error_toast txt sev = \<lparr>Subtitle = txt, AudioID = '''', Severity = sev, ForPublicOnly = False\<rparr>"

definition renderValidationErrors :: "field_error list \<Rightarrow> announcement" where
  "renderValidationErrors ve =
     (let parts = map (\<lambda>fe. feField fe @ '': '' @ feMessage fe) ve
      in error_toast (utf8 [0xC785, 0xB825, 0xC774, 0x20, 0xC62C, 0xBC14, 0xB974, 0xC9C0, 0x20, 0xC54A,
      0xC2B5, 0xB2C8, 0xB2E4, 0x20, 0x2014, 0x20] @ join ''; '' parts)
           SeverityWarn)"

text \<open>A nil error, which no caller passes, renders as the empty announcement.\<close>

definition RenderError :: "go_error option \<Rightarrow> player_id \<Rightarrow> catalog_context \<Rightarrow> announcement" where
  "RenderError err sender ctx =
     (case err of
        None \<Rightarrow> no_announcement
      | Some (ValidationErrors ve) \<Rightarrow> renderValidationErrors ve
      | Some (EngineError code f) \<Rightarrow>
          let base = errorMessages code;
              base = (if code = CodeValidation \<and> f \<noteq> '''' then Sprintf ''%s: %s'' [base, f]
                      else if code = CodeValidation then base @ ''.'' else base)
          in error_toast base (severityForCode code)
      | Some _ \<Rightarrow> error_toast errFallback SeverityWarn)"

section \<open>What is announced, and to whom\<close>

lemma Sprintf_nonempty:
  "cs \<noteq> [] \<Longrightarrow> last cs \<noteq> CHR ''d'' \<Longrightarrow> last cs \<noteq> CHR ''s'' \<Longrightarrow> Sprintf cs as \<noteq> []"
  by (induction cs as rule: Sprintf.induct) (auto split: if_splits)

lemma Sprintf_dot: "cs \<noteq> [] \<and> last cs = CHR ''.'' \<Longrightarrow> Sprintf cs as \<noteq> []"
  using Sprintf_nonempty [of cs as] by simp

lemma utf8_nonempty [simp]: "utf8 (c # cs) \<noteq> []"
  by (simp add: utf8_def)

lemma last_utf8 [simp]:
  "last (utf8 (c # d # cs)) = last (utf8 (d # cs))" "last (utf8 [0x2E]) = CHR ''.''"
  by (simp_all add: utf8_def char_of_def bit_0)

lemma formats_end_in_dot:
  "msgPhaseIntro \<noteq> [] \<and> last msgPhaseIntro = CHR ''.''" "msgPhaseDay \<noteq> [] \<and> last msgPhaseDay = CHR ''.''"
  "msgIntroSpeaker \<noteq> [] \<and> last msgIntroSpeaker = CHR ''.''" "msgDeath \<noteq> [] \<and> last msgDeath = CHR ''.''"
  "msgEliminated \<noteq> [] \<and> last msgEliminated = CHR ''.''"
  by (simp_all add: msgPhaseIntro_def msgPhaseDay_def msgIntroSpeaker_def msgDeath_def msgEliminated_def)

lemmas message_defs =
  msgGameStarted_def msgPhaseNight_def msgPhaseDayFirst_def msgPhaseVote_def msgPhaseRecount_def
  msgPeacefulNight_def msgNightStepMafia_def msgNightStepPolice_def msgNightStepDoctor_def
  msgTimer30_def msgTimer10_def msgTimer0_def msgVoteNoElim_def msgEndMafia_def msgEndCitizen_def
  msgEndForce_def msgVoiceOn_def msgVoiceOff_def msgGamePaused_def msgGameResumed_def

lemmas cue_defs =
  cueGameStarted_def cuePhaseIntro_def cuePhaseNight_def cuePhaseDayFirst_def cuePhaseDay_def
  cuePhaseVote_def cuePhaseRecount_def cueNightMafia_def cueNightPolice_def cueNightDoctor_def
  cueIntroSpeaker_def cueDeathAnnounced_def cuePeacefulNight_def cueEliminatedMafia_def
  cueEliminatedNotMafia_def cueTimer30_def cueTimer10_def cueTimer0_def cueVoteNoElim_def
  cueEndMafia_def cueEndCitizen_def cueEndForce_def cueVoiceOn_def cueVoiceOff_def cueGamePaused_def
  cueGameResumed_def

lemma IsEmpty_simps [simp]: "IsEmpty no_announcement" "IsEmpty (ann txt c sev) \<longleftrightarrow> txt = ''''"
  by (simp_all add: IsEmpty_def no_announcement_def ann_def)

definition announced :: "announcement \<Rightarrow> bool" where
  "announced a \<longleftrightarrow> Subtitle a \<noteq> '''' \<and> AudioID a \<noteq> '''' \<and> ForPublicOnly a"

lemma announced_ann [simp]: "announced (ann txt c sev) \<longleftrightarrow> txt \<noteq> '''' \<and> c \<noteq> ''''"
  by (simp add: announced_def ann_def)

lemma message_nonempty:
  "msgGameStarted \<noteq> ''''" "msgPhaseNight \<noteq> ''''" "msgPhaseDayFirst \<noteq> ''''" "msgPhaseVote \<noteq> ''''"
  "msgPhaseRecount \<noteq> ''''" "msgPeacefulNight \<noteq> ''''" "msgNightStepMafia \<noteq> ''''"
  "msgNightStepPolice \<noteq> ''''" "msgNightStepDoctor \<noteq> ''''" "msgTimer30 \<noteq> ''''" "msgTimer10 \<noteq> ''''"
  "msgTimer0 \<noteq> ''''" "msgVoteNoElim \<noteq> ''''" "msgEndMafia \<noteq> ''''" "msgEndCitizen \<noteq> ''''"
  "msgEndForce \<noteq> ''''" "msgVoiceOn \<noteq> ''''" "msgVoiceOff \<noteq> ''''" "msgGamePaused \<noteq> ''''"
  "msgGameResumed \<noteq> ''''"
  by (simp_all add: message_defs)

lemma Render_shape: "Render env ctx = no_announcement \<or> announced (Render env ctx)"
  by (cases "Event env")
     (simp_all add: Render_def Let_def message_nonempty Sprintf_dot formats_end_in_dot cue_defs
       split: phase.split night_step.split end_reason.split)

lemma Render_cue: "IsEmpty (Render env ctx) \<longleftrightarrow> AudioID (Render env ctx) = ''''"
  using Render_shape [of env ctx] by (auto simp: no_announcement_def announced_def IsEmpty_def)

lemma Render_public: "\<not> IsEmpty (Render env ctx) \<Longrightarrow> ForPublicOnly (Render env ctx)"
  using Render_shape [of env ctx] by (auto simp: announced_def)

lemma Render_private: "routed env \<Longrightarrow> Visibility env \<noteq> VisPublic \<Longrightarrow> IsEmpty (Render env ctx)"
  by (cases "Event env") (simp_all add: routed_def Render_def)

text \<open>
  C35: the public narration keeps secrets and is well formed. For every input of the engine, an
  event it addresses to one player or to the mafia is rendered as no announcement at all, so
  nothing secret is read out on the public screen; and whatever is rendered has a subtitle
  exactly when it has an audio cue, and is meant for the public screen only.
\<close>
theorem narration_secret_and_complete:
  assumes "r = Start lib g h ps opts e \<or> r = Apply lib a e \<or> r = Tick lib now e" "res_out r = Inr evs" "env \<in> set evs"
  shows "(Visibility env \<noteq> VisPublic \<longrightarrow> IsEmpty (Render env ctx)) \<and>
    (IsEmpty (Render env ctx) \<longleftrightarrow> AudioID (Render env ctx) = '''') \<and>
    (\<not> IsEmpty (Render env ctx) \<longrightarrow> ForPublicOnly (Render env ctx))"
proof -
  have "routes r"
    using assms(1) routes_Start routes_Apply routes_Tick by metis
  then have "routed env" using assms(2,3) by (auto simp: routes_def list_all_iff)
  then have "Visibility env \<noteq> VisPublic \<Longrightarrow> IsEmpty (Render env ctx)"
    by (rule Render_private)
  moreover have "IsEmpty (Render env ctx) \<longleftrightarrow> AudioID (Render env ctx) = ''''"
    by (rule Render_cue)
  moreover have "\<not> IsEmpty (Render env ctx) \<Longrightarrow> ForPublicOnly (Render env ctx)"
    by (rule Render_public)
  ultimately show ?thesis by blast
qed


theorem narration_secret_and_complete_witness:
  "IsEmpty (Render (mafia (MafiaTargetSelected ''f'' ''b'')) \<lparr>GetName = None, ctxIntroSeconds = 20\<rparr>)"
proof -
  have "res_out (Apply demo_lib (SubmitMafiaKill ''f'' ''b'') demo_ready) = Inr [mafia (MafiaTargetSelected ''f'' ''b'')]"
    by code_simp
  from narration_secret_and_complete [OF disjI2 [OF disjI1 [OF refl]] this, of "mafia (MafiaTargetSelected ''f'' ''b'')"]
  show ?thesis by simp
qed

lemma error_toast_simps [simp]:
  "IsEmpty (error_toast txt sev) \<longleftrightarrow> txt = ''''" "AudioID (error_toast txt sev) = ''''"
  "\<not> ForPublicOnly (error_toast txt sev)"
  by (simp_all add: error_toast_def IsEmpty_def)

lemma errorMessages_nonempty: "errorMessages c \<noteq> ''''"
  by (cases c) simp_all

lemma RenderError_toast:
  "\<not> IsEmpty (RenderError (Some err) sender ctx) \<and> AudioID (RenderError (Some err) sender ctx) = '''' \<and>
   \<not> ForPublicOnly (RenderError (Some err) sender ctx)"
  by (cases err) (simp_all add: RenderError_def renderValidationErrors_def errFallback_def errorMessages_nonempty Let_def)

end
