(* ===== verification/Store.thy ===== *)
theory Store
  imports Announce
begin

text \<open>
  \<open>internal/persistence\<close>: the SQLite store. The database is its three tables, as the prepared
  statements of \<open>sqlite_store.go\<close> use them. The driver is outside the sources: every statement it
  executes may fail, which a stream of faults decides, and a statement that fails changes
  nothing. A row holds the value its JSON columns
  decode to, or \<open>None\<close> when they cannot be decoded; theory Persist has the columns and proves the
  operations here to be their abstraction.
\<close>

section \<open>store.go\<close>

record persisted_member =
  pmID :: player_id
  pmName :: string
  pmToken :: string
  pmConnected :: bool
  pmJoinedAt :: time

record snapshot =
  snGameID :: string
  snState :: state
  snMembers :: "persisted_member list"
  snHostID :: player_id

record game_result =
  grGameID :: string
  grStartedAt :: time
  grEndedAt :: time
  grWinner :: "team option"
  grEndReason :: end_reason
  grOptions :: options
  grMembers :: "persisted_member list"
  grReveal :: "player list"

record event_row =
  evGameID :: string
  evVisibility :: string
  evRecipient :: "player_id option"
  evPayload :: event

section \<open>The database\<close>

record db =
  active_snapshot :: "snapshot option option"
  game_results :: "game_result list"
  events :: "event_row list"
  db_open :: bool
  db_faults :: "nat \<Rightarrow> bool"

text \<open>One statement: it succeeds when the handle is open and the driver reports no error.\<close>

definition db_exec :: "db \<Rightarrow> bool \<times> db" where
  "db_exec d = (db_open d \<and> \<not> db_faults d 0, d\<lparr>db_faults := (\<lambda>n. db_faults d (Suc n))\<rparr>)"

definition tables :: "db \<Rightarrow> snapshot option option \<times> game_result list \<times> event_row list" where
  "tables d = (active_snapshot d, game_results d, events d)"

definition fault_free :: "db \<Rightarrow> bool" where
  "fault_free d \<longleftrightarrow> db_open d \<and> (\<forall>n. \<not> db_faults d n)"

section \<open>sqlite\_store.go and recovery.go\<close>

type_synonym store_error = "go_error option"

definition SaveSnapshot :: "snapshot \<Rightarrow> db \<Rightarrow> db \<times> store_error" where
  "SaveSnapshot snap d =
     (let (good, d) = db_exec d in
      if \<not> good then (d, Some OtherError) else (d\<lparr>active_snapshot := Some (Some snap)\<rparr>, None))"

definition LoadActiveSnapshot :: "db \<Rightarrow> db \<times> (go_error + snapshot option)" where
  "LoadActiveSnapshot d =
     (let (good, d) = db_exec d in
      if \<not> good then (d, Inl OtherError)
      else case active_snapshot d of
        None \<Rightarrow> (d, Inr None)
      | Some None \<Rightarrow> (d, Inl OtherError)
      | Some (Some snap) \<Rightarrow> (d, Inr (Some snap)))"

definition DeleteActiveSnapshot :: "db \<Rightarrow> db \<times> store_error" where
  "DeleteActiveSnapshot d =
     (let (good, d) = db_exec d in
      if \<not> good then (d, Some OtherError) else (d\<lparr>active_snapshot := None\<rparr>, None))"

text \<open>
  The transaction: begin, insert, delete, commit. A failure, or a second result for the same
  game (the primary key), rolls everything back.
\<close>

definition SaveResultAndClearActive :: "game_result \<Rightarrow> db \<Rightarrow> db \<times> store_error" where
  "SaveResultAndClearActive r d0 =
     (if \<not> db_open d0 then (d0, Some OtherError)
      else
        let (begun, d) = db_exec d0 in
        if \<not> begun then (d, Some OtherError)
        else let (inserted, d) = db_exec d in
          if \<not> inserted \<or> grGameID r \<in> grGameID ` set (game_results d) then (d, Some OtherError)
          else let tx = d\<lparr>game_results := game_results d @ [r]\<rparr>; (deleted, tx) = db_exec tx in
            if \<not> deleted then (tx\<lparr>game_results := game_results d\<rparr>, Some OtherError)
            else let tx = tx\<lparr>active_snapshot := None\<rparr>; (committed, tx) = db_exec tx in
              if \<not> committed
              then (tx\<lparr>game_results := game_results d, active_snapshot := active_snapshot d\<rparr>, Some OtherError)
              else (tx, None))"

text \<open>\<open>ORDER BY ended_at DESC LIMIT ?\<close>; rows with equal times keep the order of insertion.\<close>

definition ListResults :: "int \<Rightarrow> db \<Rightarrow> db \<times> (go_error + game_result list)" where
  "ListResults limit d =
     (let limit = (if limit \<le> 0 then 100 else limit); (good, d) = db_exec d in
      if \<not> good then (d, Inl OtherError)
      else (d, Inr (take (nat limit) (sort_key (\<lambda>r. - grEndedAt r) (game_results d)))))"

fun visibilityToString :: "visibility \<Rightarrow> string" where
  "visibilityToString VisPublic = ''PUBLIC''"
| "visibilityToString VisPlayer = ''PLAYER''"
| "visibilityToString VisRoleMafia = ''ROLE_MAFIA''"

definition AppendEvent :: "string \<Rightarrow> envelope \<Rightarrow> db \<Rightarrow> db \<times> store_error" where
  "AppendEvent gameID env d =
     (let (good, d) = db_exec d in
      if \<not> good then (d, Some OtherError)
      else (d\<lparr>events := events d @
              [\<lparr>evGameID = gameID, evVisibility = visibilityToString (Visibility env),
                evRecipient = (if Visibility env = VisPlayer then Some (Recipient env) else None),
                evPayload = Event env\<rparr>]\<rparr>, None))"

definition CloseStore :: "db \<Rightarrow> db \<times> store_error" where
  "CloseStore d =
     (if \<not> db_open d then (d, None)
      else let (good, d) = db_exec d in (d\<lparr>db_open := False\<rparr>, if good then None else Some OtherError))"

text \<open>
  \<open>ArchiveCorrupt\<close> closes the handle and renames the file, so that the next process starts on an
  empty database; a fault here is a failing \<open>rename\<close>.
\<close>

definition ArchiveCorrupt :: "db \<Rightarrow> db \<times> store_error" where
  "ArchiveCorrupt d =
     (let (d, closeErr) = CloseStore d; renamed = \<not> db_faults d 0;
          d = d\<lparr>db_faults := (\<lambda>n. db_faults d (Suc n))\<rparr> in
      if \<not> renamed then (d, Some OtherError)
      else (d\<lparr>active_snapshot := None, game_results := [], events := []\<rparr>, None))"

definition OpenSqlite :: "db \<Rightarrow> (nat \<Rightarrow> bool) \<Rightarrow> db" where
  "OpenSqlite d faults = d\<lparr>db_open := True, db_faults := faults\<rparr>"

section \<open>The contract of the store\<close>

text \<open>
  What the session layer relies on: a save that reports success is what a later load returns;
  writing a result either happens completely or not at all; and a failed call leaves the tables
  as they were.
\<close>

locale persistence_store =
  fixes save :: "snapshot \<Rightarrow> 'd \<Rightarrow> 'd \<times> store_error"
    and finish :: "game_result \<Rightarrow> 'd \<Rightarrow> 'd \<times> store_error"
    and current :: "'d \<Rightarrow> snapshot option option"
    and history :: "'d \<Rightarrow> game_result list"
  assumes save_ok: "save s d = (d', None) \<Longrightarrow> current d' = Some (Some s) \<and> history d' = history d"
    and save_err: "save s d = (d', Some err) \<Longrightarrow> current d' = current d \<and> history d' = history d"
    and finish_ok: "finish r d = (d', None) \<Longrightarrow> current d' = None \<and> history d' = history d @ [r]"
    and finish_err: "finish r d = (d', Some err) \<Longrightarrow> current d' = current d \<and> history d' = history d"
    and finish_new: "finish r d = (d', None) \<Longrightarrow> grGameID r \<notin> grGameID ` set (history d)"
begin

lemma finish_atomic:
  "finish r d = (d', out) \<Longrightarrow>
   current d' = None \<and> history d' = history d @ [r] \<or> current d' = current d \<and> history d' = history d"
  by (cases out) (auto dest: finish_ok finish_err)

lemma save_current:
  "save s d = (d', out) \<Longrightarrow> current d' = (if out = None then Some (Some s) else current d)"
  by (cases out) (auto dest: save_ok save_err)

lemma history_distinct:
  "finish r d = (d', out) \<Longrightarrow> distinct (map grGameID (history d)) \<Longrightarrow> distinct (map grGameID (history d'))"
  using finish_ok [of r d d'] finish_new [of r d d'] finish_err [of r d d'] by (cases out) auto

end

lemma db_exec_simps [simp]:
  "active_snapshot (snd (db_exec d)) = active_snapshot d" "game_results (snd (db_exec d)) = game_results d"
  "events (snd (db_exec d)) = events d" "db_open (snd (db_exec d)) = db_open d"
  by (simp_all add: db_exec_def)

lemma fault_free_exec [simp]:
  "fault_free d \<Longrightarrow> fst (db_exec d) \<and> fault_free (snd (db_exec d))"
  by (simp add: db_exec_def fault_free_def)

interpretation sqlite: persistence_store SaveSnapshot SaveResultAndClearActive active_snapshot game_results
  by unfold_locales
     (auto simp: SaveSnapshot_def SaveResultAndClearActive_def Let_def split_beta split: if_splits)

text \<open>
  C20: finishing a game is atomic. Whatever statement of the transaction fails, either the result
  is recorded and the active snapshot is gone, or both tables are as before; and no game is ever
  recorded twice.
\<close>
theorem finish_atomic_once:
  assumes "distinct (map grGameID (game_results d))"
  shows "let d' = fst (SaveResultAndClearActive r d) in
    (active_snapshot d' = None \<and> game_results d' = game_results d @ [r] \<or>
     active_snapshot d' = active_snapshot d \<and> game_results d' = game_results d) \<and>
    distinct (map grGameID (game_results d'))"
proof -
  obtain d' out where "SaveResultAndClearActive r d = (d', out)" by fastforce
  with sqlite.finish_atomic [OF this] sqlite.history_distinct [OF this assms] show ?thesis
    by simp
qed

lemma SaveSnapshot_fault_free:
  "fault_free d \<Longrightarrow> \<exists>d'. SaveSnapshot s d = (d', None) \<and> fault_free d' \<and> active_snapshot d' = Some (Some s)
     \<and> game_results d' = game_results d"
  using fault_free_exec [of d] by (auto simp: SaveSnapshot_def Let_def split_beta fault_free_def)

lemma LoadActiveSnapshot_fault_free:
  "fault_free d \<Longrightarrow> active_snapshot d = Some (Some s) \<Longrightarrow>
   \<exists>d'. LoadActiveSnapshot d = (d', Inr (Some s)) \<and> fault_free d' \<and> tables d' = tables d"
  using fault_free_exec [of d] by (auto simp: LoadActiveSnapshot_def Let_def split_beta tables_def)

definition empty_db :: db where
  "empty_db = \<lparr>active_snapshot = None, game_results = [], events = [], db_open = True, db_faults = \<lambda>_. False\<rparr>"

definition demo_result :: game_result where
  "demo_result = \<lparr>grGameID = ''g'', grStartedAt = 1, grEndedAt = 2, grWinner = None,
     grEndReason = EndHostForceEnd, grOptions = zero_options, grMembers = [], grReveal = []\<rparr>"

theorem finish_atomic_once_witness:
  "game_results (fst (SaveResultAndClearActive demo_result empty_db)) = [demo_result] \<and>
   distinct (map grGameID (game_results (fst (SaveResultAndClearActive demo_result empty_db))))"
  using finish_atomic_once [of empty_db demo_result]
  by (simp add: empty_db_def SaveResultAndClearActive_def db_exec_def Let_def)

end
