(* ===== verification/Session.thy ===== *)
theory Session
  imports Store
begin

text \<open>
  \<open>internal/session\<close>: the session manager that sits between the transport and the engine. Its
  mutex makes every operation atomic, so an operation is a function on the manager's state. The
  callbacks registered by \<open>Subscribe\<close> are outside the package: what is handed to them is recorded
  in order in \<open>mDelivered\<close>.
\<close>

section \<open>token.go\<close>

definition hex_digit :: "nat \<Rightarrow> char" where
  "hex_digit n = ''0123456789abcdef'' ! n"

definition hex_encode :: "8 word list \<Rightarrow> string" where
  "hex_encode bs = concat (map (\<lambda>b. [hex_digit (unat b div 16), hex_digit (unat b mod 16)]) bs)"

definition tokenByteLen :: nat where "tokenByteLen = 32"
definition tokenAttempts :: nat where "tokenAttempts = 5"

text \<open>\<open>io.ReadFull\<close> of 32 bytes from the manager's reader.\<close>

definition newToken :: "8 word list \<Rightarrow> string option \<times> 8 word list" where
  "newToken r =
     (if length r < tokenByteLen then (None, [])
      else (Some (hex_encode (take tokenByteLen r)), drop tokenByteLen r))"

section \<open>host\_authority.go\<close>

type_synonym host_token = string

text \<open>The argument \<open>b\<close> is what \<open>rand.Read\<close> delivers: 16 bytes, or \<open>None\<close> when it fails.\<close>

definition Claim :: "8 word list option \<Rightarrow> host_token \<Rightarrow> host_token \<times> (go_error + host_token)" where
  "Claim b current =
     (if current \<noteq> '''' then (current, Inl (errf CodePermissionDenied))
      else case b of
        None \<Rightarrow> (current, Inl (errf CodeValidation))
      | Some bytes \<Rightarrow> (hex_encode bytes, Inr (hex_encode bytes)))"

definition Verify :: "host_token \<Rightarrow> host_token \<Rightarrow> go_error option" where
  "Verify t current =
     (if t = '''' \<or> current = '''' \<or> t \<noteq> current then Some (errf CodePermissionDenied) else None)"

definition Release :: "host_token \<Rightarrow> host_token \<Rightarrow> host_token" where
  "Release t current = (if t \<noteq> '''' \<and> t = current then '''' else current)"

definition IsClaimed :: "host_token \<Rightarrow> bool" where
  "IsClaimed current \<longleftrightarrow> current \<noteq> ''''"

section \<open>types.go\<close>

record member =
  mbID :: player_id
  mbName :: string
  mbToken :: string
  mbConnected :: bool
  mbJoinedAt :: time

record join_result =
  jrPlayerID :: player_id
  jrToken :: string
  jrIsHost :: bool
  jrCurrentState :: state
  jrYourRole :: role
  jrYourKeyword :: string
  jrYourTeam :: team
  jrMafiaCohort :: "player_id list"

text \<open>A nil \<open>Event\<close> in the envelope is \<open>None\<close>.\<close>

record event_out =
  oEnvelope :: "envelope option"
  oAnnouncement :: "announcement option"
  oState :: state

record session_opts =
  TickInterval :: duration
  EventLog :: bool
  MaxLobbySize :: int
  MinPlayers :: int

definition withDefaults :: "session_opts \<Rightarrow> session_opts" where
  "withDefaults opts =
     opts\<lparr>TickInterval := (if TickInterval opts \<le> 0 then second else TickInterval opts),
       MaxLobbySize := (if MaxLobbySize opts \<le> 0 then 12 else MaxLobbySize opts),
       MinPlayers := (if MinPlayers opts \<le> 0 then 6 else MinPlayers opts)\<rparr>"

record session_rec =
  sGameID :: string
  sMembers :: "(player_id, member) gomap"
  sHostID :: player_id
  sStarted :: bool
  sStartedAt :: time
  sPendingOptions :: options
  sRoomOpened :: bool

definition zero_session :: session_rec where
  "zero_session = \<lparr>sGameID = '''', sMembers = [], sHostID = '''', sStarted = False,
     sStartedAt = zero_time, sPendingOptions = zero_options, sRoomOpened = False\<rparr>"

record room_snapshot =
  rsRoomOpened :: bool
  rsOptions :: options
  rsGameStarted :: bool
  rsState :: state
  rsHostOccupied :: bool

section \<open>session.go\<close>

text \<open>
  The manager. \<open>mIds\<close> are the byte strings that successive calls of \<open>newID\<close> read from the
  system's generator, \<open>mSeatRand\<close> those that \<open>Claim\<close> reads.
\<close>

record manager =
  mStore :: db
  mEngine :: engine
  mClock :: "nat \<Rightarrow> time"
  mRand :: "8 word list"
  mIds :: "nat \<Rightarrow> 8 word list"
  mSess :: session_rec
  mHandlers :: "nat list"
  mNextHID :: nat
  mOpts :: session_opts
  mClosed :: bool
  mSystemMsg :: "announcement list"
  mHostAuth :: host_token
  mSavedHostOptions :: options
  mHasSavedHostOptions :: bool
  mDelivered :: "(nat \<times> event_out) list"

definition isActivePhase :: "phase \<Rightarrow> bool" where
  "isActivePhase p \<longleftrightarrow> p \<noteq> PhaseLobby \<and> p \<noteq> PhaseEnd \<and> p \<noteq> PhaseNone"

definition clock_now :: "manager \<Rightarrow> time \<times> manager" where
  "clock_now m = (mClock m 0, m\<lparr>mClock := (\<lambda>n. mClock m (Suc n))\<rparr>)"

definition newID :: "manager \<Rightarrow> string \<times> manager" where
  "newID m = (hex_encode (mIds m 0), m\<lparr>mIds := (\<lambda>n. mIds m (Suc n))\<rparr>)"

definition on_sess :: "(session_rec \<Rightarrow> session_rec) \<Rightarrow> manager \<Rightarrow> manager" where
  "on_sess f m = m\<lparr>mSess := f (mSess m)\<rparr>"

definition tokenInUse :: "string \<Rightarrow> manager \<Rightarrow> bool" where
  "tokenInUse t m \<longleftrightarrow> list_ex (\<lambda>(k, mb). mbToken mb = t) (sMembers (mSess m))"

fun issue_loop :: "nat \<Rightarrow> manager \<Rightarrow> manager \<times> (go_error + string)" where
  "issue_loop 0 m = (m, Inl OtherError)"
| "issue_loop (Suc n) m =
     (let (t, r) = newToken (mRand m); m = m\<lparr>mRand := r\<rparr> in
      case t of
        None \<Rightarrow> (m, Inl OtherError)
      | Some t \<Rightarrow> if \<not> tokenInUse t m then (m, Inr t) else issue_loop n m)"

definition issueUniqueToken :: "manager \<Rightarrow> manager \<times> (go_error + string)" where
  "issueUniqueToken m = issue_loop tokenAttempts m"

section \<open>lifecycle.go: ordering the members\<close>

text \<open>The inner loop of the insertion sort: swap to the left while the left neighbour joined later.\<close>

fun sift :: "member list \<Rightarrow> nat \<Rightarrow> member list" where
  "sift xs 0 = xs"
| "sift xs (Suc j) =
     (if mbJoinedAt (xs ! j) > mbJoinedAt (xs ! Suc j) then sift (swap j (Suc j) xs) j else xs)"

function sort_loop :: "member list \<Rightarrow> nat \<Rightarrow> member list" where
  "sort_loop xs i = (if i < length xs then sort_loop (sift xs i) (i + 1) else xs)"
  by auto

lemma length_sift [simp]: "length (sift xs j) = length xs"
  by (induction xs j rule: sift.induct) auto

termination sort_loop
  by (relation "measure (\<lambda>(xs, i). length xs - i)") auto

declare sort_loop.simps [simp del]

definition orderMembers :: "(player_id, member) gomap \<Rightarrow> player_id \<Rightarrow> member list" where
  "orderMembers m hostID =
     (let hd = (case map_of m hostID of Some h \<Rightarrow> [h] | None \<Rightarrow> []);
          rest = map snd (filter (\<lambda>(k, mb). k \<noteq> hostID) m)
      in hd @ sort_loop rest 1)"

definition member_player :: "member \<Rightarrow> player" where
  "member_player m = \<lparr>ID = mbID m, Name = mbName m, Alive = True, Role = RoleNone, Keyword = ''''\<rparr>"

definition lobbyStateFromMembers :: "string \<Rightarrow> player_id \<Rightarrow> (player_id, member) gomap \<Rightarrow> state" where
  "lobbyStateFromMembers gameID hostID members =
     zero_state\<lparr>GameID := gameID, Phase := PhaseLobby, HostID := hostID,
       Players := map member_player (orderMembers members hostID), Votes := []\<rparr>"

definition persistedMembers :: "(player_id, member) gomap \<Rightarrow> persisted_member list" where
  "persistedMembers m =
     map (\<lambda>(k, mb). \<lparr>pmID = mbID mb, pmName = mbName mb, pmToken = mbToken mb,
            pmConnected = mbConnected mb, pmJoinedAt = mbJoinedAt mb\<rparr>) m"

section \<open>action.go\<close>

fun persist_trigger :: "event \<Rightarrow> bool" where
  "persist_trigger (PhaseChanged p d t) = True"
| "persist_trigger (DeathAnnounced v) = True"
| "persist_trigger (Eliminated p r) = True"
| "persist_trigger (GameEnded w r ps) = True"
| "persist_trigger (MafiaRepresentativeReassigned old new) = True"
| "persist_trigger _ = False"

definition shouldPersist :: "envelope list \<Rightarrow> bool" where
  "shouldPersist envs \<longleftrightarrow> list_ex (\<lambda>env. persist_trigger (Event env)) envs"

fun findGameEnded :: "envelope list \<Rightarrow> (team option \<times> end_reason \<times> player list) option" where
  "findGameEnded [] = None"
| "findGameEnded (env # envs) =
     (case Event env of GameEnded w r ps \<Rightarrow> Some (w, r, ps) | _ \<Rightarrow> findGameEnded envs)"

definition catalogContext :: "manager \<Rightarrow> catalog_context" where
  "catalogContext m =
     (let names = map (\<lambda>(k, mb). (k, mbName mb)) (sMembers (mSess m)); st = Snapshot (mEngine m) in
      \<lparr>GetName = Some (\<lambda>pid. case map_of names pid of
           Some n \<Rightarrow> n
         | None \<Rightarrow> (case FindPlayer st pid of Some p \<Rightarrow> Name p | None \<Rightarrow> pid)),
       ctxIntroSeconds = IntroSecondsPerPlayer (Settings st)\<rparr>)"

definition render_out :: "catalog_context \<Rightarrow> state \<Rightarrow> envelope \<Rightarrow> event_out" where
  "render_out cctx st env =
     (let a = Render env cctx in
      \<lparr>oEnvelope = Some env, oAnnouncement = (if IsEmpty a then None else Some a), oState = st\<rparr>)"

fun log_events :: "string \<Rightarrow> envelope list \<Rightarrow> db \<Rightarrow> db" where
  "log_events gid [] d = d"
| "log_events gid (env # envs) d = log_events gid envs (fst (AppendEvent gid env d))"

definition active_snap :: "manager \<Rightarrow> state \<Rightarrow> snapshot" where
  "active_snap m st = \<lparr>snGameID = sGameID (mSess m), snState = st,
     snMembers = persistedMembers (sMembers (mSess m)), snHostID = sHostID (mSess m)\<rparr>"

definition handleGameEnd :: "team option \<times> end_reason \<times> player list \<Rightarrow> state \<Rightarrow> manager \<Rightarrow> manager" where
  "handleGameEnd g st m =
     (let (w, reason, reveal) = g; (now, m) = clock_now m; sess = mSess m;
          (d, err) = SaveResultAndClearActive
            \<lparr>grGameID = sGameID sess, grStartedAt = sStartedAt sess, grEndedAt = now, grWinner = w,
             grEndReason = reason, grOptions = Settings st,
             grMembers = persistedMembers (sMembers sess), grReveal = reveal\<rparr> (mStore m);
          m = m\<lparr>mStore := d\<rparr>
      in case err of
           Some _ \<Rightarrow> m\<lparr>mSystemMsg := mSystemMsg m @ [SystemPersistFailure]\<rparr>
         | None \<Rightarrow> on_sess (\<lambda>s. s\<lparr>sStarted := False\<rparr>) m)"

definition dispatchHandlers :: "event_out list \<Rightarrow> manager \<Rightarrow> manager" where
  "dispatchHandlers outs m =
     m\<lparr>mDelivered := mDelivered m @ concat (map (\<lambda>h. map (Pair h) outs) (mHandlers m))\<rparr>"

definition persistAndDispatch :: "state \<Rightarrow> envelope list \<Rightarrow> manager \<Rightarrow> manager \<times> event_out list" where
  "persistAndDispatch st envs m =
     (let outs = map (\<lambda>a. \<lparr>oEnvelope = None, oAnnouncement = Some a, oState = st\<rparr>) (mSystemMsg m);
          m = m\<lparr>mSystemMsg := []\<rparr>;
          outs = outs @ map (render_out (catalogContext m) st) envs;
          m = (if EventLog (mOpts m) then m\<lparr>mStore := log_events (sGameID (mSess m)) envs (mStore m)\<rparr> else m);
          (m, outs) =
            (if shouldPersist envs
             then let (d, err) = SaveSnapshot (active_snap m st) (mStore m); m = m\<lparr>mStore := d\<rparr> in
               (m, case err of
                     None \<Rightarrow> outs
                   | Some _ \<Rightarrow> outs @ [\<lparr>oEnvelope = None, oAnnouncement = Some SystemPersistFailure,
                                       oState = zero_state\<rparr>])
             else (m, outs));
          m = (case findGameEnded envs of Some g \<Rightarrow> handleGameEnd g st m | None \<Rightarrow> m)
      in (dispatchHandlers outs m, outs))"

definition buildResultFromState :: "session_rec \<Rightarrow> state \<Rightarrow> time \<Rightarrow> game_result" where
  "buildResultFromState sess st now =
     \<lparr>grGameID = sGameID sess, grStartedAt = sStartedAt sess, grEndedAt = now, grWinner = Winner st,
      grEndReason = (case EndReason st of Some r \<Rightarrow> r | None \<Rightarrow> EndHostForceEnd),
      grOptions = Settings st, grMembers = persistedMembers (sMembers sess), grReveal = Players st\<rparr>"

fun senderOf :: "action \<Rightarrow> player_id" where
  "senderOf (SubmitMafiaKill m t) = m"
| "senderOf (SubmitDoctorHeal d t) = d"
| "senderOf (SubmitPoliceCheck p t) = p"
| "senderOf (SubmitVote v t) = v"
| "senderOf (StartGame h opts) = h"
| "senderOf (AdvanceIntro h) = h"
| "senderOf (EndSelfIntro p) = p"
| "senderOf (EndNightEarly h) = h"
| "senderOf (EndDiscussionEarly h) = h"
| "senderOf (ToggleVoice h on) = h"
| "senderOf (ForceEndGame h) = h"
| "senderOf (PauseGame h) = h"
| "senderOf (ResumeGame h) = h"

definition SubmitAction :: "'r rand_lib \<Rightarrow> action \<Rightarrow> manager \<Rightarrow> manager \<times> event_out list \<times> go_error option" where
  "SubmitAction lib a m =
     (if \<not> sStarted (mSess m) then (m, [], Some (errf CodeWrongPhase))
      else case Apply lib a (mEngine m) of
        (e, st, Inl err) \<Rightarrow>
          let m = m\<lparr>mEngine := e\<rparr>; errAnn = RenderError (Some err) (senderOf a) (catalogContext m) in
          (m, [\<lparr>oEnvelope = None, oAnnouncement = (if IsEmpty errAnn then None else Some errAnn),
                oState = zero_state\<rparr>], Some err)
      | (e, st, Inr envs) \<Rightarrow>
          let (m, outs) = persistAndDispatch st envs (m\<lparr>mEngine := e\<rparr>) in (m, outs, None))"

section \<open>tick.go\<close>

definition SessionTick :: "'r rand_lib \<Rightarrow> time \<Rightarrow> manager \<Rightarrow> manager" where
  "SessionTick lib now m =
     (if \<not> sStarted (mSess m) then m
      else case Tick lib now (mEngine m) of
        (e, st, Inl err) \<Rightarrow> m\<lparr>mEngine := e\<rparr>
      | (e, st, Inr envs) \<Rightarrow>
          if envs = [] then m\<lparr>mEngine := e\<rparr>
          else fst (persistAndDispatch st envs (m\<lparr>mEngine := e\<rparr>)))"

section \<open>lifecycle.go: joining and starting\<close>

definition bare_join :: "player_id \<Rightarrow> string \<Rightarrow> bool \<Rightarrow> state \<Rightarrow> join_result" where
  "bare_join pid tok isHost st =
     \<lparr>jrPlayerID = pid, jrToken = tok, jrIsHost = isHost, jrCurrentState = st,
      jrYourRole = RoleNone, jrYourKeyword = '''', jrYourTeam = TeamNone, jrMafiaCohort = []\<rparr>"

text \<open>Adding a member to the map and announcing it; shared by the two ways to join.\<close>

definition add_member :: "player_id \<Rightarrow> string \<Rightarrow> string \<Rightarrow> bool \<Rightarrow> manager \<Rightarrow> manager \<times> join_result" where
  "add_member pid name tok isHost m =
     (let (now, m) = clock_now m;
          m = on_sess (\<lambda>s. s\<lparr>sMembers := AList.update pid
                \<lparr>mbID = pid, mbName = name, mbToken = tok, mbConnected = True, mbJoinedAt = now\<rparr>
                (sMembers s)\<rparr>) m;
          lobby = lobbyStateFromMembers (sGameID (mSess m)) (sHostID (mSess m)) (sMembers (mSess m));
          (m, outs) = persistAndDispatch lobby [pub (PlayerJoined pid name)] m
      in (m, bare_join pid tok isHost lobby))"

definition CreateSession :: "string \<Rightarrow> manager \<Rightarrow> manager \<times> (go_error + join_result)" where
  "CreateSession hostName m =
     (if hostName = '''' then (m, Inl (EngineError CodeValidation ''hostName''))
      else if sStarted (mSess m) then (m, Inl (errf CodeWrongPhase))
      else if sMembers (mSess m) \<noteq> [] then (m, Inl (errf CodeWrongPhase))
      else
        let (hostID, m) = newID m; (m, tok) = issueUniqueToken m in
        case tok of
          Inl err \<Rightarrow> (m, Inl OtherError)
        | Inr tok \<Rightarrow>
            let (gid, m) = newID m;
                m = on_sess (\<lambda>s. s\<lparr>sGameID := gid, sHostID := hostID\<rparr>) m;
                (m, jr) = add_member hostID hostName tok True m
            in (m, Inr jr))"

definition JoinPlayer :: "string \<Rightarrow> manager \<Rightarrow> manager \<times> (go_error + join_result)" where
  "JoinPlayer name m =
     (if name = '''' then (m, Inl (EngineError CodeValidation ''name''))
      else if sStarted (mSess m) then (m, Inl (errf CodeWrongPhase))
      else if sMembers (mSess m) = [] \<and> \<not> sRoomOpened (mSess m) then (m, Inl (errf CodeWrongPhase))
      else if int (length (sMembers (mSess m))) \<ge> MaxLobbySize (mOpts m)
      then (m, Inl (EngineError CodeValidation ''lobby''))
      else if list_ex (\<lambda>(k, mb). mbName mb = name) (sMembers (mSess m))
      then (m, Inl (EngineError CodeValidation ''name''))
      else
        let (pid, m) = newID m; (m, tok) = issueUniqueToken m in
        case tok of
          Inl err \<Rightarrow> (m, Inl OtherError)
        | Inr tok \<Rightarrow> let (m, jr) = add_member pid name tok False m in (m, Inr jr))"

definition ResumePlayer :: "string \<Rightarrow> manager \<Rightarrow> manager \<times> (go_error + join_result)" where
  "ResumePlayer token m =
     (if token = '''' then (m, Inl (EngineError CodeValidation ''token''))
      else case List.find (\<lambda>(k, mb). mbToken mb = token) (sMembers (mSess m)) of
        None \<Rightarrow> (m, Inl (errf CodeUnknownPlayer))
      | Some (k, mb) \<Rightarrow>
          let m = on_sess (\<lambda>s. s\<lparr>sMembers := update_first (\<lambda>(k, mb). mbToken mb = token)
                     (\<lambda>(k, mb). (k, mb\<lparr>mbConnected := True\<rparr>)) (sMembers s)\<rparr>) m;
              v = BuildPrivateView (Snapshot (mEngine m)) (mbID mb) (sHostID (mSess m))
          in (m, Inr \<lparr>jrPlayerID = mbID mb, jrToken = token, jrIsHost = (mbID mb = sHostID (mSess m)),
                      jrCurrentState = pvState v, jrYourRole = YourRole v, jrYourKeyword = YourKeyword v,
                      jrYourTeam = YourTeam v, jrMafiaCohort = MafiaCohort v\<rparr>))"

text \<open>The common end of \<open>StartGame\<close> and \<open>HostStartGame\<close>.\<close>

definition start_engine ::
  "'r rand_lib \<Rightarrow> player_id \<Rightarrow> options \<Rightarrow> manager \<Rightarrow> manager \<times> (go_error + event_out list)" where
  "start_engine lib host opts m =
     (if int (length (sMembers (mSess m))) < MinPlayers (mOpts m)
      then (m, Inl (EngineError CodeValidation ''members''))
      else
        let players = map member_player (orderMembers (sMembers (mSess m)) host) in
        case Start lib (sGameID (mSess m)) host players opts (mEngine m) of
          (e, st, Inl err) \<Rightarrow> (m\<lparr>mEngine := e\<rparr>, Inl err)
        | (e, st, Inr envs) \<Rightarrow>
            let m = on_sess (\<lambda>s. s\<lparr>sStarted := True, sStartedAt := StartedAt st\<rparr>) (m\<lparr>mEngine := e\<rparr>);
                (m, outs) = persistAndDispatch st envs m
            in (m, Inr outs))"

definition StartGameSession ::
  "'r rand_lib \<Rightarrow> player_id \<Rightarrow> options \<Rightarrow> manager \<Rightarrow> manager \<times> (go_error + event_out list)" where
  "StartGameSession lib hostID opts m =
     (if sStarted (mSess m) then (m, Inl (errf CodeWrongPhase))
      else if hostID \<noteq> sHostID (mSess m) then (m, Inl (errf CodePermissionDenied))
      else start_engine lib hostID opts m)"

section \<open>lifecycle.go: the host's operations\<close>

definition ClaimHost :: "8 word list option \<Rightarrow> manager \<Rightarrow> manager \<times> (go_error + host_token)" where
  "ClaimHost b m = (let (cur, r) = Claim b (mHostAuth m) in (m\<lparr>mHostAuth := cur\<rparr>, r))"

definition ReleaseHost :: "host_token \<Rightarrow> manager \<Rightarrow> manager" where
  "ReleaseHost token m = m\<lparr>mHostAuth := Release token (mHostAuth m)\<rparr>"

definition OpenRoom :: "host_token \<Rightarrow> options \<Rightarrow> manager \<Rightarrow> manager \<times> (go_error + state)" where
  "OpenRoom token opts m =
     guard (Verify token (mHostAuth m)) (\<lambda>err. (m, Inl err))
     (if sStarted (mSess m) then (m, Inl (errf CodeWrongPhase))
      else if sMembers (mSess m) \<noteq> [] then (m, Inl (errf CodeWrongPhase))
      else
        let (gid, m) = newID m;
            m = on_sess (\<lambda>s. s\<lparr>sGameID := gid, sHostID := '''', sMembers := [],
                   sPendingOptions := opts, sRoomOpened := True\<rparr>) m;
            lobby = lobbyStateFromMembers (sGameID (mSess m)) (sHostID (mSess m)) (sMembers (mSess m));
            (m, outs) = persistAndDispatch lobby [] m
        in (m, Inr lobby))"

definition HostStartGame :: "'r rand_lib \<Rightarrow> host_token \<Rightarrow> manager \<Rightarrow> manager \<times> (go_error + event_out list)" where
  "HostStartGame lib token m =
     guard (Verify token (mHostAuth m)) (\<lambda>err. (m, Inl err))
     (if sStarted (mSess m) then (m, Inl (errf CodeWrongPhase))
      else if \<not> sRoomOpened (mSess m) then (m, Inl (errf CodeWrongPhase))
      else start_engine lib '''' (sPendingOptions (mSess m)) m)"

definition HostCloseRoom :: "host_token \<Rightarrow> manager \<Rightarrow> manager \<times> go_error option" where
  "HostCloseRoom token m =
     guard (Verify token (mHostAuth m)) (\<lambda>err. (m, Some err))
     (case Restore (mEngine m) (zero_state\<lparr>Phase := PhaseLobby, Players := [], Votes := []\<rparr>) of
        (e, Some err) \<Rightarrow> (m\<lparr>mEngine := e\<rparr>, Some err)
      | (e, None) \<Rightarrow> (m\<lparr>mEngine := e, mSess := zero_session\<rparr>, None))"

definition HostForceTerminate ::
  "'r rand_lib \<Rightarrow> host_token \<Rightarrow> manager \<Rightarrow> manager \<times> (go_error + event_out list)" where
  "HostForceTerminate lib token m =
     guard (Verify token (mHostAuth m)) (\<lambda>err. (m, Inl err))
     (if \<not> sStarted (mSess m) then (m, Inl (errf CodeWrongPhase))
      else
        let st = Snapshot (mEngine m) in
        case Apply lib (ForceEndGame (HostID st)) (mEngine m) of
          (e, st', Inl err) \<Rightarrow> (m\<lparr>mEngine := e\<rparr>, Inl err)
        | (e, st', Inr envs) \<Rightarrow>
            let (m, outs) = persistAndDispatch st' envs (m\<lparr>mEngine := e\<rparr>) in (m, Inr outs))"

section \<open>host\_options.go\<close>

definition saved_option_errors :: "options \<Rightarrow> field_error list" where
  "saved_option_errors opts =
     (if MaxPlayers opts < 6 \<or> MaxPlayers opts > 12 then [verr ''maxPlayers'' ''must be in [6,12]''] else [])
   @ (if MafiaCount opts < 1 then [verr ''mafiaCount'' ''must be >= 1''] else [])
   @ (if MaxPlayers opts \<ge> 6 \<and> MafiaCount opts \<ge> 1 \<and> MafiaCount opts > wrap64 (MaxPlayers opts - 3)
      then [verr ''mafiaCount'' ''mafiaCount must be <= maxPlayers - 3''] else [])
   @ (if IntroSecondsPerPlayer opts < 5 then [verr ''introSecondsPerPlayer'' ''must be >= 5''] else [])
   @ (if DiscussionSeconds opts < 30 then [verr ''discussionSeconds'' ''must be >= 30''] else [])
   @ (if NightMafiaSeconds opts < 5 then [verr ''nightMafiaSeconds'' ''must be >= 5''] else [])
   @ (if NightPoliceSeconds opts < 5 then [verr ''nightPoliceSeconds'' ''must be >= 5''] else [])
   @ (if NightDoctorSeconds opts < 5 then [verr ''nightDoctorSeconds'' ''must be >= 5''] else [])"

definition validateSavedHostOptions :: "options \<Rightarrow> go_error option" where
  "validateSavedHostOptions opts =
     (let errs = saved_option_errors opts in if errs = [] then None else Some (ValidationErrors errs))"

definition SaveHostOptions :: "host_token \<Rightarrow> options \<Rightarrow> manager \<Rightarrow> manager \<times> go_error option" where
  "SaveHostOptions token opts m =
     guard (Verify token (mHostAuth m)) (\<lambda>err. (m, Some err))
     (guard (validateSavedHostOptions opts) (\<lambda>err. (m, Some err))
       (m\<lparr>mSavedHostOptions := opts, mHasSavedHostOptions := True\<rparr>, None))"

definition SavedHostOptions :: "manager \<Rightarrow> options \<times> bool" where
  "SavedHostOptions m = (mSavedHostOptions m, mHasSavedHostOptions m)"

section \<open>session.go: boot, subscription, shutdown\<close>

definition restored_member :: "persisted_member \<Rightarrow> member" where
  "restored_member pm = \<lparr>mbID = pmID pm, mbName = pmName pm, mbToken = pmToken pm,
     mbConnected = False, mbJoinedAt = pmJoinedAt pm\<rparr>"

fun restored_members :: "persisted_member list \<Rightarrow> (player_id, member) gomap \<Rightarrow> (player_id, member) gomap" where
  "restored_members [] acc = acc"
| "restored_members (pm # pms) acc = restored_members pms (AList.update (pmID pm) (restored_member pm) acc)"

text \<open>
  The argument is the reading of the system's clock, which \<open>buildResultFromState\<close> takes with
  \<open>time.Now\<close> and not from the manager's clock.
\<close>

definition bootRestore :: "time \<Rightarrow> manager \<Rightarrow> manager \<times> go_error option" where
  "bootRestore sysnow m =
     (case LoadActiveSnapshot (mStore m) of
        (d, Inl err) \<Rightarrow> let (d, e) = ArchiveCorrupt d in (m\<lparr>mStore := d\<rparr>, e)
      | (d, Inr None) \<Rightarrow> (m\<lparr>mStore := d\<rparr>, None)
      | (d, Inr (Some snap)) \<Rightarrow>
          (case Restore (mEngine m) (snState snap) of
             (e, Some err) \<Rightarrow> let (d, er) = ArchiveCorrupt d in (m\<lparr>mStore := d, mEngine := e\<rparr>, er)
           | (e, None) \<Rightarrow>
               let sess = zero_session\<lparr>sGameID := snGameID snap, sMembers := restored_members (snMembers snap) [],
                     sHostID := snHostID snap, sStarted := isActivePhase (Phase (snState snap)),
                     sStartedAt := StartedAt (snState snap)\<rparr>;
                   m = m\<lparr>mStore := d, mEngine := e, mSess := sess\<rparr>;
                   m = (if Phase (snState snap) = PhaseEnd
                        then let (d, err) = SaveResultAndClearActive
                                   (buildResultFromState sess (snState snap) sysnow) (mStore m)
                             in on_sess (\<lambda>s. s\<lparr>sStarted := False\<rparr>) (m\<lparr>mStore := d\<rparr>)
                        else m)
               in (m\<lparr>mSystemMsg := mSystemMsg m @ [SystemRestore]\<rparr>, None)))"

definition NewManager ::
  "time \<Rightarrow> db \<Rightarrow> engine \<Rightarrow> (nat \<Rightarrow> time) \<Rightarrow> 8 word list \<Rightarrow> (nat \<Rightarrow> 8 word list) \<Rightarrow> session_opts \<Rightarrow> manager \<times> go_error option" where
  "NewManager sysnow store eng clock rng ids opts =
     bootRestore sysnow \<lparr>mStore = store, mEngine = eng, mClock = clock, mRand = rng, mIds = ids,
       mSess = zero_session, mHandlers = [], mNextHID = 0, mOpts = withDefaults opts, mClosed = False,
       mSystemMsg = [], mHostAuth = '''', mSavedHostOptions = zero_options,
       mHasSavedHostOptions = False, mDelivered = []\<rparr>"

definition Subscribe :: "manager \<Rightarrow> manager \<times> nat" where
  "Subscribe m =
     (let hid = mNextHID m + 1 in (m\<lparr>mNextHID := hid, mHandlers := mHandlers m @ [hid]\<rparr>, hid))"

definition unsubscribe :: "nat \<Rightarrow> manager \<Rightarrow> manager" where
  "unsubscribe hid m = m\<lparr>mHandlers := remove1 hid (mHandlers m)\<rparr>"

definition CloseManager :: "manager \<Rightarrow> manager \<times> go_error option" where
  "CloseManager m =
     (if mClosed m then (m, None)
      else
        let m = m\<lparr>mClosed := True\<rparr>;
            d = (if sStarted (mSess m)
                 then fst (SaveSnapshot (active_snap m (Snapshot (mEngine m))) (mStore m)) else mStore m);
            (d, err) = CloseStore d
        in (m\<lparr>mStore := d\<rparr>, err))"

definition RoomSnapshot :: "manager \<Rightarrow> room_snapshot" where
  "RoomSnapshot m =
     (let st = Snapshot (mEngine m);
          st = (if \<not> isActivePhase (Phase st) \<and> Phase st \<noteq> PhaseEnd
                then lobbyStateFromMembers (sGameID (mSess m)) (sHostID (mSess m)) (sMembers (mSess m))
                else st)
      in \<lparr>rsRoomOpened = sRoomOpened (mSess m), rsOptions = sPendingOptions (mSess m),
          rsGameStarted = isActivePhase (Phase st), rsState = st,
          rsHostOccupied = IsClaimed (mHostAuth m)\<rparr>)"

end
