(* ===== verification/Seating.thy ===== *)
theory Seating
  imports Session
begin

text \<open>
  Two self-contained parts of the session manager: the order in which the members are seated, which is
  an insertion sort by arrival with the host in front, and the host's seat, an interface with the
  laws of \<open>host_authority.go\<close>.
\<close>

section \<open>The seating order\<close>

fun ins_rev :: "member list \<Rightarrow> member \<Rightarrow> member list" where
  "ins_rev [] x = [x]"
| "ins_rev (y # ys) x = (if mbJoinedAt y > mbJoinedAt x then y # ins_rev ys x else x # y # ys)"

lemma swap_neighbours: "swap (length ys) (Suc (length ys)) (ys @ a # b # zs) = ys @ b # a # zs"
  by (simp add: swap_def nth_append list_update_append)

lemma sift_ins: "sift (pre @ x # post) (length pre) = rev (ins_rev (rev pre) x) @ post"
proof (induction pre arbitrary: post rule: rev_induct)
  case (snoc y pre)
  then show ?case
    by (simp add: nth_append swap_neighbours)
qed simp

lemma ins_rev_mset: "mset (ins_rev ys x) = add_mset x (mset ys)"
  by (induction ys) auto

abbreviation latest_first :: "member list \<Rightarrow> bool" where
  "latest_first \<equiv> sorted_wrt (\<lambda>a b. mbJoinedAt b \<le> mbJoinedAt a)"

lemma ins_rev_sorted: "latest_first ys \<Longrightarrow> latest_first (ins_rev ys x)"
proof (induction ys)
  case (Cons y ys)
  have "set (ins_rev ys x) = insert x (set ys)"
    using ins_rev_mset [of ys x] by (metis set_mset_add_mset_insert set_mset_mset)
  with Cons show ?case by fastforce
qed simp

lemma sift_prefix:
  assumes "i < length xs" "latest_first (rev (take i xs))"
  shows "latest_first (rev (take (Suc i) (sift xs i)))" "mset (sift xs i) = mset xs"
proof -
  have xs: "xs = take i xs @ xs ! i # drop (Suc i) xs" and l: "length (take i xs) = i"
    using assms(1) by (simp_all add: id_take_nth_drop)
  have s: "sift xs i = rev (ins_rev (rev (take i xs)) (xs ! i)) @ drop (Suc i) xs"
    using sift_ins [of "take i xs" "xs ! i" "drop (Suc i) xs"] l xs by simp
  have len: "length (ins_rev (rev (take i xs)) (xs ! i)) = Suc i"
    using arg_cong [OF ins_rev_mset [of "rev (take i xs)" "xs ! i"], of size] l by simp
  show "latest_first (rev (take (Suc i) (sift xs i)))"
    using ins_rev_sorted [OF assms(2)] len by (simp add: s)
  have "mset (sift xs i) = mset (take i xs @ xs ! i # drop (Suc i) xs)"
    by (simp add: s ins_rev_mset)
  then show "mset (sift xs i) = mset xs" using xs by simp
qed

lemma sort_loop_spec:
  "latest_first (rev (take i xs)) \<Longrightarrow>
   mset (sort_loop xs i) = mset xs \<and> latest_first (rev (sort_loop xs i))"
proof (induction xs i rule: sort_loop.induct)
  case (1 xs i)
  show ?case
  proof (cases "i < length xs")
    case True
    with 1 sift_prefix [OF True 1(2)] show ?thesis by (subst (1 2) sort_loop.simps) simp
  next
    case False
    with 1(2) show ?thesis by (subst (1 2) sort_loop.simps) simp
  qed
qed

lemma latest_first_rev: "latest_first (rev xs) \<longleftrightarrow> sorted (map mbJoinedAt xs)"
  by (simp add: sorted_wrt_rev sorted_wrt_map)

lemma host_split:
  assumes "gomap_ok m"
  shows "mset (case map_of m host of Some h \<Rightarrow> [h] | None \<Rightarrow> []) + mset (map snd (filter (\<lambda>(k, mb). k \<noteq> host) m))
    = mset (map snd m)"
  using assms
proof (induction m)
  case (Cons kv m)
  obtain k v where kv: "kv = (k, v)" by fastforce
  with Cons.prems have "gomap_ok m" "k \<notin> keys m" by (auto simp: gomap_ok_def)
  moreover have "filter (\<lambda>(k, mb). k \<noteq> host) m = m" if "host \<notin> keys m"
    using that by (force simp: filter_id_conv)
  ultimately show ?case
    using Cons.IH kv by (auto simp: map_of_eq_None_iff [symmetric] simp del: map_of_eq_None_iff split: option.splits)
qed simp

text \<open>
  The seating order. For every member map, \<open>orderMembers\<close> returns each member exactly once:
  the host first if the host is a member, then the others in the order of their arrival.
\<close>
theorem orderMembers_spec:
  assumes "gomap_ok m"
  shows "\<exists>rest. orderMembers m host = (case map_of m host of Some h \<Rightarrow> [h] | None \<Rightarrow> []) @ rest \<and>
    sorted (map mbJoinedAt rest) \<and> mset (orderMembers m host) = mset (map snd m)"
proof -
  let ?rest = "map snd (filter (\<lambda>(k, mb). k \<noteq> host) m)"
  have "latest_first (rev (take 1 xs))" for xs by (cases xs) simp_all
  from sort_loop_spec [OF this, of ?rest]
  have s: "mset (sort_loop ?rest 1) = mset ?rest" "sorted (map mbJoinedAt (sort_loop ?rest 1))"
    by (simp_all add: latest_first_rev)
  with s host_split [OF assms, of host] show ?thesis by (auto simp: orderMembers_def Let_def)
qed

definition demo_member :: "player_id \<Rightarrow> time \<Rightarrow> member" where
  "demo_member k t = \<lparr>mbID = k, mbName = k, mbToken = k, mbConnected = True, mbJoinedAt = t\<rparr>"

definition demo_members :: "(player_id, member) gomap" where
  "demo_members = map (\<lambda>(k, t). (k, demo_member k t)) [(''a'', 5), (''b'', 2), (''c'', 9), (''d'', 3)]"

theorem orderMembers_spec_witness:
  "map mbID (orderMembers demo_members ''c'') = [''c'', ''b'', ''d'', ''a''] \<and>
   (\<exists>rest. orderMembers demo_members ''c'' = [demo_member ''c'' 9] @ rest \<and> sorted (map mbJoinedAt rest))"
proof
  show "map mbID (orderMembers demo_members ''c'') = [''c'', ''b'', ''d'', ''a'']" by code_simp
  have "gomap_ok demo_members" by (simp add: gomap_ok_def demo_members_def)
  from orderMembers_spec [OF this, of "''c''"]
  show "\<exists>rest. orderMembers demo_members ''c'' = [demo_member ''c'' 9] @ rest \<and> sorted (map mbJoinedAt rest)"
    by (auto simp: demo_members_def)
qed

section \<open>The host's seat\<close>

locale host_seat =
  fixes claim :: "'b \<Rightarrow> 's \<Rightarrow> 's \<times> (go_error + 't)"
    and verify :: "'t \<Rightarrow> 's \<Rightarrow> go_error option"
    and release :: "'t \<Rightarrow> 's \<Rightarrow> 's"
    and taken :: "'s \<Rightarrow> bool"
    and good_input :: "'b \<Rightarrow> bool"
  assumes claim_ok: "good_input b \<Longrightarrow> claim b s = (s', Inr t) \<Longrightarrow> \<not> taken s \<and> taken s' \<and> verify t s' = None"
    and claim_err: "claim b s = (s', Inl err) \<Longrightarrow> s' = s"
    and claim_free: "taken s \<Longrightarrow> \<exists>err. claim b s = (s, Inl err)"
    and verify_unique: "verify t s = None \<Longrightarrow> verify t' s = None \<Longrightarrow> t' = t"
    and verify_taken: "verify t s = None \<Longrightarrow> taken s"
    and release_own: "verify t s = None \<Longrightarrow> \<not> taken (release t s)"
    and release_other: "verify t s \<noteq> None \<Longrightarrow> release t s = s"
begin

text \<open>While one token is valid nobody else can take the seat or be taken for the host.\<close>

lemma seat_exclusive:
  assumes "verify t s = None"
  shows "fst (claim b s) = s" "\<And>t'. t' \<noteq> t \<Longrightarrow> verify t' (release t' s) \<noteq> None \<and> verify t (release t' s) = None"
proof -
  show "fst (claim b s) = s"
    using claim_free [OF verify_taken [OF assms]] by (metis fst_conv)
  fix t' assume "t' \<noteq> t"
  then have "verify t' s \<noteq> None" using verify_unique [OF assms] by blast
  then show "verify t' (release t' s) \<noteq> None \<and> verify t (release t' s) = None"
    using release_other assms by metis
qed

end

lemma hex_encode_nonempty: "bs \<noteq> [] \<Longrightarrow> hex_encode bs \<noteq> ''''"
  by (cases bs) (simp_all add: hex_encode_def)

interpretation seat: host_seat Claim Verify Release IsClaimed "\<lambda>b. b \<noteq> Some []"
  by unfold_locales
     (auto simp: Claim_def Verify_def Release_def IsClaimed_def hex_encode_nonempty split: if_splits option.splits)

text \<open>
  C25: one host at a time. While a token is valid for the manager, a further claim is refused and
  leaves the seat as it is, and releasing any other token neither opens the seat nor makes that
  token valid; every host operation with any other token is refused with a permission error and
  changes nothing.
\<close>
theorem host_exclusive:
  assumes "Verify t (mHostAuth m) = None" "t' \<noteq> t"
  shows "fst (ClaimHost b m) = m \<and> ReleaseHost t' m = m \<and>
    OpenRoom t' opts m = (m, Inl (errf CodePermissionDenied)) \<and>
    HostStartGame lib t' m = (m, Inl (errf CodePermissionDenied)) \<and>
    HostForceTerminate lib t' m = (m, Inl (errf CodePermissionDenied)) \<and>
    HostCloseRoom t' m = (m, Some (errf CodePermissionDenied)) \<and>
    SaveHostOptions t' opts m = (m, Some (errf CodePermissionDenied))"
proof -
  have v: "Verify t' (mHostAuth m) = Some (errf CodePermissionDenied)"
    using assms by (auto simp: Verify_def split: if_splits)
  have "fst (Claim b (mHostAuth m)) = mHostAuth m"
    by (rule seat.seat_exclusive(1) [OF assms(1)])
  moreover have "Release t' (mHostAuth m) = mHostAuth m"
    using v by (intro seat.release_other) simp
  ultimately show ?thesis
    using v by (simp add: ClaimHost_def ReleaseHost_def OpenRoom_def HostStartGame_def HostForceTerminate_def
        HostCloseRoom_def SaveHostOptions_def split_beta Let_def)
qed

end
