(* ===== verification/Manager.thy ===== *)
theory Manager
  imports Seating
begin

text \<open>
  The session manager as a transition system: what persisting and dispatching leave alone, the
  invariant of the members and of the running game, one preservation lemma per operation, and the
  refinement of the engine's own transition system.
\<close>

section \<open>What dispatching leaves alone\<close>

text \<open>The parts of the manager that persisting and dispatching never touch.\<close>

definition roster :: "manager \<Rightarrow> _" where
  "roster m =
     (mEngine m, mOpts m, mIds m, mRand m, mHostAuth m, sMembers (mSess m), sGameID (mSess m), sHostID (mSess m),
      sPendingOptions (mSess m), sRoomOpened (mSess m))"

lemma AppendEvent_tables [simp]:
  "active_snapshot (fst (AppendEvent g env d)) = active_snapshot d"
  "game_results (fst (AppendEvent g env d)) = game_results d"
  by (simp_all add: AppendEvent_def Let_def split_beta)

lemma log_events_tables [simp]:
  "active_snapshot (log_events g envs d) = active_snapshot d" "game_results (log_events g envs d) = game_results d"
  by (induction envs arbitrary: d) simp_all

lemma SaveSnapshot_results [simp]: "game_results (fst (SaveSnapshot s d)) = game_results d"
  by (simp add: SaveSnapshot_def Let_def split_beta)

lemma finish_prefix: "prefix (game_results d) (game_results (fst (SaveResultAndClearActive r d)))"
  using sqlite.finish_atomic [of r d] by (metis prefixI prefix_order.refl prod.collapse)

lemma handleGameEnd_frame:
  "roster (handleGameEnd g st m) = roster m" "sStarted (mSess (handleGameEnd g st m)) \<Longrightarrow> sStarted (mSess m)"
  "prefix (game_results (mStore m)) (game_results (mStore (handleGameEnd g st m)))"
  by (simp_all add: handleGameEnd_def roster_def clock_now_def on_sess_def Let_def split_beta finish_prefix
      split: option.splits)

text \<open>The manager after the event log and the snapshot, before the end of the game is looked at.\<close>

definition recorded :: "state \<Rightarrow> envelope list \<Rightarrow> manager \<Rightarrow> manager" where
  "recorded st envs m =
     (let d = (if EventLog (mOpts m) then log_events (sGameID (mSess m)) envs (mStore m) else mStore m) in
      m\<lparr>mSystemMsg := [], mStore := (if shouldPersist envs then fst (SaveSnapshot (active_snap m st) d) else d)\<rparr>)"

lemma active_snap_frame [simp]:
  "active_snap (m\<lparr>mStore := d\<rparr>) st = active_snap m st" "active_snap (m\<lparr>mSystemMsg := msgs\<rparr>) st = active_snap m st"
  "active_snap (m\<lparr>mEngine := e\<rparr>) st = active_snap m st" "active_snap (m\<lparr>mClosed := c\<rparr>) st = active_snap m st"
  by (simp_all add: active_snap_def)

lemma pad_recorded:
  "fst (persistAndDispatch st envs m) = dispatchHandlers (snd (persistAndDispatch st envs m))
     (case findGameEnded envs of Some g \<Rightarrow> handleGameEnd g st (recorded st envs m) | None \<Rightarrow> recorded st envs m)"
  by (cases "EventLog (mOpts m)"; cases "shouldPersist envs"; cases "findGameEnded envs")
     (simp_all add: persistAndDispatch_def recorded_def Let_def split_beta)

lemma recorded_frame [simp]:
  "roster (recorded st envs m) = roster m" "mSess (recorded st envs m) = mSess m"
  "game_results (mStore (recorded st envs m)) = game_results (mStore m)"
  by (simp_all add: recorded_def roster_def Let_def)

lemma dispatch_frame [simp]:
  "roster (dispatchHandlers outs m) = roster m" "mSess (dispatchHandlers outs m) = mSess m"
  "mStore (dispatchHandlers outs m) = mStore m"
  by (simp_all add: dispatchHandlers_def roster_def)

lemma pad_frame:
  "roster (fst (persistAndDispatch st envs m)) = roster m"
  "sStarted (mSess (fst (persistAndDispatch st envs m))) \<Longrightarrow> sStarted (mSess m)"
  "prefix (game_results (mStore m)) (game_results (mStore (fst (persistAndDispatch st envs m))))"
  using handleGameEnd_frame [where st = st and m = "recorded st envs m"]
  by (auto simp: pad_recorded [of st envs m] split: option.splits)

section \<open>The invariant of the manager\<close>

definition members_ok :: "manager \<Rightarrow> bool" where
  "members_ok m \<longleftrightarrow>
     (let ms = sMembers (mSess m) in
      gomap_ok ms \<and> (\<forall>(k, mb)\<in>set ms. mbID mb = k \<and> k \<noteq> '''' \<and> mbName mb \<noteq> '''' \<and> mbToken mb \<noteq> '''') \<and>
      distinct (map (\<lambda>(k, mb). mbName mb) ms) \<and> distinct (map (\<lambda>(k, mb). mbToken mb) ms) \<and>
      int (length ms) \<le> MaxLobbySize (mOpts m))"

definition manager_inv :: "'r rand_lib \<Rightarrow> manager \<Rightarrow> bool" where
  "manager_inv lib m \<longleftrightarrow>
     members_ok m \<and> 1 \<le> MaxLobbySize (mOpts m) \<and> pool_ok (epool (mEngine m)) \<and>
     options_in_range (sPendingOptions (mSess m)) \<and> (sStarted (mSess m) \<longrightarrow> reachable lib (mEngine m))"

lemma members_ok_roster: "roster m' = roster m \<Longrightarrow> members_ok m' = members_ok m"
  by (simp add: members_ok_def roster_def)

lemma manager_inv_pad:
  assumes "manager_inv lib m"
  shows "manager_inv lib (fst (persistAndDispatch st envs m))"
  using assms pad_frame(1,2) [of st envs m] members_ok_roster [OF pad_frame(1) [of st envs m]]
  by (auto simp: manager_inv_def roster_def)

lemma manager_inv_engine:
  assumes "manager_inv lib m" "epool e = epool (mEngine m)" "sStarted (mSess m) \<longrightarrow> reachable lib e"
  shows "manager_inv lib (m\<lparr>mEngine := e\<rparr>)"
  using assms by (simp add: manager_inv_def members_ok_def)

section \<open>The steps of the manager\<close>

text \<open>
  Every exported operation, in any order and with any arguments. Identifiers come from the system's
  generator, so a step that creates one assumes it is new.
\<close>

definition new_id_ok :: "manager \<Rightarrow> bool" where
  "new_id_ok m \<longleftrightarrow> mIds m 0 \<noteq> [] \<and> hex_encode (mIds m 0) \<notin> keys (sMembers (mSess m))"

inductive manager_step :: "'r rand_lib \<Rightarrow> manager \<Rightarrow> manager \<Rightarrow> bool" for lib where
  create: "new_id_ok m \<Longrightarrow> manager_step lib m (fst (CreateSession name m))"
| join: "new_id_ok m \<Longrightarrow> manager_step lib m (fst (JoinPlayer name m))"
| resume: "manager_step lib m (fst (ResumePlayer tok m))"
| start: "options_in_range opts \<Longrightarrow> manager_step lib m (fst (StartGameSession lib host opts m))"
| submit: "manager_step lib m (fst (SubmitAction lib a m))"
| tick: "manager_step lib m (SessionTick lib now m)"
| claim: "manager_step lib m (fst (ClaimHost b m))"
| release: "manager_step lib m (ReleaseHost seat m)"
| open_room: "options_in_range opts \<Longrightarrow> manager_step lib m (fst (OpenRoom seat opts m))"
| host_start: "manager_step lib m (fst (HostStartGame lib seat m))"
| close_room: "manager_step lib m (fst (HostCloseRoom seat m))"
| force: "manager_step lib m (fst (HostForceTerminate lib seat m))"
| save_options: "manager_step lib m (fst (SaveHostOptions seat opts m))"
| subscribe: "manager_step lib m (fst (Subscribe m))"
| unsubscribe: "manager_step lib m (unsubscribe hid m)"

inductive_cases manager_stepE: "manager_step lib m m'"

definition kept :: "'r rand_lib \<Rightarrow> manager \<Rightarrow> manager \<Rightarrow> bool" where
  "kept lib m m' \<longleftrightarrow> manager_inv lib m' \<and> prefix (game_results (mStore m)) (game_results (mStore m'))"

lemma kept_pad:
  assumes "manager_inv lib m" "mStore m = mStore m0"
  shows "kept lib m0 (fst (persistAndDispatch st envs m))"
  using manager_inv_pad [OF assms(1)] pad_frame(3) [of m st envs] assms(2) by (simp add: kept_def)

lemma kept_refl: "manager_inv lib m \<Longrightarrow> kept lib m m"
  by (simp add: kept_def)

lemma kept_SubmitAction:
  assumes "manager_inv lib m"
  shows "kept lib m (fst (SubmitAction lib a m))"
proof (cases "sStarted (mSess m)")
  case True
  with assms have i: "reachable lib (mEngine m)" by (simp add: manager_inv_def)
  obtain e st out where r: "Apply lib a (mEngine m) = (e, st, out)" by (metis prod_cases3)
  have "manager_inv lib (m\<lparr>mEngine := e\<rparr>)"
    using reachable_step [OF i game_step.action [of lib _ a]] apply_action.respects [of "mEngine m" lib a] assms r
    by (intro manager_inv_engine) (auto simp: contract_def)
  then show ?thesis
    using True r kept_pad [of lib "m\<lparr>mEngine := e\<rparr>" m]
    by (cases out) (simp_all add: SubmitAction_def Let_def split_beta kept_def)
qed (simp add: SubmitAction_def kept_refl assms(1))

lemma resolveNight_pool: "epool (fst (resolveNight lib e)) = epool e"
  by (metis prod.collapse resolveNight_out)

lemma night_loop_pool: "epool (fst (night_loop lib now e evs)) = epool e"
proof (induction lib now e evs rule: night_loop.induct)
  case (1 lib now e evs)
  then show ?case
    by (subst night_loop.simps) (auto simp: Let_def split_beta resolveNight_pool split: sum.split)
qed

lemma transition_pool:
  "epool (res_engine (transitionIntroToDay now e)) = epool e"
  "epool (res_engine (transitionDayToVote now e)) = epool e"
  by (simp_all add: transitionIntroToDay_def transitionDayToVote_def Let_def)

lemma intro_loop_pool: "epool (fst (intro_loop now d e evs)) = epool e"
proof (induction now d e evs rule: intro_loop.induct)
  case (1 now d e evs)
  obtain e' s out where t: "transitionIntroToDay now e = (e', s, out)" by (metis prod_cases3)
  with transition_pool(1) [of now e] have "epool e' = epool e" by simp
  with 1 t show ?case
    by (subst intro_loop.simps) (auto simp: Let_def split: sum.split option.split)
qed

lemma with_state_pool: "epool (res_engine (with_state r)) = epool (fst r)"
  by (simp add: with_state_def split: prod.split sum.split)

lemma tickDay_pool: "epool (res_engine (tickDay now prev e)) = epool e"
  using transition_pool(2) [of now e]
  by (auto simp: tickDay_def Let_def split: prod.split sum.split)

lemma firePendingEnd_pool: "epool (res_engine (firePendingEnd now e)) = epool e"
  by (simp add: firePendingEnd_def endGame_def Let_def split_beta split: option.split)

lemma Tick_pool: "epool (res_engine (Tick lib now e)) = epool e"
  by (simp add: Tick_def tickIntro_def tickNight_def Let_def with_state_pool intro_loop_pool night_loop_pool
      tickDay_pool firePendingEnd_pool split: phase.split)


lemma kept_Tick:
  assumes "manager_inv lib m"
  shows "kept lib m (SessionTick lib now m)"
proof (cases "sStarted (mSess m)")
  case True
  with assms have i: "reachable lib (mEngine m)" by (simp add: manager_inv_def)
  obtain e st out where r: "Tick lib now (mEngine m) = (e, st, out)" by (metis prod_cases3)
  have "manager_inv lib (m\<lparr>mEngine := e\<rparr>)"
    using reachable_step [OF i game_step.tick [of lib _ now]] Tick_pool [of lib now "mEngine m"] assms r
    by (intro manager_inv_engine) auto
  then show ?thesis
    using True r kept_pad [of lib "m\<lparr>mEngine := e\<rparr>" m]
    by (cases out) (simp_all add: SessionTick_def kept_def)
qed (simp add: SessionTick_def kept_refl assms(1))

lemma kept_force:
  assumes "manager_inv lib m"
  shows "kept lib m (fst (HostForceTerminate lib seat m))"
proof (cases "sStarted (mSess m)")
  case True
  with assms have i: "reachable lib (mEngine m)" by (simp add: manager_inv_def)
  let ?a = "ForceEndGame (HostID (Snapshot (mEngine m)))"
  obtain e st out where r: "Apply lib ?a (mEngine m) = (e, st, out)" by (metis prod_cases3)
  have "manager_inv lib (m\<lparr>mEngine := e\<rparr>)"
    using reachable_step [OF i game_step.action [of lib _ ?a]] apply_action.respects [of "mEngine m" lib ?a] assms r
    by (intro manager_inv_engine) (auto simp: contract_def)
  then show ?thesis
    using True r kept_pad [of lib "m\<lparr>mEngine := e\<rparr>" m] kept_refl [OF assms(1)]
    by (cases out; cases "Verify seat (mHostAuth m)")
       (simp_all add: HostForceTerminate_def Let_def split_beta kept_def)
qed (use assms(1) in \<open>cases "Verify seat (mHostAuth m)"; simp add: HostForceTerminate_def kept_refl\<close>)

text \<open>The players handed to the engine: the members, each once.\<close>

lemma orderMembers_mset:
  assumes "gomap_ok ms"
  shows "mset (orderMembers ms host) = mset (map snd ms)"
proof -
  have "latest_first (rev (take 1 xs))" for xs by (cases xs) simp_all
  from sort_loop_spec [OF this] show ?thesis
    using host_split [OF assms, of host] by (simp add: orderMembers_def Let_def)
qed

lemma lobby_from_members:
  assumes "members_ok m" "options_in_range opts"
  shows "lobby_ok (map member_player (orderMembers (sMembers (mSess m)) host)) opts"
proof -
  let ?ms = "sMembers (mSess m)"
  have ok: "gomap_ok ?ms" "\<And>k mb. (k, mb) \<in> set ?ms \<Longrightarrow> mbID mb = k \<and> k \<noteq> ''''"
    using assms(1) by (auto simp: members_ok_def Let_def)
  have ids: "map mbID (map snd ?ms) = map fst ?ms"
    using ok(2) by (auto simp: comp_def)
  have "mset (map mbID (orderMembers ?ms host)) = mset (map fst ?ms)"
    using orderMembers_mset [OF ok(1), of host] ids by (metis mset_map)
  then have "distinct (map mbID (orderMembers ?ms host))" "set (map mbID (orderMembers ?ms host)) = keys ?ms"
    using ok(1) by (metis gomap_ok_def mset_eq_imp_distinct_iff, metis mset_eq_setD set_map)
  moreover have "'''' \<notin> keys ?ms" using ok(2) by fastforce
  moreover have "map ID (map member_player xs) = map mbID xs" for xs
    by (simp add: member_player_def)
  ultimately show ?thesis
    using assms(2) unfolding lobby_ok_def by (metis set_map)
qed

text \<open>A successful start depends on the engine only through its pool, clock and random source.\<close>

lemma Start_fresh:
  assumes "Start lib g h ps opts e = (e', s, Inr evs)"
  shows "Start lib g h ps opts (New (epool e) (eclock e) (erng e)) = (e', s, Inr evs)"
proof -
  obtain r rest where x: "extractSeed64 (erng e) = (r, rest)" by fastforce
  have new: "New (epool e) (eclock e) (erng e) = e\<lparr>est := zero_state\<rparr>" by (simp add: New_def)
  have n: "newInnerRand lib e = (map_option (rand_New lib) r, e\<lparr>erng := rest\<rparr>)"
    "newInnerRand lib (e\<lparr>est := zero_state\<rparr>) = (map_option (rand_New lib) r, e\<lparr>est := zero_state, erng := rest\<rparr>)"
    by (simp_all add: newInnerRand_def x)
  have p: "Phase zero_state = PhaseNone" by (simp add: zero_state_def)
  from assms obtain seed where seed: "r = Some seed"
    by (cases r) (auto simp: Start_def n split: if_splits)
  from assms obtain a where a: "Assign lib (epool e) (map ID ps) opts (rand_New lib seed) = Inr a"
    by (cases "Assign lib (epool e) (map ID ps) opts (rand_New lib seed)") (auto simp: Start_def n seed split: if_splits)
  have "Phase (est e) = PhaseNone \<or> Phase (est e) = PhaseLobby" "\<not> (length ps < 6 \<or> length ps > 12)"
    "\<not> (h \<noteq> '''' \<and> \<not> list_ex (\<lambda>p. ID p = h) ps)"
    using assms by (auto simp only: Start_def fail_def prod.inject sum.simps split: if_splits)
  then have "Start lib g h ps opts (e\<lparr>est := zero_state\<rparr>) = Start lib g h ps opts e"
    by (auto simp: Start_def n seed a p Now_def next_clock_def Let_def cong: option.case_cong)
  with assms new show ?thesis by simp
qed

lemma kept_start_engine:
  assumes "manager_inv lib m" "options_in_range opts" "\<not> sStarted (mSess m)"
  shows "kept lib m (fst (start_engine lib host opts m))"
proof -
  let ?ps = "map member_player (orderMembers (sMembers (mSess m)) host)"
  obtain e st out where r: "Start lib (sGameID (mSess m)) host ?ps opts (mEngine m) = (e, st, out)"
    by (metis prod_cases3)
  have p: "epool e = epool (mEngine m)"
    using start.respects [of "mEngine m" lib "sGameID (mSess m)" host ?ps opts] r by (simp add: contract_def)
  have l: "lobby_ok ?ps opts" "pool_ok (epool (mEngine m))"
    using assms(1,2) lobby_from_members by (auto simp: manager_inv_def)
  show ?thesis
  proof (cases out)
    case (Inl err)
    with p r assms(1,3) manager_inv_engine [OF assms(1) p] show ?thesis
      by (simp add: start_engine_def Let_def kept_def)
  next
    case (Inr envs)
    then have "reachable lib e"
      using started.intros [OF l(2,1) Start_fresh] r by (metis reachable_def rtranclp.rtrancl_refl)
    then have "manager_inv lib (on_sess (\<lambda>s. s\<lparr>sStarted := True, sStartedAt := t\<rparr>) (m\<lparr>mEngine := e\<rparr>))" for t
      using assms(1) p by (simp add: manager_inv_def members_ok_def on_sess_def)
    then show ?thesis
      using r Inr kept_refl [OF assms(1)]
      by (simp add: start_engine_def Let_def split_beta kept_pad on_sess_def)
  qed
qed

lemma kept_starts:
  assumes "manager_inv lib m"
  shows "options_in_range opts \<Longrightarrow> kept lib m (fst (StartGameSession lib host opts m))"
    "kept lib m (fst (HostStartGame lib seat m))"
proof -
  have "options_in_range (sPendingOptions (mSess m))" using assms(1) by (simp add: manager_inv_def)
  note k = kept_start_engine [OF assms this] kept_start_engine [OF assms] kept_refl [OF assms(1)]
  show "kept lib m (fst (HostStartGame lib seat m))"
    using k(1,3) by (cases "Verify seat (mHostAuth m)") (simp_all add: HostStartGame_def)
  show "options_in_range opts \<Longrightarrow> kept lib m (fst (StartGameSession lib host opts m))"
    using k(2,3) by (simp add: StartGameSession_def)
qed


text \<open>Joining: the token is new, the identifier is new, the name has been checked.\<close>

lemma newToken_nonempty: "newToken r = (Some t, r') \<Longrightarrow> t \<noteq> ''''"
  using hex_encode_nonempty [of "take tokenByteLen r"]
  by (cases r) (auto simp: newToken_def tokenByteLen_def split: if_splits)

lemma issue_loop_rand: "\<exists>r. fst (issue_loop n m) = m\<lparr>mRand := r\<rparr>"
proof (induction n arbitrary: m)
  case (Suc n)
  have "\<exists>r. m\<lparr>mRand := a\<rparr> = m\<lparr>mRand := r\<rparr>" for a by blast
  with Suc.IH [of "m\<lparr>mRand := snd (newToken (mRand m))\<rparr>"] show ?case
    by (auto simp: Let_def split_beta split: option.split)
qed (simp, metis manager.surjective manager.update_convs(4))

lemma issue_loop_fresh: "issue_loop n m = (m', Inr t) \<Longrightarrow> \<not> tokenInUse t m \<and> t \<noteq> ''''"
proof (induction n arbitrary: m)
  case (Suc n)
  obtain tok r where n: "newToken (mRand m) = (tok, r)" by fastforce
  have u: "tokenInUse t (m\<lparr>mRand := r\<rparr>) = tokenInUse t m" for t by (simp add: tokenInUse_def)
  from Suc.prems Suc.IH [of "m\<lparr>mRand := r\<rparr>"] n u show ?case
    by (cases tok) (auto simp: u newToken_nonempty Let_def split: if_splits)
qed simp


lemma update_fresh: "k \<notin> keys ms \<Longrightarrow> AList.update k v ms = ms @ [(k, v)]"
  by (induction ms) auto

lemma kept_add_member:
  assumes "manager_inv lib m" "pid \<notin> keys (sMembers (mSess m))" "pid \<noteq> ''''" "name \<noteq> ''''" "tok \<noteq> ''''"
    "\<not> tokenInUse tok m" "\<not> list_ex (\<lambda>(k, mb). mbName mb = name) (sMembers (mSess m))"
    "int (length (sMembers (mSess m))) < MaxLobbySize (mOpts m)"
  shows "kept lib m (fst (add_member pid name tok h m))"
proof -
  let ?mb = "\<lparr>mbID = pid, mbName = name, mbToken = tok, mbConnected = True, mbJoinedAt = mClock m 0\<rparr>"
  let ?m = "on_sess (\<lambda>s. s\<lparr>sMembers := sMembers s @ [(pid, ?mb)]\<rparr>) (snd (clock_now m))"
  have "members_ok ?m"
    using assms
    by (auto simp: manager_inv_def members_ok_def on_sess_def clock_now_def gomap_ok_def tokenInUse_def list_ex_iff Let_def)
  then have "manager_inv lib ?m"
    using assms(1) by (simp add: manager_inv_def on_sess_def clock_now_def)
  then show ?thesis
    using kept_pad [of lib ?m m] assms(2)
    by (simp add: add_member_def Let_def split_beta update_fresh on_sess_def clock_now_def)
qed

lemma manager_inv_frame:
  assumes "manager_inv lib m" "mSess m' = mSess m" "mOpts m' = mOpts m" "mEngine m' = mEngine m"
  shows "manager_inv lib m'"
  using assms by (simp add: manager_inv_def members_ok_def)

lemma kept_join:
  assumes "manager_inv lib m" "new_id_ok m"
  shows "kept lib m (fst (JoinPlayer name m))" "kept lib m (fst (CreateSession name m))"
proof -
  let ?m1 = "snd (newID m)"
  obtain m2 out where i: "issueUniqueToken ?m1 = (m2, out)" by fastforce
  then obtain r where m2: "m2 = ?m1\<lparr>mRand := r\<rparr>"
    using issue_loop_rand [of tokenAttempts ?m1] by (auto simp: issueUniqueToken_def)
  then have frame: "mSess m2 = mSess m" "mOpts m2 = mOpts m" "mEngine m2 = mEngine m" "mStore m2 = mStore m"
    by (simp_all add: newID_def)
  have tok: "\<not> tokenInUse t m \<and> t \<noteq> ''''" if "out = Inr t" for t
    using issue_loop_fresh [of tokenAttempts ?m1 m2 t] i that
    by (simp add: issueUniqueToken_def tokenInUse_def newID_def)
  have inv: "manager_inv lib m2" by (rule manager_inv_frame [OF assms(1) frame(1-3)])
  have k: "kept lib m m2" using inv frame by (simp add: kept_def)
  have pid: "fst (newID m) \<notin> keys (sMembers (mSess m))" "fst (newID m) \<noteq> ''''"
    using assms(2) hex_encode_nonempty by (auto simp: new_id_ok_def newID_def)
  show "kept lib m (fst (JoinPlayer name m))"
    using kept_refl [OF assms(1)] k kept_add_member [OF inv] tok pid frame i
    by (cases out) (auto simp: JoinPlayer_def Let_def split_beta tokenInUse_def kept_def)
  let ?m3 = "\<lambda>g. on_sess (\<lambda>s. s\<lparr>sGameID := g, sHostID := fst (newID m)\<rparr>) (snd (newID m2))"
  have m3: "manager_inv lib (?m3 g)" "sMembers (mSess (?m3 g)) = sMembers (mSess m)" "mOpts (?m3 g) = mOpts m"
    "mStore (?m3 g) = mStore m" for g
    using inv frame by (simp_all add: manager_inv_def members_ok_def on_sess_def newID_def)
  have "1 \<le> MaxLobbySize (mOpts m)" using assms(1) by (simp add: manager_inv_def)
  then have "kept lib m (fst (add_member (fst (newID m)) name t True (?m3 (fst (newID m2)))))"
    if "out = Inr t" "name \<noteq> ''''" "sMembers (mSess m) = []" for t
    using kept_add_member [OF m3(1), of "fst (newID m)" "fst (newID m2)" name t True] tok [OF that(1)] pid that(2,3)
    unfolding kept_def m3 by (simp add: tokenInUse_def m3)
  then show "kept lib m (fst (CreateSession name m))"
    using kept_refl [OF assms(1)] k i
    by (cases out) (simp_all add: CreateSession_def Let_def split_beta)
qed


text \<open>The invariant of the members depends only on their keys, identifiers, names and tokens.\<close>

definition cards :: "(player_id, member) gomap \<Rightarrow> (player_id \<times> player_id \<times> string \<times> string) list" where
  "cards ms = map (\<lambda>(k, mb). (k, mbID mb, mbName mb, mbToken mb)) ms"

lemma members_ok_cards:
  "members_ok m \<longleftrightarrow>
     (let cs = cards (sMembers (mSess m)) in
      distinct (map fst cs) \<and> (\<forall>(k, i, n, t)\<in>set cs. i = k \<and> k \<noteq> '''' \<and> n \<noteq> '''' \<and> t \<noteq> '''') \<and>
      distinct (map (fst \<circ> snd \<circ> snd) cs) \<and> distinct (map (snd \<circ> snd \<circ> snd) cs) \<and>
      int (length cs) \<le> MaxLobbySize (mOpts m))"
  by (simp add: members_ok_def cards_def Let_def gomap_ok_def comp_def case_prod_unfold)

lemma kept_resume:
  assumes "manager_inv lib m"
  shows "kept lib m (fst (ResumePlayer tok m))"
proof -
  let ?f = "update_first (\<lambda>(k, mb). mbToken mb = tok) (\<lambda>(k, mb). (k, mb\<lparr>mbConnected := True\<rparr>))"
  have "cards (?f ms) = cards ms" for ms
    by (induction ms) (auto simp: cards_def)
  then have "manager_inv lib (on_sess (\<lambda>s. s\<lparr>sMembers := ?f (sMembers s)\<rparr>) m)"
    using assms by (simp add: manager_inv_def members_ok_cards on_sess_def)
  then show ?thesis
    using kept_refl [OF assms]
    by (auto simp: ResumePlayer_def Let_def kept_def split: option.split) (simp_all add: on_sess_def)
qed

lemma kept_rooms:
  assumes "manager_inv lib m"
  shows "options_in_range opts \<Longrightarrow> kept lib m (fst (OpenRoom seat opts m))" "kept lib m (fst (HostCloseRoom seat m))"
proof -
  have z: "options_in_range zero_options" "1 \<le> MaxLobbySize (mOpts m)"
    using assms by (simp_all add: manager_inv_def options_in_range_def zero_options_def int64_range_def)
  let ?m = "\<lambda>g. on_sess (\<lambda>s. s\<lparr>sGameID := g, sHostID := '''', sMembers := [], sPendingOptions := opts, sRoomOpened := True\<rparr>)
      (snd (newID m))"
  assume "options_in_range opts"
  then have "manager_inv lib (?m g)" "mStore (?m g) = mStore m" for g
    using assms z by (simp_all add: manager_inv_def members_ok_def on_sess_def newID_def)
  from kept_pad [OF this] show "kept lib m (fst (OpenRoom seat opts m))"
    using kept_refl [OF assms]
    by (cases "Verify seat (mHostAuth m)") (simp_all add: OpenRoom_def Let_def split_beta)
next
  have "options_in_range zero_options" "1 \<le> MaxLobbySize (mOpts m)"
    using assms by (simp_all add: manager_inv_def options_in_range_def zero_options_def int64_range_def)
  then show "kept lib m (fst (HostCloseRoom seat m))"
    using kept_refl [OF assms] assms
    by (cases "Verify seat (mHostAuth m)")
       (simp_all add: HostCloseRoom_def Restore_def kept_def manager_inv_def members_ok_def zero_session_def)
qed

lemma manager_step_kept:
  assumes "manager_inv lib m" "manager_step lib m m'"
  shows "kept lib m m'"
  using assms(2)
proof cases
  case (save_options seat opts)
  have "manager_inv lib (m\<lparr>mSavedHostOptions := opts, mHasSavedHostOptions := True\<rparr>)"
    by (rule manager_inv_frame [OF assms(1)]) simp_all
  with save_options kept_refl [OF assms(1)] show ?thesis
    by (cases "Verify seat (mHostAuth m)"; cases "validateSavedHostOptions opts")
       (simp_all add: SaveHostOptions_def kept_def)
next
  case (claim b)
  then show ?thesis
    using manager_inv_frame [OF assms(1), of m'] by (simp add: ClaimHost_def split_beta kept_def)
next
  case (release seat)
  then show ?thesis
    using manager_inv_frame [OF assms(1), of m'] by (simp add: ReleaseHost_def kept_def)
next
  case subscribe
  then show ?thesis
    using manager_inv_frame [OF assms(1), of m'] by (simp add: Subscribe_def Let_def kept_def)
next
  case (unsubscribe hid)
  then show ?thesis
    using manager_inv_frame [OF assms(1), of m'] by (simp add: unsubscribe_def kept_def)
qed (use assms in \<open>simp_all add: kept_join kept_resume kept_starts kept_SubmitAction kept_Tick kept_rooms kept_force\<close>)


section \<open>What holds in every session\<close>

text \<open>
  What the table of the active game may hold when a process comes up: nothing, a row that cannot be
  read, or a state of some run of the engine over the same keyword pool, with a legal list of members.
\<close>

definition roll_ok :: "int \<Rightarrow> persisted_member list \<Rightarrow> bool" where
  "roll_ok cap pms \<longleftrightarrow>
     distinct (map pmID pms) \<and> distinct (map pmName pms) \<and> distinct (map pmToken pms) \<and>
     (\<forall>pm\<in>set pms. pmID pm \<noteq> '''' \<and> pmName pm \<noteq> '''' \<and> pmToken pm \<noteq> '''') \<and> int (length pms) \<le> cap"

definition row_ok :: "'r rand_lib \<Rightarrow> keyword_pool \<Rightarrow> int \<Rightarrow> db \<Rightarrow> bool" where
  "row_ok lib pool cap d \<longleftrightarrow>
     (\<forall>snap. active_snapshot d = Some (Some snap) \<longrightarrow>
        roll_ok cap (snMembers snap) \<and> (\<exists>e. reachable lib e \<and> epool e = pool \<and> est e = snState snap))"

text \<open>A process that comes up, on a fresh database or on what an earlier process left.\<close>

inductive booted :: "'r rand_lib \<Rightarrow> manager \<Rightarrow> bool" for lib where
  "pool_ok pool \<Longrightarrow> row_ok lib pool (MaxLobbySize (withDefaults opts)) store \<Longrightarrow>
   booted lib (fst (NewManager sysnow store (New pool clk rng) clock seed ids opts))"

lemma finish_row: "active_snapshot (fst (SaveResultAndClearActive r d)) \<in> {active_snapshot d, None}"
  using sqlite.finish_atomic [of r d] by (metis insertCI prod.collapse)

lemma restored_members_fresh:
  "distinct (map pmID pms) \<Longrightarrow> keys acc \<inter> pmID ` set pms = {} \<Longrightarrow>
   restored_members pms acc = acc @ map (\<lambda>pm. (pmID pm, restored_member pm)) pms"
  by (induction pms arbitrary: acc) (auto simp: update_fresh)

text \<open>What a process comes up with: nothing, or the game of the row, in the state it was saved in.\<close>

lemma boot_cases:
  assumes "NewManager sysnow store eng clock seed ids opts = (m, err)"
  shows "mOpts m = withDefaults opts" "mHostAuth m = ''''" "\<not> mClosed m" "epool (mEngine m) = epool eng"
    "sPendingOptions (mSess m) = zero_options" "active_snapshot (mStore m) \<in> {active_snapshot store, None}"
    "\<not> sStarted (mSess m) \<and> sMembers (mSess m) = [] \<or>
     (\<exists>snap. active_snapshot store = Some (Some snap) \<and> sMembers (mSess m) = restored_members (snMembers snap) [] \<and>
        sStarted (mSess m) = isActivePhase (Phase (snState snap)) \<and> mEngine m = fst (Restore eng (snState snap)))"
proof -
  note defs = NewManager_def bootRestore_def
  have arch: "active_snapshot (fst (ArchiveCorrupt d)) \<in> {active_snapshot d, None}" for d
    by (simp add: ArchiveCorrupt_def CloseStore_def Let_def split_beta)
  obtain d out where l: "LoadActiveSnapshot store = (d, out)" by fastforce
  then have d: "active_snapshot d = active_snapshot store"
    "\<And>s. out = Inr (Some s) \<Longrightarrow> active_snapshot store = Some (Some s)"
    by (auto simp: LoadActiveSnapshot_def Let_def split_beta split: if_splits option.splits)
  have "mOpts m = withDefaults opts \<and> mHostAuth m = '''' \<and> \<not> mClosed m \<and> epool (mEngine m) = epool eng \<and>
    sPendingOptions (mSess m) = zero_options \<and> active_snapshot (mStore m) \<in> {active_snapshot store, None} \<and>
    (\<not> sStarted (mSess m) \<and> sMembers (mSess m) = [] \<or>
     (\<exists>snap. active_snapshot store = Some (Some snap) \<and> sMembers (mSess m) = restored_members (snMembers snap) [] \<and>
        sStarted (mSess m) = isActivePhase (Phase (snState snap)) \<and> mEngine m = fst (Restore eng (snState snap))))"
  proof (cases out)
    case (Inl err)
    with assms l arch [of d] d show ?thesis by (auto simp: defs zero_session_def Let_def split_beta)
  next
    case (Inr res)
    show ?thesis
    proof (cases res)
      case None
      with Inr assms l d show ?thesis by (auto simp: defs zero_session_def)
    next
      case (Some snap)
      with Inr have s: "active_snapshot store = Some (Some snap)" "out = Inr (Some snap)" using d by simp_all
      let ?r = "buildResultFromState (zero_session\<lparr>sGameID := snGameID snap, sMembers := restored_members (snMembers snap) [],
          sHostID := snHostID snap, sStarted := False, sStartedAt := StartedAt (snState snap)\<rparr>) (snState snap) sysnow"
      have "active_snapshot (fst (SaveResultAndClearActive ?r d)) \<in> {active_snapshot d, None}" by (rule finish_row)
      with s assms l arch [of d] d(1) show ?thesis
        by (auto simp: defs zero_session_def Restore_def isActivePhase_def on_sess_def Let_def split_beta split: if_splits)
    qed
  qed
  then show "mOpts m = withDefaults opts" "mHostAuth m = ''''" "\<not> mClosed m" "epool (mEngine m) = epool eng"
    "sPendingOptions (mSess m) = zero_options" "active_snapshot (mStore m) \<in> {active_snapshot store, None}"
    "\<not> sStarted (mSess m) \<and> sMembers (mSess m) = [] \<or>
     (\<exists>snap. active_snapshot store = Some (Some snap) \<and> sMembers (mSess m) = restored_members (snMembers snap) [] \<and>
        sStarted (mSess m) = isActivePhase (Phase (snState snap)) \<and> mEngine m = fst (Restore eng (snState snap)))"
    by simp_all
qed

lemma roll_members_ok:
  assumes "roll_ok (MaxLobbySize (mOpts m)) pms" "sMembers (mSess m) = restored_members pms []"
  shows "members_ok m"
proof -
  have "distinct (map pmID pms)" using assms(1) by (simp add: roll_ok_def)
  from restored_members_fresh [OF this] have ms: "sMembers (mSess m) = map (\<lambda>pm. (pmID pm, restored_member pm)) pms"
    using assms(2) by simp
  with assms(1) show ?thesis
    by (auto simp: members_ok_def roll_ok_def gomap_ok_def restored_member_def comp_def Let_def)
qed

lemma booted_inv:
  assumes "booted lib m"
  shows "manager_inv lib m"
  using assms
proof cases
  case (1 pool opts store sysnow clk rng clock seed ids)
  let ?eng = "New pool clk rng"
  obtain err where "NewManager sysnow store ?eng clock seed ids opts = (m, err)" using 1(1) by (metis eq_fst_iff)
  note boot = boot_cases [OF this]
  have z: "options_in_range zero_options"
    by (simp add: options_in_range_def zero_options_def int64_range_def)
  have cap: "1 \<le> MaxLobbySize (mOpts m)" by (simp add: boot(1) withDefaults_def)
  have "members_ok m \<and> (sStarted (mSess m) \<longrightarrow> reachable lib (mEngine m))"
    using boot(7)
  proof (elim disjE exE conjE)
    fix snap assume s: "active_snapshot store = Some (Some snap)" "sMembers (mSess m) = restored_members (snMembers snap) []"
      "mEngine m = fst (Restore ?eng (snState snap))"
    with 1(3) obtain e where e: "roll_ok (MaxLobbySize (mOpts m)) (snMembers snap)" "reachable lib e" "epool e = pool"
        "est e = snState snap"
      unfolding row_ok_def boot(1) by blast
    have "mEngine m = fst (Restore (New (epool e) clk rng) (Snapshot e))" using e s(3) by (simp add: Snapshot_def)
    then have "reachable lib (mEngine m)" using reachable_step [OF e(2) game_step.restart] by simp
    with roll_members_ok [OF e(1) s(2)] show ?thesis by simp
  qed (use cap in \<open>simp add: members_ok_def gomap_ok_def\<close>)
  with z cap 1(2) boot(4,5) show ?thesis by (simp add: manager_inv_def New_def)
qed

interpretation room: transition_system
  "\<lambda>(l :: 'r rand_lib, m). booted l m"
  "\<lambda>(l, m) (l', m'). l' = l \<and> manager_step l m m'"
  "\<lambda>(l, m). manager_inv l m"
  "\<lambda>(l, m) (l', m'). l' = l \<and> prefix (game_results (mStore m)) (game_results (mStore m'))"
  by unfold_locales
     (auto simp: kept_def booted_inv dest: manager_step_kept prefix_order.trans)

lemma manager_run_lift:
  "(manager_step lib)\<^sup>*\<^sup>* m m' \<Longrightarrow> (\<lambda>(l, m) (l', m'). l' = l \<and> manager_step l m m')\<^sup>*\<^sup>* (lib, m) (lib, m')"
  by (induction rule: rtranclp_induct) (auto intro: rtranclp.rtrancl_into_rtrancl)

lemma session_inv: "booted lib m0 \<Longrightarrow> (manager_step lib)\<^sup>*\<^sup>* m0 m \<Longrightarrow> manager_inv lib m"
  using room.run_good [OF _ manager_run_lift] by fastforce

text \<open>
  C19: the membership of a session. Whatever operations arrive and in whatever order, and whatever
  statements of the database fail, no two members share an identifier, a name or a token, none of
  these is empty, the lobby is never over its capacity, and no recorded result is ever lost.
\<close>
theorem session_members:
  assumes "booted lib m0" "(manager_step lib)\<^sup>*\<^sup>* m0 m"
  shows "let ms = sMembers (mSess m) in
    distinct (map fst ms) \<and> distinct (map (\<lambda>(k, mb). mbName mb) ms) \<and> distinct (map (\<lambda>(k, mb). mbToken mb) ms) \<and>
    (\<forall>(k, mb)\<in>set ms. mbID mb = k \<and> k \<noteq> '''' \<and> mbName mb \<noteq> '''' \<and> mbToken mb \<noteq> '''') \<and>
    int (length ms) \<le> MaxLobbySize (mOpts m) \<and> prefix (game_results (mStore m0)) (game_results (mStore m))"
  using session_inv [OF assms] room.steps_later [OF manager_run_lift [OF assms(2)]] booted_inv [OF assms(1)]
  by (auto simp: manager_inv_def members_ok_def gomap_ok_def Let_def)

text \<open>
  C9: the session layer refines the engine. While a session has a game in progress, its engine is
  in a state of the engine's own transition system: the manager starts games only with players and
  options the engine may rely on, and touches the game only through actions and ticks. So
  everything proved of reachable games holds for the games the manager runs.
\<close>
theorem session_refines_engine:
  assumes "booted lib m0" "(manager_step lib)\<^sup>*\<^sup>* m0 m" "sStarted (mSess m)"
  shows "reachable lib (mEngine m)"
  using session_inv [OF assms(1,2)] assms(3) by (simp add: manager_inv_def)

end
