(* ===== verification/Durability.thy ===== *)
theory Durability
  imports Manager
begin

text \<open>
  What the database holds after a turn, and what a process that starts on it comes up with.
\<close>

section \<open>What survives a restart\<close>

text \<open>One turn of a running session: an action or a tick, at the engine and at the manager.\<close>

fun engine_turn :: "'r rand_lib \<Rightarrow> command \<Rightarrow> engine \<Rightarrow> result" where
  "engine_turn lib (Act a) e = Apply lib a e"
| "engine_turn lib (At t) e = Tick lib t e"

fun session_turn :: "'r rand_lib \<Rightarrow> command \<Rightarrow> manager \<Rightarrow> manager" where
  "session_turn lib (Act a) m = fst (SubmitAction lib a m)"
| "session_turn lib (At t) m = SessionTick lib t m"

lemma turn_pad:
  assumes "sStarted (mSess m)" "engine_turn lib c (mEngine m) = (e, st, Inr envs)" "envs \<noteq> []"
  shows "session_turn lib c m = fst (persistAndDispatch st envs (m\<lparr>mEngine := e\<rparr>))"
  using assms by (cases c) (simp_all add: SubmitAction_def SessionTick_def split_beta Let_def)

lemma ok_state: "ok e evs = (e', st, Inr envs) \<Longrightarrow> st = est e'"
  by (auto simp: ok_def)

lemma with_state_returned: "with_state r = (e, st, Inr envs) \<Longrightarrow> st = est e"
  by (auto simp: with_state_def ok_def fail_def split: prod.splits sum.splits)

lemma fire_ends: "firePendingEnd now e = (e', st, Inr envs) \<Longrightarrow> findGameEnded envs \<noteq> None"
  by (auto simp: firePendingEnd_def endGame_def fail_def Let_def split: option.splits)

lemma Tick_state:
  assumes "Tick lib now e = (e', st, Inr envs)" "findGameEnded envs = None"
  shows "st = est e'"
proof -
  have "firePendingEnd now e \<noteq> (e', st, Inr envs)" using fire_ends [of now e e' st envs] assms(2) by blast
  with assms(1) show ?thesis
    by (auto simp: Tick_def Let_def tickIntro_def tickNight_def tickDay_def fail_def
        dest: ok_state with_state_returned split: if_splits phase.splits prod.splits sum.splits)
qed

lemma turn_state:
  assumes "engine_turn lib c e = (e', st, Inr envs)" "findGameEnded envs = None"
  shows "st = est e'"
proof (cases c)
  case (Act a)
  with assms apply_action.respects [of e lib a] show ?thesis by (simp add: contract_def)
next
  case (At t)
  with assms show ?thesis by (simp add: Tick_state)
qed

lemma AppendEvent_fault_free: "fault_free d \<Longrightarrow> fault_free (fst (AppendEvent g env d))"
  using fault_free_exec [of d] by (auto simp: AppendEvent_def Let_def split_beta fault_free_def)

lemma log_events_fault_free: "fault_free d \<Longrightarrow> fault_free (log_events g envs d)"
  by (induction envs arbitrary: d) (simp_all add: AppendEvent_fault_free)

lemma recorded_saved:
  assumes "fault_free (mStore m)" "shouldPersist envs"
  shows "fault_free (mStore (recorded st envs m)) \<and>
    active_snapshot (mStore (recorded st envs m)) = Some (Some (active_snap m st))"
proof -
  let ?d = "if EventLog (mOpts m) then log_events (sGameID (mSess m)) envs (mStore m) else mStore m"
  have "fault_free ?d" using assms(1) log_events_fault_free by simp
  then obtain d' where "SaveSnapshot (active_snap m st) ?d = (d', None)" "fault_free d'"
    "active_snapshot d' = Some (Some (active_snap m st))"
    using SaveSnapshot_fault_free [of ?d "active_snap m st"] by blast
  with assms(2) show ?thesis by (simp add: recorded_def)
qed

lemma restored_persisted:
  assumes "members_ok m"
  shows "restored_members (persistedMembers (sMembers (mSess m))) [] =
    map (\<lambda>(k, mb). (k, mb\<lparr>mbConnected := False\<rparr>)) (sMembers (mSess m))"
proof -
  have ids: "\<And>k mb. (k, mb) \<in> set (sMembers (mSess m)) \<Longrightarrow> mbID mb = k" "gomap_ok (sMembers (mSess m))"
    using assms by (auto simp: members_ok_def Let_def)
  have "map pmID (persistedMembers (sMembers (mSess m))) = map fst (sMembers (mSess m))"
    using ids(1) by (auto simp: persistedMembers_def)
  then have "distinct (map pmID (persistedMembers (sMembers (mSess m))))"
    using ids(2) by (simp only: gomap_ok_def)
  from restored_members_fresh [OF this] show ?thesis
    using ids(1) by (auto simp: persistedMembers_def restored_member_def)
qed

lemma boot_restores:
  assumes "fault_free d" "active_snapshot d = Some (Some snap)" "isActivePhase (Phase (snState snap))"
    "NewManager sysnow d eng clock rng ids opts = (m, err)"
  shows "err = None" "est (mEngine m) = snState snap" "sGameID (mSess m) = snGameID snap"
    "sHostID (mSess m) = snHostID snap" "sStarted (mSess m)" "sMembers (mSess m) = restored_members (snMembers snap) []"
proof -
  obtain d' where l: "LoadActiveSnapshot d = (d', Inr (Some snap))"
    using LoadActiveSnapshot_fault_free [OF assms(1,2)] by blast
  note defs = NewManager_def bootRestore_def l Restore_def isActivePhase_def
  show "err = None" "est (mEngine m) = snState snap" "sGameID (mSess m) = snGameID snap"
    "sHostID (mSess m) = snHostID snap" "sStarted (mSess m)" "sMembers (mSess m) = restored_members (snMembers snap) []"
    using assms(3,4) by (auto simp: defs)
qed

lemma resume_by_token:
  assumes "distinct (map (\<lambda>(k, mb). mbToken mb) (sMembers (mSess m)))" "(k, mb) \<in> set (sMembers (mSess m))"
    "mbToken mb \<noteq> ''''"
  shows "\<exists>m' jr. ResumePlayer (mbToken mb) m = (m', Inr jr) \<and> jrPlayerID jr = mbID mb"
proof -
  have "List.find (\<lambda>(k, x). mbToken x = mbToken mb) ms = Some (k, mb)"
    if "distinct (map (\<lambda>(k, mb). mbToken mb) ms)" "(k, mb) \<in> set ms" for ms
    using that by (induction ms) (force split: prod.splits)+
  from this [OF assms(1,2)] have "List.find (\<lambda>(k, x). mbToken x = mbToken mb) (sMembers (mSess m)) = Some (k, mb)" .
  then show ?thesis using assms(3) by (simp add: ResumePlayer_def Let_def)
qed

text \<open>A process that starts on a saved session comes up with it, and every member can resume.\<close>

lemma boot_saved:
  assumes "members_ok m" "fault_free d" "active_snapshot d = Some (Some (active_snap m st))" "isActivePhase (Phase st)"
    "NewManager sysnow d eng clock seed ids opts = (r, err)"
  shows "err = None \<and> est (mEngine r) = st \<and> sStarted (mSess r) \<and> sGameID (mSess r) = sGameID (mSess m) \<and>
    sHostID (mSess r) = sHostID (mSess m) \<and>
    sMembers (mSess r) = map (\<lambda>(k, mb). (k, mb\<lparr>mbConnected := False\<rparr>)) (sMembers (mSess m)) \<and>
    (\<forall>(k, mb)\<in>set (sMembers (mSess m)). \<exists>r' jr. ResumePlayer (mbToken mb) r = (r', Inr jr) \<and> jrPlayerID jr = k)"
proof -
  have active: "isActivePhase (Phase (snState (active_snap m st)))"
    using assms(4) by (simp add: active_snap_def)
  note boot = boot_restores [OF assms(2,3) active assms(5)]
  have ms: "sMembers (mSess r) = map (\<lambda>(k, mb). (k, mb\<lparr>mbConnected := False\<rparr>)) (sMembers (mSess m))"
    using boot(6) restored_persisted [OF assms(1)] by (simp add: active_snap_def)
  have "\<exists>r' jr. ResumePlayer (mbToken mb) r = (r', Inr jr) \<and> jrPlayerID jr = k"
    if "(k, mb) \<in> set (sMembers (mSess m))" for k mb
  proof -
    have "distinct (map (\<lambda>(k, mb). mbToken mb) (sMembers (mSess r)))"
      using assms(1) by (simp add: ms members_ok_def Let_def comp_def case_prod_unfold)
    moreover have "(k, mb\<lparr>mbConnected := False\<rparr>) \<in> set (sMembers (mSess r))" using that by (force simp: ms)
    ultimately show ?thesis
      using resume_by_token [of r k "mb\<lparr>mbConnected := False\<rparr>"] assms(1) that by (auto simp: members_ok_def Let_def)
  qed
  then show ?thesis using boot ms by (auto simp: active_snap_def)
qed

text \<open>
  C13: a crash loses no phase of the game. After a turn whose events include a phase change, a
  death, an elimination or a new representative, and which does not end the game, a process that
  starts on the database comes up with the same game: the same state, identifier, host and
  members, and every member is recognised by the token it already has.
\<close>
theorem restart_resumes:
  assumes "booted lib m0" "(manager_step lib)\<^sup>*\<^sup>* m0 m" "sStarted (mSess m)" "fault_free (mStore m)"
    "engine_turn lib c (mEngine m) = (e, st, Inr envs)" "shouldPersist envs" "findGameEnded envs = None"
    "isActivePhase (Phase st)" "\<forall>n. \<not> faults n"
  shows "let m' = session_turn lib c m;
      (r, err) = NewManager sysnow (OpenSqlite (mStore m') faults) (New pool clk rng) clock seed ids opts
    in err = None \<and> Snapshot (mEngine r) = Snapshot (mEngine m') \<and> sStarted (mSess r) \<and>
      sGameID (mSess r) = sGameID (mSess m') \<and> sHostID (mSess r) = sHostID (mSess m') \<and>
      sMembers (mSess r) = map (\<lambda>(k, mb). (k, mb\<lparr>mbConnected := False\<rparr>)) (sMembers (mSess m')) \<and>
      (\<forall>(k, mb)\<in>set (sMembers (mSess m')). \<exists>r' jr. ResumePlayer (mbToken mb) r = (r', Inr jr) \<and> jrPlayerID jr = k)"
proof -
  let ?m1 = "m\<lparr>mEngine := e\<rparr>" and ?m' = "session_turn lib c m"
  have "envs \<noteq> []" using assms(6) by (auto simp: shouldPersist_def)
  note turn = turn_pad [OF assms(3,5) this]
  have m': "?m' = dispatchHandlers (snd (persistAndDispatch st envs ?m1)) (recorded st envs ?m1)"
    using turn pad_recorded [of st envs ?m1] assms(7) by simp
  have mok: "members_ok m" using session_inv [OF assms(1,2)] by (simp add: manager_inv_def)
  have sess: "mSess ?m' = mSess m" by (subst m') simp
  have eng: "mEngine ?m' = e"
    using turn pad_frame(1) [of st envs ?m1] by (simp add: roster_def)
  have saved: "fault_free (mStore ?m')" "active_snapshot (mStore ?m') = Some (Some (active_snap m st))"
    using recorded_saved [of ?m1 envs st] assms(4,6) m' by simp_all
  let ?d = "OpenSqlite (mStore ?m') faults"
  have d: "fault_free ?d" "active_snapshot ?d = Some (Some (active_snap m st))"
    using saved assms(9) by (simp_all add: OpenSqlite_def fault_free_def)
  obtain r err where r: "NewManager sysnow ?d (New pool clk rng) clock seed ids opts = (r, err)" by fastforce
  show ?thesis
    using boot_saved [OF mok d assms(8) r] turn_state [OF assms(5,7)]
    by (auto simp: r sess eng Snapshot_def Let_def)
qed


lemma finish_fault_free:
  assumes "fault_free d" "grGameID r \<notin> grGameID ` set (game_results d)"
  shows "\<exists>d'. SaveResultAndClearActive r d = (d', None) \<and> active_snapshot d' = None \<and>
    game_results d' = game_results d @ [r] \<and> fault_free d'"
  using assms
  by (auto simp: SaveResultAndClearActive_def db_exec_def fault_free_def Let_def)

lemma recorded_fault_free: "fault_free (mStore m) \<Longrightarrow> fault_free (mStore (recorded st envs m))"
  using recorded_saved [of m envs st] log_events_fault_free
  by (cases "shouldPersist envs") (simp_all add: recorded_def Let_def)

lemma boot_empty:
  assumes "fault_free d" "active_snapshot d = None"
  shows "snd (NewManager sysnow d eng clock rng ids opts) = None \<and>
    mSess (fst (NewManager sysnow d eng clock rng ids opts)) = zero_session \<and>
    mEngine (fst (NewManager sysnow d eng clock rng ids opts)) = eng"
  using assms fault_free_exec [OF assms(1)]
  by (simp add: NewManager_def bootRestore_def LoadActiveSnapshot_def Let_def split_beta)

text \<open>
  C21: the end of a game is final and recorded. After a turn that ends the game, the result, with
  the winner, the reason and the revealed roles of the event, is the last row of the history,
  nothing else of the history has changed, the active snapshot is gone, the session is no longer
  running, and a process that starts on the database comes up without a game.
\<close>
theorem game_end_recorded:
  assumes "sStarted (mSess m)" "fault_free (mStore m)" "sGameID (mSess m) \<notin> grGameID ` set (game_results (mStore m))"
    "engine_turn lib c (mEngine m) = (e, st, Inr envs)" "findGameEnded envs = Some (w, reason, reveal)"
    "\<forall>n. \<not> faults n"
  shows "let m' = session_turn lib c m;
      r = fst (NewManager sysnow (OpenSqlite (mStore m') faults) (New pool clk rng) clock seed ids opts)
    in (\<exists>res. game_results (mStore m') = game_results (mStore m) @ [res] \<and> grGameID res = sGameID (mSess m) \<and>
          grWinner res = w \<and> grEndReason res = reason \<and> grReveal res = reveal \<and>
          map pmID (grMembers res) = map (\<lambda>(k, mb). mbID mb) (sMembers (mSess m))) \<and>
       active_snapshot (mStore m') = None \<and> \<not> sStarted (mSess m') \<and> \<not> sStarted (mSess r) \<and> sMembers (mSess r) = []"
proof -
  let ?m1 = "recorded st envs (m\<lparr>mEngine := e\<rparr>)"
  have "envs \<noteq> []" using assms(5) by auto
  note turn = turn_pad [OF assms(1,4) this]
  have m': "mStore (session_turn lib c m) = mStore (handleGameEnd (w, reason, reveal) st ?m1)"
    "mSess (session_turn lib c m) = mSess (handleGameEnd (w, reason, reveal) st ?m1)"
    using turn pad_recorded [of st envs "m\<lparr>mEngine := e\<rparr>"] assms(5) by simp_all
  define res where "res = \<lparr>grGameID = sGameID (mSess m), grStartedAt = sStartedAt (mSess m), grEndedAt = mClock ?m1 0,
    grWinner = w, grEndReason = reason, grOptions = Settings st,
    grMembers = persistedMembers (sMembers (mSess m)), grReveal = reveal\<rparr>"
  obtain d' where d': "SaveResultAndClearActive res (mStore ?m1) = (d', None)" "active_snapshot d' = None"
    "game_results d' = game_results (mStore m) @ [res]" "fault_free d'"
    using finish_fault_free [of "mStore ?m1" res] recorded_fault_free assms(2,3) by (auto simp: res_def)
  have h: "mStore (handleGameEnd (w, reason, reveal) st ?m1) = d'"
    "\<not> sStarted (mSess (handleGameEnd (w, reason, reveal) st ?m1))"
    using d'(1) by (simp_all add: handleGameEnd_def clock_now_def on_sess_def Let_def res_def)
  have "fault_free (OpenSqlite d' faults)" "active_snapshot (OpenSqlite d' faults) = None"
    using d' assms(6) by (simp_all add: OpenSqlite_def fault_free_def)
  note boot = boot_empty [OF this]
  show ?thesis
    unfolding Let_def m' h(1)
    using d'(2,3) h(2) boot by (auto simp: zero_session_def res_def persistedMembers_def)
qed

end
