(* ===== verification/Lobby.thy ===== *)
theory Lobby
  imports Durability
begin

text \<open>
  Joining an open room, one player or a whole group, and a concrete session: a room is opened, six
  players join and the game starts. The session is the input of the witnesses.
\<close>

section \<open>A concrete session\<close>

fun joins :: "string list \<Rightarrow> manager \<Rightarrow> manager option" where
  "joins [] m = Some m"
| "joins (n # ns) m = (if new_id_ok m then joins ns (fst (JoinPlayer n m)) else None)"

lemma joins_steps: "joins ns m = Some m' \<Longrightarrow> (manager_step lib)\<^sup>*\<^sup>* m m'"
proof (induction ns arbitrary: m)
  case (Cons n ns)
  then show ?case
    by (auto split: if_splits intro: converse_rtranclp_into_rtranclp [of "manager_step lib"] manager_step.join)
qed simp

definition demo_boot :: manager where
  "demo_boot = fst (NewManager 0 empty_db (New demo_pool (\<lambda>_. 100) (replicate 8 0)) int
     (concat (map (\<lambda>i. replicate 32 (word_of_nat i)) [1..<7])) (\<lambda>n. [word_of_nat n])
     \<lparr>TickInterval = 0, EventLog = False, MaxLobbySize = 0, MinPlayers = 0\<rparr>)"

definition demo_seat :: host_token where "demo_seat = ''2a''"

definition demo_open :: manager where
  "demo_open = fst (OpenRoom demo_seat (DefaultOptions 6) (fst (ClaimHost (Some [42]) demo_boot)))"

definition demo_lobbied :: manager where
  "demo_lobbied = the (joins demo_ids demo_open)"

definition demo_session :: manager where
  "demo_session = fst (HostStartGame demo_lib demo_seat demo_lobbied)"

section \<open>Joining\<close>

lemma quiet_batch [simp]:
  "\<not> shouldPersist [pub (PlayerJoined pid name)]" "findGameEnded [pub (PlayerJoined pid name)] = None"
  by (simp_all add: shouldPersist_def)

lemma quiet_pad:
  assumes "\<not> shouldPersist envs" "findGameEnded envs = None"
  shows "roster (fst (persistAndDispatch st envs m)) = roster m"
    "mSess (fst (persistAndDispatch st envs m)) = mSess m" "mClock (fst (persistAndDispatch st envs m)) = mClock m"
    "\<not> EventLog (mOpts m) \<Longrightarrow> mStore (fst (persistAndDispatch st envs m)) = mStore m"
  using assms by (simp_all add: pad_frame(1)) (simp_all add: pad_recorded [of st envs m] recorded_def dispatchHandlers_def Let_def)

lemma JoinPlayer_ok:
  assumes "name \<noteq> ''''" "\<not> sStarted (mSess m)" "sRoomOpened (mSess m)"
    "int (length (sMembers (mSess m))) < MaxLobbySize (mOpts m)"
    "\<not> list_ex (\<lambda>(k, mb). mbName mb = name) (sMembers (mSess m))" "new_id_ok m"
    "tokenByteLen \<le> length (mRand m)" "\<not> tokenInUse (hex_encode (take tokenByteLen (mRand m))) m"
    "gomap_ok (sMembers (mSess m))"
  shows "\<exists>m' jr. JoinPlayer name m = (m', Inr jr) \<and>
    jrPlayerID jr = hex_encode (mIds m 0) \<and> jrToken jr = hex_encode (take tokenByteLen (mRand m)) \<and> \<not> jrIsHost jr \<and>
    mSess m' = (mSess m)\<lparr>sMembers := sMembers (mSess m) @
      [(jrPlayerID jr, \<lparr>mbID = jrPlayerID jr, mbName = name, mbToken = jrToken jr, mbConnected = True,
          mbJoinedAt = mClock m 0\<rparr>)]\<rparr> \<and>
    set (map ID (Players (jrCurrentState jr))) = mbID ` snd ` set (sMembers (mSess m')) \<and>
    mEngine m' = mEngine m \<and> mHostAuth m' = mHostAuth m \<and> mOpts m' = mOpts m \<and>
    mIds m' = (\<lambda>n. mIds m (Suc n)) \<and> mClock m' = (\<lambda>n. mClock m (Suc n)) \<and>
    mRand m' = drop tokenByteLen (mRand m) \<and> (EventLog (mOpts m) \<or> mStore m' = mStore m)"
proof -
  let ?pid = "hex_encode (mIds m 0)" and ?tok = "hex_encode (take tokenByteLen (mRand m))"
  let ?mb = "\<lparr>mbID = ?pid, mbName = name, mbToken = ?tok, mbConnected = True, mbJoinedAt = mClock m 0\<rparr>"
  let ?s = "(mSess m)\<lparr>sMembers := sMembers (mSess m) @ [(?pid, ?mb)]\<rparr>"
  define m1 where "m1 = (snd (newID m))\<lparr>mRand := drop tokenByteLen (mRand m)\<rparr>"
  have fresh: "?pid \<notin> keys (sMembers (mSess m))" using assms(6) by (simp add: new_id_ok_def)
  have t: "issueUniqueToken (snd (newID m)) = (m1, Inr ?tok)"
    using assms(7,8) by (simp add: issueUniqueToken_def tokenAttempts_def eval_nat_numeral newToken_def newID_def tokenInUse_def m1_def)
  define m2 where "m2 = m1\<lparr>mClock := (\<lambda>n. mClock m (Suc n)), mSess := ?s\<rparr>"
  define lobby where "lobby = lobbyStateFromMembers (sGameID ?s) (sHostID ?s) (sMembers ?s)"
  have j: "JoinPlayer name m = (fst (persistAndDispatch lobby [pub (PlayerJoined ?pid name)] m2), Inr (bare_join ?pid ?tok False lobby))"
    using assms(1-5) fresh t
    by (simp add: JoinPlayer_def Let_def split_beta add_member_def clock_now_def on_sess_def update_fresh
        lobby_def m2_def m1_def newID_def)
  have "gomap_ok (sMembers ?s)" using assms(9) fresh by (simp add: gomap_ok_def)
  from orderMembers_mset [OF this] have "set (orderMembers (sMembers ?s) h) = snd ` set (sMembers ?s)" for h
    by (metis mset_eq_setD set_map)
  then have lobby: "set (map ID (Players lobby)) = mbID ` snd ` set (sMembers ?s)"
    by (simp add: lobby_def lobbyStateFromMembers_def member_player_def image_image)
  have m2: "mSess m2 = ?s" "mEngine m2 = mEngine m" "mHostAuth m2 = mHostAuth m" "mOpts m2 = mOpts m"
    "mIds m2 = (\<lambda>n. mIds m (Suc n))" "mClock m2 = (\<lambda>n. mClock m (Suc n))" "mRand m2 = drop tokenByteLen (mRand m)"
    "mStore m2 = mStore m"
    by (simp_all add: m2_def m1_def newID_def)
  note q = quiet_pad [OF quiet_batch(1) [of ?pid name] quiet_batch(2), where st = lobby and m = m2]
  show ?thesis
    using j q lobby m2 by (cases "EventLog (mOpts m)") (simp_all add: bare_join_def roster_def)
qed

text \<open>
  Who may join does join. While the room is open and no game is running, a new, non-empty
  name is accepted as long as there is a free seat and the random source delivers an unused token: the
  members are the earlier ones and the newcomer, last in order of arrival, with the fresh identifier
  and token; nothing else of the session changes, and the lobby shown to the newcomer lists everybody.
\<close>
theorem join_accepted:
  assumes "name \<noteq> ''''" "\<not> sStarted (mSess m)" "sRoomOpened (mSess m)"
    "int (length (sMembers (mSess m))) < MaxLobbySize (mOpts m)"
    "\<not> list_ex (\<lambda>(k, mb). mbName mb = name) (sMembers (mSess m))" "new_id_ok m"
    "tokenByteLen \<le> length (mRand m)" "\<not> tokenInUse (hex_encode (take tokenByteLen (mRand m))) m"
    "gomap_ok (sMembers (mSess m))"
  shows "\<exists>m' jr. JoinPlayer name m = (m', Inr jr) \<and>
    jrPlayerID jr = hex_encode (mIds m 0) \<and> jrToken jr = hex_encode (take tokenByteLen (mRand m)) \<and> \<not> jrIsHost jr \<and>
    mSess m' = (mSess m)\<lparr>sMembers := sMembers (mSess m) @
      [(jrPlayerID jr, \<lparr>mbID = jrPlayerID jr, mbName = name, mbToken = jrToken jr, mbConnected = True,
          mbJoinedAt = mClock m 0\<rparr>)]\<rparr> \<and>
    set (map ID (Players (jrCurrentState jr))) = mbID ` snd ` set (sMembers (mSess m')) \<and>
    mEngine m' = mEngine m \<and> mHostAuth m' = mHostAuth m \<and> mOpts m' = mOpts m \<and>
    mIds m' = (\<lambda>n. mIds m (Suc n)) \<and> mClock m' = (\<lambda>n. mClock m (Suc n)) \<and>
    mRand m' = drop tokenByteLen (mRand m) \<and> (EventLog (mOpts m) \<or> mStore m' = mStore m)"
  using JoinPlayer_ok [OF assms] .

text \<open>A whole group joins.\<close>

definition newcomers :: "manager \<Rightarrow> string list \<Rightarrow> 8 word list list \<Rightarrow> (player_id \<times> member) list" where
  "newcomers m ns toks = map (\<lambda>(i, n, t). (hex_encode (mIds m i), \<lparr>mbID = hex_encode (mIds m i), mbName = n,
     mbToken = hex_encode t, mbConnected = True, mbJoinedAt = mClock m i\<rparr>)) (zip [0..<length ns] (zip ns toks))"

lemma zip_upt_Suc: "zip [0..<Suc n] (x # xs) = (0, x) # map (\<lambda>(i, y). (Suc i, y)) (zip [0..<n] xs)"
  by (simp add: upt_conv_Cons map_Suc_upt [symmetric] zip_map1 del: upt_Suc) 

lemma newcomers_Cons:
  assumes "mIds m' = (\<lambda>n. mIds m (Suc n))" "mClock m' = (\<lambda>n. mClock m (Suc n))"
  shows "newcomers m (n # ns) (t # toks) =
    (hex_encode (mIds m 0), \<lparr>mbID = hex_encode (mIds m 0), mbName = n, mbToken = hex_encode t, mbConnected = True,
       mbJoinedAt = mClock m 0\<rparr>) # newcomers m' ns toks"
  using zip_upt_Suc [of "length ns" "(n, t)" "zip ns toks"]
  by (simp add: newcomers_def assms split_beta comp_def del: upt_Suc)

lemma joins_accepted:
  assumes "length toks = length ns" "mRand m = concat toks" "\<forall>t\<in>set toks. length t = tokenByteLen"
    "\<not> sStarted (mSess m)" "sRoomOpened (mSess m)" "'''' \<notin> set ns" "\<forall>i<length ns. mIds m i \<noteq> []"
    "int (length (sMembers (mSess m)) + length ns) \<le> MaxLobbySize (mOpts m)"
    "distinct (map fst (sMembers (mSess m) @ newcomers m ns toks))"
    "distinct (map (\<lambda>(k, mb). mbName mb) (sMembers (mSess m) @ newcomers m ns toks))"
    "distinct (map (\<lambda>(k, mb). mbToken mb) (sMembers (mSess m) @ newcomers m ns toks))"
  shows "\<exists>m'. joins ns m = Some m' \<and> mEngine m' = mEngine m \<and> mHostAuth m' = mHostAuth m \<and> mOpts m' = mOpts m \<and>
    mSess m' = (mSess m)\<lparr>sMembers := sMembers (mSess m) @ newcomers m ns toks\<rparr> \<and>
    (EventLog (mOpts m) \<or> mStore m' = mStore m)"
  using assms
proof (induction ns arbitrary: m toks)
  case Nil
  then show ?case by (simp add: newcomers_def)
next
  case (Cons n ns)
  then obtain t ts where toks: "toks = t # ts" by (cases toks) auto
  have nc: "newcomers m (n # ns) (t # ts) = (hex_encode (mIds m 0), \<lparr>mbID = hex_encode (mIds m 0), mbName = n,
      mbToken = hex_encode t, mbConnected = True, mbJoinedAt = mClock m 0\<rparr>) #
      newcomers (m\<lparr>mIds := \<lambda>n. mIds m (Suc n), mClock := \<lambda>n. mClock m (Suc n)\<rparr>) ns ts"
    by (rule newcomers_Cons) simp_all
  have tok: "take tokenByteLen (mRand m) = t" "tokenByteLen \<le> length (mRand m)" "drop tokenByteLen (mRand m) = concat ts"
    using Cons.prems(2,3) toks by auto
  have id: "new_id_ok m" using Cons.prems(7,9) by (auto simp: new_id_ok_def toks nc)
  have fresh: "\<not> list_ex (\<lambda>(k, mb). mbName mb = n) (sMembers (mSess m))" "\<not> tokenInUse (hex_encode t) m"
    "gomap_ok (sMembers (mSess m))"
    using Cons.prems(10) Cons.prems(11) Cons.prems(9)
    by (auto simp: toks nc list_ex_iff tokenInUse_def gomap_ok_def image_iff split_beta)
  have "\<exists>m' jr. JoinPlayer n m = (m', Inr jr) \<and>
      mSess m' = (mSess m)\<lparr>sMembers := sMembers (mSess m) @ [hd (newcomers m (n # ns) toks)]\<rparr> \<and>
      mEngine m' = mEngine m \<and> mHostAuth m' = mHostAuth m \<and> mOpts m' = mOpts m \<and>
      mIds m' = (\<lambda>n. mIds m (Suc n)) \<and> mClock m' = (\<lambda>n. mClock m (Suc n)) \<and> mRand m' = concat ts \<and>
      (EventLog (mOpts m) \<or> mStore m' = mStore m)"
    using JoinPlayer_ok [of n m, OF _ Cons.prems(4,5) _ fresh(1) id tok(2)] fresh Cons.prems(6,8) tok
    by (auto simp: toks nc)
  then obtain m' jr where j: "JoinPlayer n m = (m', Inr jr)"
     "mSess m' = (mSess m)\<lparr>sMembers := sMembers (mSess m) @ [hd (newcomers m (n # ns) toks)]\<rparr>"
     "mEngine m' = mEngine m" "mHostAuth m' = mHostAuth m" "mOpts m' = mOpts m"
     "mIds m' = (\<lambda>n. mIds m (Suc n))" "mClock m' = (\<lambda>n. mClock m (Suc n))" "mRand m' = concat ts"
     "EventLog (mOpts m) \<or> mStore m' = mStore m"
    by blast
  note nc' = newcomers_Cons [OF j(6,7), of n ns t ts]
  have "\<exists>m''. joins ns m' = Some m'' \<and> mEngine m'' = mEngine m' \<and> mHostAuth m'' = mHostAuth m' \<and> mOpts m'' = mOpts m' \<and>
    mSess m'' = (mSess m')\<lparr>sMembers := sMembers (mSess m') @ newcomers m' ns ts\<rparr> \<and>
    (EventLog (mOpts m') \<or> mStore m'' = mStore m')"
    using Cons.prems by (intro Cons.IH) (auto simp: toks j nc')
  then show ?case using j id nc' by (auto simp: toks)
qed

section \<open>The concrete session, evaluated\<close>

definition demo_tokens :: "8 word list list" where
  "demo_tokens = map (\<lambda>i. replicate 32 (word_of_nat i)) [1..<7]"

lemma demo_open_facts:
  "mEngine demo_open = New demo_pool (\<lambda>_. 100) (replicate 8 0)" "mHostAuth demo_open = demo_seat"
  "MaxLobbySize (mOpts demo_open) = 12" "MinPlayers (mOpts demo_open) = 6" "\<not> EventLog (mOpts demo_open)"
  "mSess demo_open = zero_session\<lparr>sGameID := ''00'', sPendingOptions := DefaultOptions 6, sRoomOpened := True\<rparr>"
  "mRand demo_open = concat demo_tokens" "mIds demo_open = (\<lambda>n. [word_of_nat (Suc n)])" "mClock demo_open = int"
  "mStore demo_open = empty_db"
proof -
  have h: "hex_encode [42] = ''2a''" "hex_encode [0] = ''00''" by code_simp+
  have p: "findGameEnded [] = None" "\<not> shouldPersist []" by (simp_all add: shouldPersist_def)
  have b: "demo_boot = \<lparr>mStore = empty_db, mEngine = New demo_pool (\<lambda>_. 100) (replicate 8 0), mClock = int,
     mRand = concat demo_tokens, mIds = (\<lambda>n. [word_of_nat n]), mSess = zero_session, mHandlers = [], mNextHID = 0,
     mOpts = \<lparr>TickInterval = second, EventLog = False, MaxLobbySize = 12, MinPlayers = 6\<rparr>, mClosed = False,
     mSystemMsg = [], mHostAuth = '''', mSavedHostOptions = zero_options, mHasSavedHostOptions = False, mDelivered = []\<rparr>"
    by (simp add: demo_boot_def NewManager_def bootRestore_def LoadActiveSnapshot_def db_exec_def empty_db_def
        withDefaults_def demo_tokens_def)
  note defs = demo_open_def b ClaimHost_def Claim_def OpenRoom_def Verify_def demo_seat_def h newID_def on_sess_def
     persistAndDispatch_def p dispatchHandlers_def zero_session_def
  show "mEngine demo_open = New demo_pool (\<lambda>_. 100) (replicate 8 0)" "mHostAuth demo_open = demo_seat"
  "MaxLobbySize (mOpts demo_open) = 12" "MinPlayers (mOpts demo_open) = 6" "\<not> EventLog (mOpts demo_open)"
  "mSess demo_open = zero_session\<lparr>sGameID := ''00'', sPendingOptions := DefaultOptions 6, sRoomOpened := True\<rparr>"
  "mRand demo_open = concat demo_tokens" "mIds demo_open = (\<lambda>n. [word_of_nat (Suc n)])" "mClock demo_open = int"
   "mStore demo_open = empty_db"
    by (simp_all add: defs)
qed

lemma demo_newcomers:
  "distinct (map fst (newcomers demo_open demo_ids demo_tokens))"
  "distinct (map (\<lambda>(k, mb). mbName mb) (newcomers demo_open demo_ids demo_tokens))"
  "distinct (map (\<lambda>(k, mb). mbToken mb) (newcomers demo_open demo_ids demo_tokens))"
  "map member_player (orderMembers (newcomers demo_open demo_ids demo_tokens) '''') =
    map (\<lambda>(i, n). \<lparr>ID = i, Name = n, Alive = True, Role = RoleNone, Keyword = ''''\<rparr>)
      (zip [''01'', ''02'', ''03'', ''04'', ''05'', ''06''] demo_ids)"
  unfolding newcomers_def demo_open_facts by code_simp+

lemma demo_lobbied_facts:
  "joins demo_ids demo_open = Some demo_lobbied" "mEngine demo_lobbied = New demo_pool (\<lambda>_. 100) (replicate 8 0)"
  "mHostAuth demo_lobbied = demo_seat" "mOpts demo_lobbied = mOpts demo_open"
  "mSess demo_lobbied = (mSess demo_open)\<lparr>sMembers := newcomers demo_open demo_ids demo_tokens\<rparr>"
  "mStore demo_lobbied = empty_db"
proof -
  have "\<exists>m'. joins demo_ids demo_open = Some m' \<and> mEngine m' = mEngine demo_open \<and> mHostAuth m' = mHostAuth demo_open \<and>
     mOpts m' = mOpts demo_open \<and>
     mSess m' = (mSess demo_open)\<lparr>sMembers := sMembers (mSess demo_open) @ newcomers demo_open demo_ids demo_tokens\<rparr> \<and>
     (EventLog (mOpts demo_open) \<or> mStore m' = mStore demo_open)"
    using demo_newcomers
    by (intro joins_accepted)
       (simp_all add: demo_open_facts demo_tokens_def demo_ids_def zero_session_def tokenByteLen_def)
  then show "joins demo_ids demo_open = Some demo_lobbied" "mEngine demo_lobbied = New demo_pool (\<lambda>_. 100) (replicate 8 0)"
    "mHostAuth demo_lobbied = demo_seat" "mOpts demo_lobbied = mOpts demo_open"
    "mSess demo_lobbied = (mSess demo_open)\<lparr>sMembers := newcomers demo_open demo_ids demo_tokens\<rparr>"
    "mStore demo_lobbied = empty_db"
    by (auto simp: demo_lobbied_def demo_open_facts zero_session_def)
qed

definition demo_players :: "player list" where
  "demo_players = map (\<lambda>(i, n). \<lparr>ID = i, Name = n, Alive = True, Role = RoleNone, Keyword = ''''\<rparr>)
      (zip [''01'', ''02'', ''03'', ''04'', ''05'', ''06''] demo_ids)"

definition demo_started :: result where
  "demo_started = Start demo_lib ''00'' '''' demo_players (DefaultOptions 6) (New demo_pool (\<lambda>_. 100) (replicate 8 0))"

lemma demo_started_ok: "case res_out demo_started of Inl _ \<Rightarrow> False | Inr envs \<Rightarrow> findGameEnded envs = None \<and> shouldPersist envs"
  by code_simp

lemma demo_session_facts:
  "mEngine demo_session = res_engine demo_started" "sStarted (mSess demo_session)"
  "sGameID (mSess demo_session) = ''00''"
  "sMembers (mSess demo_session) = newcomers demo_open demo_ids demo_tokens"
  "mHostAuth demo_session = demo_seat" "fault_free (mStore demo_session)" "game_results (mStore demo_session) = []"
  "active_snapshot (mStore demo_session) = Some (Some (active_snap demo_session (est (mEngine demo_session))))"
proof -
  obtain e st envs where r: "demo_started = (e, st, Inr envs)" "findGameEnded envs = None"
    using demo_started_ok by (cases "res_out demo_started") (simp_all, metis prod.collapse)
  let ?m1 = "on_sess (\<lambda>s. s\<lparr>sStarted := True, sStartedAt := StartedAt st\<rparr>) (demo_lobbied\<lparr>mEngine := e\<rparr>)"
  have six: "length (newcomers demo_open demo_ids demo_tokens) = 6"
    by (simp add: newcomers_def demo_ids_def demo_tokens_def)
  have v: "Verify demo_seat demo_seat = None" by (simp add: Verify_def demo_seat_def)
  have h: "demo_session = fst (persistAndDispatch st envs ?m1)"
    using r(1) six demo_newcomers(4)
    by (simp add: demo_session_def HostStartGame_def start_engine_def demo_lobbied_facts demo_open_facts v
        demo_started_def demo_players_def Let_def split_beta zero_session_def)
  have ro: "roster demo_session = roster ?m1" unfolding h by (rule pad_frame(1))
  have d: "demo_session = dispatchHandlers (snd (persistAndDispatch st envs ?m1)) (recorded st envs ?m1)"
    using pad_recorded [of st envs ?m1] r(2) h by simp
  have ff: "fault_free (mStore ?m1)" "game_results (mStore ?m1) = []"
    by (simp_all add: on_sess_def demo_lobbied_facts empty_db_def fault_free_def)
  show "fault_free (mStore demo_session)" "game_results (mStore demo_session) = []"
    using recorded_fault_free [OF ff(1)] ff(2) by (simp_all add: d)
  show "sStarted (mSess demo_session)" by (simp add: d on_sess_def)
  have p: "shouldPersist envs" "st = est e"
    using demo_started_ok r(1) start.respects [of "New demo_pool (\<lambda>_. 100) (replicate 8 0)" demo_lib "''00''" "''''" demo_players "DefaultOptions 6"]
    by (simp_all add: contract_def demo_started_def)
  have "active_snap demo_session st = active_snap ?m1 st" by (simp add: d active_snap_def)
  moreover have "mEngine demo_session = e" using ro by (simp add: roster_def on_sess_def)
  ultimately show "active_snapshot (mStore demo_session) = Some (Some (active_snap demo_session (est (mEngine demo_session))))"
    using recorded_saved [OF ff(1) p(1), of st] p(2) by (simp add: d)
  show "mEngine demo_session = res_engine demo_started" "sGameID (mSess demo_session) = ''00''"
    "sMembers (mSess demo_session) = newcomers demo_open demo_ids demo_tokens" "mHostAuth demo_session = demo_seat"
    using ro
    by (simp_all add: r(1) roster_def on_sess_def demo_lobbied_facts demo_open_facts zero_session_def)
qed

lemma demo_booted: "booted demo_lib demo_boot"
  unfolding demo_boot_def
  by (rule booted.intros) (simp_all add: demo_pool_ok row_ok_def empty_db_def)

lemma demo_session_run: "(manager_step demo_lib)\<^sup>*\<^sup>* demo_boot demo_session"
proof -
  have "options_in_range (DefaultOptions 6)" using demo_lobby_ok by (simp add: lobby_ok_def)
  then have "(manager_step demo_lib)\<^sup>*\<^sup>* demo_boot demo_open"
    unfolding demo_open_def
    by (rule rtranclp.rtrancl_into_rtrancl [of "manager_step demo_lib", OF
          r_into_rtranclp [of "manager_step demo_lib", OF manager_step.claim] manager_step.open_room])
  also have "(manager_step demo_lib)\<^sup>*\<^sup>* demo_open demo_lobbied" by (rule joins_steps [OF demo_lobbied_facts(1)])
  also have "(manager_step demo_lib)\<^sup>*\<^sup>* demo_lobbied demo_session"
    unfolding demo_session_def by (intro r_into_rtranclp manager_step.host_start)
  finally show ?thesis .
qed

theorem host_exclusive_witness:
  "Verify demo_seat (mHostAuth demo_session) = None \<and> fst (ClaimHost (Some [1]) demo_session) = demo_session \<and>
   HostStartGame demo_lib ''01'' demo_session = (demo_session, Inl (errf CodePermissionDenied))"
proof -
  have "Verify demo_seat (mHostAuth demo_session) = None"
    by (simp add: demo_session_facts Verify_def demo_seat_def)
  with host_exclusive [OF this, where t' = "''01''" and lib = demo_lib and b = "Some [1]"] show ?thesis
    by (simp add: demo_seat_def)
qed

theorem session_members_witness:
  "sMembers (mSess demo_session) = newcomers demo_open demo_ids demo_tokens \<and>
   distinct (map (\<lambda>(k, mb). mbToken mb) (sMembers (mSess demo_session)))"
  using session_members [OF demo_booted demo_session_run] demo_session_facts(4) by (simp add: Let_def)

theorem session_refines_engine_witness: "reachable demo_lib (mEngine demo_session)"
  by (rule session_refines_engine [OF demo_booted demo_session_run demo_session_facts(2)])

theorem join_accepted_witness:
  "\<exists>m' jr. JoinPlayer ''zed'' demo_open = (m', Inr jr) \<and> jrPlayerID jr = ''01'' \<and> map fst (sMembers (mSess m')) = [''01'']"
proof -
  have x: "hex_encode [1] = ''01''" "tokenByteLen \<le> length (concat demo_tokens)" by code_simp+
  have "new_id_ok demo_open" by (simp add: new_id_ok_def demo_open_facts zero_session_def)
  from join_accepted [OF _ _ _ _ _ this, of "''zed''"] show ?thesis
    by (auto simp: demo_open_facts zero_session_def tokenInUse_def x)
qed

lemma demo_day:
  "case engine_turn demo_lib (At (121 * 10 ^ 9)) (res_engine demo_started) of
     (e, st, Inr envs) \<Rightarrow> shouldPersist envs \<and> findGameEnded envs = None \<and> Phase st = PhaseDay
   | _ \<Rightarrow> False"
  by code_simp

lemma demo_forced:
  "case engine_turn demo_lib (Act (ForceEndGame '''')) (res_engine demo_started) of
     (e, st, Inr envs) \<Rightarrow> (case findGameEnded envs of Some (w, r, ps) \<Rightarrow> r = EndHostForceEnd | None \<Rightarrow> False)
   | _ \<Rightarrow> False"
  by code_simp

definition demo_reboot :: "manager \<Rightarrow> manager" where
  "demo_reboot m = fst (NewManager 0 (OpenSqlite (mStore m) (\<lambda>_. False)) (New demo_pool (\<lambda>_. 7) []) int [] (\<lambda>n. [])
     \<lparr>TickInterval = 0, EventLog = False, MaxLobbySize = 0, MinPlayers = 0\<rparr>)"

theorem restart_resumes_witness:
  "let m = session_turn demo_lib (At (121 * 10 ^ 9)) demo_session in
   Snapshot (mEngine (demo_reboot m)) = Snapshot (mEngine m) \<and> sStarted (mSess (demo_reboot m))"
proof -
  obtain e st envs where t: "engine_turn demo_lib (At (121 * 10 ^ 9)) (mEngine demo_session) = (e, st, Inr envs)"
    "shouldPersist envs" "findGameEnded envs = None" "Phase st = PhaseDay"
    using demo_day demo_session_facts(1) by (auto split: prod.splits sum.splits)
  have a: "isActivePhase (Phase st)" using t(4) by (simp add: isActivePhase_def)
  show ?thesis
    using restart_resumes [OF demo_booted demo_session_run demo_session_facts(2,6) t(1-3) a, of "\<lambda>_. False"]
    unfolding demo_reboot_def Let_def by (simp add: split_beta)
qed

theorem game_end_recorded_witness:
  "let m = session_turn demo_lib (Act (ForceEndGame '''')) demo_session in
   (\<exists>res. game_results (mStore m) = [res] \<and> grEndReason res = EndHostForceEnd) \<and> \<not> sStarted (mSess (demo_reboot m))"
proof -
  obtain e st envs w ps where t: "engine_turn demo_lib (Act (ForceEndGame '''')) (mEngine demo_session) = (e, st, Inr envs)"
    "findGameEnded envs = Some (w, EndHostForceEnd, ps)"
    using demo_forced demo_session_facts(1) by (auto split: prod.splits sum.splits option.splits)
  have n: "sGameID (mSess demo_session) \<notin> grGameID ` set (game_results (mStore demo_session))"
    by (simp add: demo_session_facts(7))
  show ?thesis
    using game_end_recorded [OF demo_session_facts(2,6) n t, where faults = "\<lambda>_. False" and sysnow = 0
        and pool = demo_pool and clk = "\<lambda>_. 7" and rng = "[]" and clock = int and seed = "[]" and ids = "\<lambda>n. []"
        and opts = "\<lparr>TickInterval = 0, EventLog = False, MaxLobbySize = 0, MinPlayers = 0\<rparr>"] demo_session_facts(7)
    unfolding demo_reboot_def Let_def by auto
qed

end
