(* ===== verification/Protocol.thy ===== *)
theory Protocol
  imports Lobby
begin

text \<open>
  \<open>internal/transport/ws/protocol.go\<close> and the encoding half of \<open>dispatch.go\<close>: the incoming
  payloads as \<open>encoding/json\<close> decodes them, the outgoing messages, and the wire form of the
  engine's events.
\<close>

section \<open>Decoding with \<open>encoding/json\<close>\<close>

text \<open>
  A JSON text that is syntactically valid; a number literal is either an integer literal or one
  with a fraction or an exponent, which no integer field accepts.
\<close>

datatype json = JNull | JBool bool | JInt int | JFrac | JStr string | JArr "json list" | JObj "(string \<times> json) list"

text \<open>
  Object keys match field names up to case; the two letters outside ASCII that fold to an ASCII
  letter are the Kelvin sign and the long s.
\<close>

definition upper :: "char \<Rightarrow> char" where
  "upper c = (case map_of (zip ''abcdefghijklmnopqrstuvwxyz'' ''ABCDEFGHIJKLMNOPQRSTUVWXYZ'') c of Some d \<Rightarrow> d | None \<Rightarrow> c)"

fun foldName :: "string \<Rightarrow> string" where
  "foldName [] = []"
| "foldName (c # cs) =
     (case cs of
        d # e # rest \<Rightarrow>
          if c = CHR 0xE2 \<and> d = CHR 0x84 \<and> e = CHR 0xAA then CHR ''K'' # foldName rest
          else if c = CHR 0xC5 \<and> d = CHR 0xBF then CHR ''S'' # foldName (e # rest)
          else upper c # foldName cs
      | [d] \<Rightarrow> if c = CHR 0xC5 \<and> d = CHR 0xBF then [CHR ''S''] else [upper c, upper d]
      | [] \<Rightarrow> [upper c])"

text \<open>
  A decoder stores into the old value and reports whether the JSON value had the wrong type. A
  \<open>null\<close> leaves the old value; after a wrong type the decoder goes on and reports the error at the end.
\<close>

fun into_string :: "json \<Rightarrow> string \<Rightarrow> string \<times> bool" where
  "into_string (JStr s) old = (s, False)"
| "into_string JNull old = (old, False)"
| "into_string _ old = (old, True)"

fun into_int :: "json \<Rightarrow> int \<Rightarrow> int \<times> bool" where
  "into_int (JInt n) old = (if int64_range n then (n, False) else (old, True))"
| "into_int JNull old = (old, False)"
| "into_int _ old = (old, True)"

fun into_bool :: "json \<Rightarrow> bool \<Rightarrow> bool \<times> bool" where
  "into_bool (JBool b) old = (b, False)"
| "into_bool JNull old = (old, False)"
| "into_bool _ old = (old, True)"

type_synonym 's field_decoder = "string \<times> (json \<Rightarrow> 's \<Rightarrow> 's \<times> bool)"

definition field :: "string \<Rightarrow> ('s \<Rightarrow> 'a) \<Rightarrow> (('a \<Rightarrow> 'a) \<Rightarrow> 's \<Rightarrow> 's) \<Rightarrow> (json \<Rightarrow> 'a \<Rightarrow> 'a \<times> bool) \<Rightarrow> 's field_decoder" where
  "field name get put dec = (name, \<lambda>v s. let (x, bad) = dec v (get s) in (put (\<lambda>_. x) s, bad))"

fun into_object :: "'s field_decoder list \<Rightarrow> (string \<times> json) list \<Rightarrow> 's \<Rightarrow> 's \<times> bool" where
  "into_object fs [] s = (s, False)"
| "into_object fs ((k, v) # kvs) s =
     (case List.find (\<lambda>(name, dec). foldName name = foldName k) fs of
        None \<Rightarrow> into_object fs kvs s
      | Some (name, dec) \<Rightarrow>
          let (s, bad) = dec v s; (s, bad') = into_object fs kvs s in (s, bad \<or> bad'))"

fun into_struct :: "'s field_decoder list \<Rightarrow> json \<Rightarrow> 's \<Rightarrow> 's \<times> bool" where
  "into_struct fs (JObj kvs) s = into_object fs kvs s"
| "into_struct fs JNull s = (s, False)"
| "into_struct fs _ s = (s, True)"

text \<open>\<open>json.Unmarshal\<close> into a zero value; \<open>None\<close> for the raw bytes is a syntax error.\<close>

definition Unmarshal :: "'s field_decoder list \<Rightarrow> 's \<Rightarrow> json option \<Rightarrow> 's option" where
  "Unmarshal fs zero raw =
     (case raw of
        None \<Rightarrow> None
      | Some v \<Rightarrow> (case into_struct fs v zero of (s, bad) \<Rightarrow> if bad then None else Some s))"

section \<open>The incoming payloads\<close>

record join_payload = jpType :: string jpName :: string
record resume_payload = rpType :: string rpToken :: string
record target_payload = tpType :: string tpTarget :: player_id
record voice_toggle_payload = vpType :: string vpOn :: bool
record options_payload = opType :: string opOptions :: options

definition options_fields :: "options field_decoder list" where
  "options_fields =
     [field ''mafiaCount'' MafiaCount MafiaCount_update into_int,
      field ''maxPlayers'' MaxPlayers MaxPlayers_update into_int,
      field ''introSecondsPerPlayer'' IntroSecondsPerPlayer IntroSecondsPerPlayer_update into_int,
      field ''discussionSeconds'' DiscussionSeconds DiscussionSeconds_update into_int,
      field ''nightMafiaSeconds'' NightMafiaSeconds NightMafiaSeconds_update into_int,
      field ''nightPoliceSeconds'' NightPoliceSeconds NightPoliceSeconds_update into_int,
      field ''nightDoctorSeconds'' NightDoctorSeconds NightDoctorSeconds_update into_int,
      field ''doctorSelfHealAllowed'' DoctorSelfHealAllowed DoctorSelfHealAllowed_update into_bool,
      field ''announcementVoiceOn'' AnnouncementVoiceOn AnnouncementVoiceOn_update into_bool]"

definition incomingEnvelope :: "json option \<Rightarrow> string option" where
  "incomingEnvelope = Unmarshal [field ''type'' id (\<lambda>f. f) into_string] ''''"

definition joinPayload :: "json option \<Rightarrow> join_payload option" where
  "joinPayload = Unmarshal [field ''type'' jpType jpType_update into_string, field ''name'' jpName jpName_update into_string]
     \<lparr>jpType = '''', jpName = ''''\<rparr>"

definition resumePayload :: "json option \<Rightarrow> resume_payload option" where
  "resumePayload = Unmarshal [field ''type'' rpType rpType_update into_string, field ''token'' rpToken rpToken_update into_string]
     \<lparr>rpType = '''', rpToken = ''''\<rparr>"

definition targetPayload :: "json option \<Rightarrow> target_payload option" where
  "targetPayload = Unmarshal [field ''type'' tpType tpType_update into_string, field ''target'' tpTarget tpTarget_update into_string]
     \<lparr>tpType = '''', tpTarget = ''''\<rparr>"

definition voiceTogglePayload :: "json option \<Rightarrow> voice_toggle_payload option" where
  "voiceTogglePayload = Unmarshal [field ''type'' vpType vpType_update into_string, field ''on'' vpOn vpOn_update into_bool]
     \<lparr>vpType = '''', vpOn = False\<rparr>"

text \<open>\<open>hostStartPayload\<close>, \<open>hostOpenRoomPayload\<close> and \<open>hostSaveOptionsPayload\<close> have the same fields.\<close>

definition optionsPayload :: "json option \<Rightarrow> options_payload option" where
  "optionsPayload = Unmarshal [field ''type'' opType opType_update into_string,
      field ''options'' opOptions opOptions_update (into_struct options_fields)]
     \<lparr>opType = '''', opOptions = zero_options\<rparr>"

text \<open>\<open>json.Marshal\<close> of \<open>game.Options\<close>.\<close>

definition options_json :: "options \<Rightarrow> json" where
  "options_json opts = JObj
     [(''mafiaCount'', JInt (MafiaCount opts)), (''maxPlayers'', JInt (MaxPlayers opts)),
      (''introSecondsPerPlayer'', JInt (IntroSecondsPerPlayer opts)), (''discussionSeconds'', JInt (DiscussionSeconds opts)),
      (''nightMafiaSeconds'', JInt (NightMafiaSeconds opts)), (''nightPoliceSeconds'', JInt (NightPoliceSeconds opts)),
      (''nightDoctorSeconds'', JInt (NightDoctorSeconds opts)),
      (''doctorSelfHealAllowed'', JBool (DoctorSelfHealAllowed opts)), (''announcementVoiceOn'', JBool (AnnouncementVoiceOn opts))]"

lemma foldName_ascii: "c \<noteq> CHR 0xE2 \<Longrightarrow> c \<noteq> CHR 0xC5 \<Longrightarrow> foldName (c # cs) = upper c # foldName cs"
  by (auto split: list.split)

lemma upper_letters:
  "upper (CHR ''a'') = CHR ''A''" "upper (CHR ''b'') = CHR ''B''" "upper (CHR ''c'') = CHR ''C''"
  "upper (CHR ''d'') = CHR ''D''" "upper (CHR ''e'') = CHR ''E''" "upper (CHR ''f'') = CHR ''F''"
  "upper (CHR ''g'') = CHR ''G''" "upper (CHR ''h'') = CHR ''H''" "upper (CHR ''i'') = CHR ''I''"
  "upper (CHR ''j'') = CHR ''J''" "upper (CHR ''k'') = CHR ''K''" "upper (CHR ''l'') = CHR ''L''"
  "upper (CHR ''m'') = CHR ''M''" "upper (CHR ''n'') = CHR ''N''" "upper (CHR ''o'') = CHR ''O''"
  "upper (CHR ''p'') = CHR ''P''" "upper (CHR ''q'') = CHR ''Q''" "upper (CHR ''r'') = CHR ''R''"
  "upper (CHR ''s'') = CHR ''S''" "upper (CHR ''t'') = CHR ''T''" "upper (CHR ''u'') = CHR ''U''"
  "upper (CHR ''v'') = CHR ''V''" "upper (CHR ''w'') = CHR ''W''" "upper (CHR ''x'') = CHR ''X''"
  "upper (CHR ''y'') = CHR ''Y''" "upper (CHR ''z'') = CHR ''Z''" "upper (CHR ''C'') = CHR ''C''"
  "upper (CHR ''P'') = CHR ''P''" "upper (CHR ''S'') = CHR ''S''" "upper (CHR ''O'') = CHR ''O''"
  "upper (CHR ''H'') = CHR ''H''" "upper (CHR ''A'') = CHR ''A''" "upper (CHR ''V'') = CHR ''V''"
  "upper (CHR ''M'') = CHR ''M''" "upper (CHR ''D'') = CHR ''D''"
  by (simp_all add: upper_def)

lemma fold_keys:
  "map (\<lambda>k. foldName (fst k)) options_fields =
    [''MAFIACOUNT'', ''MAXPLAYERS'', ''INTROSECONDSPERPLAYER'', ''DISCUSSIONSECONDS'', ''NIGHTMAFIASECONDS'',
     ''NIGHTPOLICESECONDS'', ''NIGHTDOCTORSECONDS'', ''DOCTORSELFHEALALLOWED'', ''ANNOUNCEMENTVOICEON'']"
  by (simp add: options_fields_def field_def foldName_ascii upper_letters del: foldName.simps(2))


section \<open>What the decoders guarantee\<close>

lemma into_object_inv:
  assumes "\<And>name dec v s. (name, dec) \<in> set fs \<Longrightarrow> P s \<Longrightarrow> P (fst (dec v s))"
  shows "P s \<Longrightarrow> P (fst (into_object fs kvs s))"
proof (induction kvs arbitrary: s)
  case (Cons kv kvs)
  obtain k v where kv: "kv = (k, v)" by fastforce
  show ?case
  proof (cases "List.find (\<lambda>(name, dec). foldName name = foldName k) fs")
    case (Some nd)
    obtain name dec where nd: "nd = (name, dec)" by fastforce
    with Some have "(name, dec) \<in> set fs" by (auto dest: find_Some_in)
    with Cons.prems assms have "P (fst (dec v s))" by blast
    with Cons.IH Some show ?thesis by (simp add: kv nd split_beta Let_def)
  qed (use Cons in \<open>simp add: kv\<close>)
qed simp

lemma into_int_range: "int64_range old \<Longrightarrow> int64_range (fst (into_int v old))"
  by (cases v) auto

lemma into_options_range:
  assumes "options_in_range s"
  shows "options_in_range (fst (into_struct options_fields v s))"
proof -
  have "options_in_range (fst (dec w s))" if "(name, dec) \<in> set options_fields" "options_in_range s" for name dec w s
    using that into_int_range
    by (auto simp: options_fields_def field_def options_in_range_def split_beta Let_def)
  with assms show ?thesis
    by (cases v) (auto intro: into_object_inv)
qed

lemma optionsPayload_range:
  assumes "optionsPayload raw = Some p"
  shows "options_in_range (opOptions p)"
proof -
  let ?fs = "[field ''type'' opType opType_update into_string,
      field ''options'' opOptions opOptions_update (into_struct options_fields)] :: options_payload field_decoder list"
  let ?z = "\<lparr>opType = '''', opOptions = zero_options\<rparr>"
  have z: "options_in_range zero_options"
    by (simp add: options_in_range_def zero_options_def int64_range_def)
  have "options_in_range (opOptions (fst (into_object ?fs kvs ?z)))" for kvs
  proof (rule into_object_inv)
    fix name dec v and s :: options_payload
    assume "(name, dec) \<in> set ?fs" "options_in_range (opOptions s)"
    then show "options_in_range (opOptions (fst (dec v s)))"
      using into_options_range by (auto simp: field_def split_beta Let_def)
  qed (simp add: z)
  with z have "options_in_range (opOptions (fst (into_struct ?fs v ?z)))" for v
    by (cases v) simp_all
  then show ?thesis
    using assms by (auto simp: optionsPayload_def Unmarshal_def split: option.splits prod.splits if_splits) (metis fst_conv)
qed


lemma options_roundtrip_struct:
  assumes "options_in_range opts"
  shows "into_struct options_fields (options_json opts) old = (opts, False)"
  using assms
  by (simp add: options_json_def options_fields_def field_def foldName_ascii upper_letters options_in_range_def
      del: foldName.simps(2))


text \<open>
  Options survive the wire. The options the server broadcasts when a room opens, sent back by a
  client in any options message, are decoded to exactly the same options.
\<close>
theorem options_roundtrip:
  assumes "options_in_range opts"
  shows "optionsPayload (Some (JObj [(''type'', JStr t), (''options'', options_json opts)]))
    = Some \<lparr>opType = t, opOptions = opts\<rparr>"
  using options_roundtrip_struct [OF assms]
  by (simp add: optionsPayload_def Unmarshal_def field_def foldName_ascii upper_letters del: foldName.simps(2))

theorem options_roundtrip_witness:
  "optionsPayload (Some (JObj [(''type'', JStr ''host:open-room''), (''options'', options_json (DefaultOptions 8))]))
    = Some \<lparr>opType = ''host:open-room'', opOptions = DefaultOptions 8\<rparr>"
  by (rule options_roundtrip)
     (simp add: options_in_range_def DefaultOptions_def recommendedMafiaCount_def int64_range_def)



section \<open>Message types\<close>

datatype msg_type =
    TypeHostCreateSession | TypeJoin | TypeResume | TypeHostStart | TypeSubmitAdvanceIntro | TypeSubmitMafiaKill
  | TypeSubmitDoctorHeal | TypeSubmitPoliceCheck | TypeSubmitEndNight | TypeSubmitEndDiscuss | TypeSubmitVote
  | TypeHostToggleVoice | TypeHostForceEnd | TypeSubscribePublic | TypeHostClaim | TypeHostOpenRoom
  | TypeHostStartRoom | TypeHostTerminateRoom | TypeHostCloseRoom | TypePlayerEndSelfIntro | TypeHostPause
  | TypeHostResume | TypeHostSaveOptions

definition type_strings :: "(string \<times> msg_type) list" where
  "type_strings =
     [(''host:create-session'', TypeHostCreateSession), (''join'', TypeJoin), (''resume'', TypeResume),
      (''host:start'', TypeHostStart), (''submit:advance-intro'', TypeSubmitAdvanceIntro),
      (''submit:mafia-kill'', TypeSubmitMafiaKill), (''submit:doctor-heal'', TypeSubmitDoctorHeal),
      (''submit:police-check'', TypeSubmitPoliceCheck), (''submit:end-night'', TypeSubmitEndNight),
      (''submit:end-discussion'', TypeSubmitEndDiscuss), (''submit:vote'', TypeSubmitVote),
      (''host:toggle-voice'', TypeHostToggleVoice), (''host:force-end'', TypeHostForceEnd),
      (''subscribe-public'', TypeSubscribePublic), (''host:claim'', TypeHostClaim),
      (''host:open-room'', TypeHostOpenRoom), (''host:start-room'', TypeHostStartRoom),
      (''host:terminate-room'', TypeHostTerminateRoom), (''host:close-room'', TypeHostCloseRoom),
      (''player:end-self-intro'', TypePlayerEndSelfIntro), (''host:pause'', TypeHostPause),
      (''host:resume'', TypeHostResume), (''host:save-options'', TypeHostSaveOptions)]"

section \<open>The outgoing messages\<close>

record your_info =
  yiRole :: role
  yiKeyword :: string
  yiTeam :: team
  yiMafiaCohort :: "player_id list"

definition zero_your_info :: your_info where
  "zero_your_info = \<lparr>yiRole = RoleNone, yiKeyword = '''', yiTeam = TeamNone, yiMafiaCohort = []\<rparr>"

text \<open>A string-typed enumeration that may also be absent is an option; times are milliseconds.\<close>

record event_payload =
  Kind :: string
  epPlayerID :: player_id
  epName :: string
  epTarget :: player_id
  epRole :: role
  epKeyword :: string
  epTeam :: team
  epMafiaIDs :: "player_id list"
  epRepresentativeID :: player_id
  epPolice :: player_id
  epPhase :: phase
  epDay :: int
  epDeadlineMs :: int
  epSecondsLeft :: int
  epVictim :: player_id
  epCounts :: "(player_id, int) gomap"
  epEliminated :: "player_id option"
  epRecount :: bool
  epOldID :: player_id
  epNewID :: player_id
  epWinner :: "team option"
  epEndReason :: "end_reason option"
  epReveal :: "player list"
  epOn :: "bool option"
  epStep :: night_step
  epStepDeadlineMs :: int

definition zero_payload :: event_payload where
  "zero_payload =
     \<lparr>Kind = '''', epPlayerID = '''', epName = '''', epTarget = '''', epRole = RoleNone, epKeyword = '''',
      epTeam = TeamNone, epMafiaIDs = [], epRepresentativeID = '''', epPolice = '''', epPhase = PhaseNone,
      epDay = 0, epDeadlineMs = 0, epSecondsLeft = 0, epVictim = '''', epCounts = [], epEliminated = None,
      epRecount = False, epOldID = '''', epNewID = '''', epWinner = None, epEndReason = None, epReveal = [],
      epOn = None, epStep = NightStepNone, epStepDeadlineMs = 0\<rparr>"

text \<open>\<open>t.UnixMilli()\<close>: the zero time is 62135596800 seconds before the Unix epoch.\<close>

definition UnixMilli :: "time \<Rightarrow> int" where
  "UnixMilli t = t div 1000000 - 62135596800000"

definition timeToMs :: "int \<Rightarrow> int" where
  "timeToMs ms = (if ms < 0 then 0 else ms)"

fun buildEventPayload :: "event \<Rightarrow> event_payload" where
  "buildEventPayload (PlayerJoined p n) = zero_payload\<lparr>Kind := ''PlayerJoined'', epPlayerID := p, epName := n\<rparr>"
| "buildEventPayload (GameStarted s) = zero_payload\<lparr>Kind := ''GameStarted''\<rparr>"
| "buildEventPayload (PhaseChanged ph d t) = zero_payload\<lparr>Kind := ''PhaseChanged'', epPhase := ph, epDay := d,
     epDeadlineMs := timeToMs (UnixMilli t)\<rparr>"
| "buildEventPayload (RoleRevealedToPlayer p r k) = zero_payload\<lparr>Kind := ''RoleRevealedToPlayer'', epPlayerID := p,
     epRole := r, epKeyword := k\<rparr>"
| "buildEventPayload (MafiaCohortRevealed ids rep) = zero_payload\<lparr>Kind := ''MafiaCohortRevealed'', epMafiaIDs := ids,
     epRepresentativeID := rep\<rparr>"
| "buildEventPayload (IntroSpeakerChanged p n) = zero_payload\<lparr>Kind := ''IntroSpeakerChanged'', epPlayerID := p,
     epSecondsLeft := n\<rparr>"
| "buildEventPayload (MafiaTargetSelected rep t) = zero_payload\<lparr>Kind := ''MafiaTargetSelected'', epRepresentativeID := rep,
     epTarget := t\<rparr>"
| "buildEventPayload (PoliceResult p t tm) = zero_payload\<lparr>Kind := ''PoliceResult'', epPolice := p, epTarget := t,
     epTeam := tm\<rparr>"
| "buildEventPayload (DeathAnnounced v) = zero_payload\<lparr>Kind := ''DeathAnnounced'', epVictim := v\<rparr>"
| "buildEventPayload PeacefulNight = zero_payload\<lparr>Kind := ''PeacefulNight''\<rparr>"
| "buildEventPayload (NightStepChanged st d t) = zero_payload\<lparr>Kind := ''NightStepChanged'', epStep := st, epDay := d,
     epStepDeadlineMs := timeToMs (UnixMilli t)\<rparr>"
| "buildEventPayload (GamePaused ph) = zero_payload\<lparr>Kind := ''GamePaused'', epPhase := ph\<rparr>"
| "buildEventPayload (GameResumed ph t) = zero_payload\<lparr>Kind := ''GameResumed'', epPhase := ph,
     epDeadlineMs := timeToMs (UnixMilli t)\<rparr>"
| "buildEventPayload (DiscussionTimerTick n) = zero_payload\<lparr>Kind := ''DiscussionTimerTick'', epSecondsLeft := n\<rparr>"
| "buildEventPayload (VoteTallied cs e r) = zero_payload\<lparr>Kind := ''VoteTallied'', epCounts := cs, epEliminated := e,
     epRecount := r\<rparr>"
| "buildEventPayload (Eliminated p r) = zero_payload\<lparr>Kind := ''Eliminated'', epPlayerID := p, epRole := r\<rparr>"
| "buildEventPayload (MafiaRepresentativeReassigned ol nw) = zero_payload\<lparr>Kind := ''MafiaRepresentativeReassigned'',
     epOldID := ol, epNewID := nw\<rparr>"
| "buildEventPayload (GameEnded w r ps) = zero_payload\<lparr>Kind := ''GameEnded'', epWinner := w, epEndReason := Some r,
     epReveal := ps\<rparr>"
| "buildEventPayload (VoiceToggled on) = zero_payload\<lparr>Kind := ''VoiceToggled'', epOn := Some on\<rparr>"

type_synonym client_id = string

text \<open>The text of an error message is a literal or what \<open>err.Error()\<close> prints.\<close>

datatype error_text = Literal string | ErrorText go_error

datatype wire =
    WelcomeMsg client_id string string
  | JoinedMsg player_id string bool
  | SnapshotMsg state your_info bool
  | EventMsg string event_payload
  | AnnounceMsg string string string
  | ErrorMsg string error_text
  | HostTokenMsg host_token
  | RoomOpenedMsg options
  | RoomHostOccupiedMsg
  | RoomClosedMsg

definition protocolVersion :: string where "protocolVersion = ''v1''"

fun severity_string :: "severity \<Rightarrow> string" where
  "severity_string SeverityNone = ''''"
| "severity_string SeverityInfo = ''INFO''"
| "severity_string SeverityEmphasis = ''EMPHASIS''"
| "severity_string SeverityWarn = ''WARN''"

fun wsVisibilityToString :: "visibility \<Rightarrow> string" where
  "wsVisibilityToString VisPublic = ''PUBLIC''"
| "wsVisibilityToString VisPlayer = ''PLAYER''"
| "wsVisibilityToString VisRoleMafia = ''ROLE_MAFIA''"


fun code_string :: "error_code \<Rightarrow> string" where
  "code_string CodeValidation = ''VALIDATION_ERROR''"
| "code_string CodeWrongPhase = ''WRONG_PHASE_ERROR''"
| "code_string CodePermissionDenied = ''PERMISSION_DENIED_ERROR''"
| "code_string CodeRoleMismatch = ''ROLE_MISMATCH_ERROR''"
| "code_string CodeNotRepresentative = ''NOT_REPRESENTATIVE_ERROR''"
| "code_string CodeDeadPlayer = ''DEAD_PLAYER_ERROR''"
| "code_string CodeAlreadyDone = ''ALREADY_DONE_ERROR''"
| "code_string CodeInvalidTarget = ''INVALID_TARGET_ERROR''"
| "code_string CodeUnknownPlayer = ''UNKNOWN_PLAYER_ERROR''"

fun errorCodeOf :: "go_error option \<Rightarrow> string" where
  "errorCodeOf None = ''''"
| "errorCodeOf (Some (EngineError c f)) = code_string c"
| "errorCodeOf (Some (ValidationErrors es)) = code_string CodeValidation"
| "errorCodeOf (Some _) = ''INTERNAL''"

section \<open>No event is lost or confused on the wire\<close>

text \<open>
  What a client reads back. Deadlines are the milliseconds of the payload; \<open>GameStarted\<close> carries
  no state on the wire.
\<close>

definition read_payload :: "event_payload \<Rightarrow> event option" where
  "read_payload p = map_option (\<lambda>f. f p) (map_of
     [(''PlayerJoined'', \<lambda>p. PlayerJoined (epPlayerID p) (epName p)),
      (''GameStarted'', \<lambda>p. GameStarted zero_state),
      (''PhaseChanged'', \<lambda>p. PhaseChanged (epPhase p) (epDay p) (epDeadlineMs p)),
      (''RoleRevealedToPlayer'', \<lambda>p. RoleRevealedToPlayer (epPlayerID p) (epRole p) (epKeyword p)),
      (''MafiaCohortRevealed'', \<lambda>p. MafiaCohortRevealed (epMafiaIDs p) (epRepresentativeID p)),
      (''IntroSpeakerChanged'', \<lambda>p. IntroSpeakerChanged (epPlayerID p) (epSecondsLeft p)),
      (''MafiaTargetSelected'', \<lambda>p. MafiaTargetSelected (epRepresentativeID p) (epTarget p)),
      (''PoliceResult'', \<lambda>p. PoliceResult (epPolice p) (epTarget p) (epTeam p)),
      (''DeathAnnounced'', \<lambda>p. DeathAnnounced (epVictim p)),
      (''PeacefulNight'', \<lambda>p. PeacefulNight),
      (''NightStepChanged'', \<lambda>p. NightStepChanged (epStep p) (epDay p) (epStepDeadlineMs p)),
      (''GamePaused'', \<lambda>p. GamePaused (epPhase p)),
      (''GameResumed'', \<lambda>p. GameResumed (epPhase p) (epDeadlineMs p)),
      (''DiscussionTimerTick'', \<lambda>p. DiscussionTimerTick (epSecondsLeft p)),
      (''VoteTallied'', \<lambda>p. VoteTallied (epCounts p) (epEliminated p) (epRecount p)),
      (''Eliminated'', \<lambda>p. Eliminated (epPlayerID p) (epRole p)),
      (''MafiaRepresentativeReassigned'', \<lambda>p. MafiaRepresentativeReassigned (epOldID p) (epNewID p)),
      (''GameEnded'', \<lambda>p. GameEnded (epWinner p) (the (epEndReason p)) (epReveal p)),
      (''VoiceToggled'', \<lambda>p. VoiceToggled (the (epOn p)))]
     (Kind p))"

fun on_wire :: "event \<Rightarrow> event" where
  "on_wire (GameStarted s) = GameStarted zero_state"
| "on_wire (PhaseChanged ph d t) = PhaseChanged ph d (timeToMs (UnixMilli t))"
| "on_wire (NightStepChanged st d t) = NightStepChanged st d (timeToMs (UnixMilli t))"
| "on_wire (GameResumed ph t) = GameResumed ph (timeToMs (UnixMilli t))"
| "on_wire ev = ev"

text \<open>
  The wire form of an event determines the event. Every event of the engine has its own kind,
  never the fallback for unknown events, and everything it carries can be read back from the
  payload, deadlines to the millisecond; a zero deadline becomes 0, a later one is positive.
\<close>
theorem event_payload_roundtrip:
  "read_payload (buildEventPayload ev) = Some (on_wire ev) \<and> Kind (buildEventPayload ev) \<noteq> ''Unknown'' \<and>
   timeToMs (UnixMilli zero_time) = 0 \<and> (\<forall>t. 62135596801 * second \<le> t \<longrightarrow> 0 < timeToMs (UnixMilli t))"
proof -
  have "0 < timeToMs (UnixMilli t)" if "62135596801 * second \<le> t" for t
  proof -
    have "62135596801 * second div 1000000 \<le> t div 1000000"
      using that by (rule zdiv_mono1) simp
    then show ?thesis by (simp add: timeToMs_def UnixMilli_def second_def)
  qed
  moreover have "read_payload (buildEventPayload ev) = Some (on_wire ev)" "Kind (buildEventPayload ev) \<noteq> ''Unknown''"
    by (cases ev; simp add: read_payload_def zero_payload_def)+
  ultimately show ?thesis by (simp add: timeToMs_def UnixMilli_def)
qed

theorem event_payload_roundtrip_witness:
  "0 < timeToMs (UnixMilli (64000000000 * second)) \<and>
   read_payload (buildEventPayload (PoliceResult ''p'' ''q'' TeamMafia)) = Some (PoliceResult ''p'' ''q'' TeamMafia)"
  using event_payload_roundtrip [of "PoliceResult ''p'' ''q'' TeamMafia"] by (simp add: second_def)

end
