(* ===== verification/Hub.thy ===== *)
theory Hub
  imports Protocol
begin

text \<open>
  \<open>internal/transport/ws\<close>: the client registry, the hub, and the per-client loops. The registry
  holds pointers, which the code compares and through which it changes clients, so clients live in a
  heap and the registry maps to addresses. Each operation is atomic: the registry's operations under
  its lock, the calls of the session manager under the manager's; what the manager hands to the
  hub's subscription is processed before the call returns. The order in which a map is iterated
  is that of the association list; it only matters between the queues of different clients.
\<close>

section \<open>id.go and client.go\<close>

type_synonym ref = nat

definition idByteLen :: nat where "idByteLen = 8"

text \<open>The argument is what the system's generator delivers, padded with zeros when it fails.\<close>

definition newClientID :: "8 word list \<Rightarrow> client_id" where
  "newClientID bs = hex_encode (take idByteLen (bs @ replicate idByteLen 0))"

datatype client_kind = ClientPublic | ClientPlayer

fun kind_String :: "client_kind \<Rightarrow> string" where
  "kind_String ClientPublic = ''PUBLIC''"
| "kind_String ClientPlayer = ''PLAYER''"

text \<open>
  \<open>cDone\<close> is the cancellation of the client's context, \<open>cConnOpen\<close> whether its connection is open,
  \<open>cSent\<close> the frames written to the connection so far.
\<close>

record client =
  cID :: client_id
  cKind :: client_kind
  cPlayerID :: player_id
  cHostToken :: host_token
  cOut :: "wire list"
  cDone :: bool
  cConnOpen :: bool
  cJoinedAt :: time
  cSent :: "wire list"

definition outBufferSize :: nat where "outBufferSize = 16"

definition newClient :: "bool \<Rightarrow> 8 word list \<Rightarrow> time \<Rightarrow> client" where
  "newClient parentDone bs now =
     \<lparr>cID = newClientID bs, cKind = ClientPublic, cPlayerID = '''', cHostToken = '''', cOut = [],
      cDone = parentDone, cConnOpen = True, cJoinedAt = now, cSent = []\<rparr>"

type_synonym heap = "ref \<Rightarrow> client"

record registry =
  byID :: "(client_id, ref) gomap"
  byPlayerID :: "(player_id, ref) gomap"
  publics :: "(client_id, ref) gomap"

definition newClientRegistry :: registry where
  "newClientRegistry = \<lparr>byID = [], byPlayerID = [], publics = []\<rparr>"

definition registry_add :: "heap \<Rightarrow> ref \<Rightarrow> registry \<Rightarrow> registry" where
  "registry_add hp c r =
     (let cl = hp c; r = r\<lparr>byID := AList.update (cID cl) c (byID r)\<rparr> in
      if cKind cl = ClientPublic then r\<lparr>publics := AList.update (cID cl) c (publics r)\<rparr>
      else if cPlayerID cl \<noteq> '''' then r\<lparr>byPlayerID := AList.update (cPlayerID cl) c (byPlayerID r)\<rparr>
      else r)"

definition registry_remove :: "heap \<Rightarrow> client_id \<Rightarrow> registry \<Rightarrow> registry \<times> ref option" where
  "registry_remove hp cid r =
     (case map_of (byID r) cid of
        None \<Rightarrow> (r, None)
      | Some c \<Rightarrow>
          let r = r\<lparr>byID := AList.delete cid (byID r), publics := AList.delete cid (publics r)\<rparr>; pid = cPlayerID (hp c);
              r = (if pid \<noteq> '''' \<and> map_of (byPlayerID r) pid = Some c
                   then r\<lparr>byPlayerID := AList.delete pid (byPlayerID r)\<rparr> else r)
          in (r, Some c))"

definition registry_bindPlayer :: "ref \<Rightarrow> player_id \<Rightarrow> heap \<Rightarrow> registry \<Rightarrow> heap \<times> registry \<times> client_id option" where
  "registry_bindPlayer c pid hp r =
     (let oldID = (case map_of (byPlayerID r) pid of
                     Some existing \<Rightarrow> if cID (hp existing) \<noteq> cID (hp c) then Some (cID (hp existing)) else None
                   | None \<Rightarrow> None);
          r = (if oldID \<noteq> None then r\<lparr>byPlayerID := AList.delete pid (byPlayerID r)\<rparr> else r);
          r = r\<lparr>publics := AList.delete (cID (hp c)) (publics r)\<rparr>;
          hp = hp(c := (hp c)\<lparr>cKind := ClientPlayer, cPlayerID := pid\<rparr>)
      in (hp, r\<lparr>byPlayerID := AList.update pid c (byPlayerID r)\<rparr>, oldID))"

definition registry_unbindPlayer :: "ref \<Rightarrow> heap \<Rightarrow> registry \<Rightarrow> heap \<times> registry" where
  "registry_unbindPlayer c hp r =
     (let pid = cPlayerID (hp c);
          r = (if pid \<noteq> '''' \<and> map_of (byPlayerID r) pid = Some c
               then r\<lparr>byPlayerID := AList.delete pid (byPlayerID r)\<rparr> else r);
          hp = hp(c := (hp c)\<lparr>cPlayerID := '''', cKind := ClientPublic\<rparr>)
      in (hp, r\<lparr>publics := AList.update (cID (hp c)) c (publics r)\<rparr>))"

definition byPlayerSafe :: "registry \<Rightarrow> player_id \<Rightarrow> ref option" where
  "byPlayerSafe r pid = map_of (byPlayerID r) pid"

definition snapshotPublic :: "registry \<Rightarrow> ref list" where
  "snapshotPublic r = map snd (publics r)"

definition snapshotPlayers :: "registry \<Rightarrow> ref list" where
  "snapshotPlayers r = map snd (byPlayerID r)"

definition registry_all :: "registry \<Rightarrow> ref list" where
  "registry_all r = map snd (byID r)"

section \<open>hub.go: the state\<close>

text \<open>
  \<open>hUnsub\<close> is the identifier of the hub's subscription while it has one, \<open>hSpawned\<close> the goroutines
  \<open>go h.Unregister(id)\<close> that have not run yet, \<open>hNext\<close> the next free address.
\<close>

record hub =
  hMgr :: manager
  hReg :: registry
  hHeap :: heap
  hNext :: ref
  hUnsub :: "nat option"
  hSpawned :: "client_id list"
  hClosed :: bool
  hRootDone :: bool

definition NewHub :: "manager \<Rightarrow> hub" where
  "NewHub mgr =
     (let (mgr, hid) = Subscribe mgr in
      \<lparr>hMgr = mgr, hReg = newClientRegistry, hHeap = (\<lambda>_. newClient False [] zero_time), hNext = 0, hUnsub = Some hid,
       hSpawned = [], hClosed = False, hRootDone = False\<rparr>)"

section \<open>writer.go\<close>

definition enqueue :: "ref \<Rightarrow> wire \<Rightarrow> hub \<Rightarrow> hub" where
  "enqueue c msg h =
     (let cl = hHeap h c in
      if cDone cl then h
      else if length (cOut cl) < outBufferSize
      then h\<lparr>hHeap := (hHeap h)(c := cl\<lparr>cOut := cOut cl @ [msg]\<rparr>)\<rparr>
      else h\<lparr>hSpawned := hSpawned h @ [cID cl]\<rparr>)"

definition enqueue_all :: "ref list \<Rightarrow> wire \<Rightarrow> hub \<Rightarrow> hub" where
  "enqueue_all cs msg h = fold (\<lambda>c. enqueue c msg) cs h"

definition Unregister :: "client_id \<Rightarrow> hub \<Rightarrow> hub" where
  "Unregister cid h =
     (case registry_remove (hHeap h) cid (hReg h) of
        (r, None) \<Rightarrow> h\<lparr>hReg := r\<rparr>
      | (r, Some c) \<Rightarrow> h\<lparr>hReg := r, hHeap := (hHeap h)(c := (hHeap h c)\<lparr>cDone := True, cConnOpen := False\<rparr>)\<rparr>)"

text \<open>One iteration of \<open>writeLoop\<close>: what the select chose, and whether the write succeeded.\<close>

datatype write_choice = WriteDone | WriteMessage bool | WritePing bool

definition write_step :: "write_choice \<Rightarrow> ref \<Rightarrow> hub \<Rightarrow> hub" where
  "write_step ch c h =
     (let cl = hHeap h c; close = h\<lparr>hHeap := (hHeap h)(c := cl\<lparr>cConnOpen := False\<rparr>)\<rparr> in
      case ch of
        WriteDone \<Rightarrow> if cDone cl then close else h
      | WriteMessage good \<Rightarrow>
          (case cOut cl of
             [] \<Rightarrow> h
           | msg # rest \<Rightarrow>
               if good then h\<lparr>hHeap := (hHeap h)(c := cl\<lparr>cOut := rest, cSent := cSent cl @ [msg]\<rparr>)\<rparr>
               else h\<lparr>hHeap := (hHeap h)(c := cl\<lparr>cOut := rest, cConnOpen := False\<rparr>)\<rparr>)
      | WritePing good \<Rightarrow> if good then h else close)"

section \<open>dispatch.go\<close>

definition broadcastRoomOpened :: "options \<Rightarrow> hub \<Rightarrow> hub" where
  "broadcastRoomOpened opts h =
     (let h = enqueue_all (snapshotPublic (hReg h)) (RoomOpenedMsg opts) h in
      enqueue_all (snapshotPlayers (hReg h)) (RoomOpenedMsg opts) h)"

definition hub_unbind :: "ref \<Rightarrow> hub \<Rightarrow> hub" where
  "hub_unbind c h = (let (hp, r) = registry_unbindPlayer c (hHeap h) (hReg h) in h\<lparr>hHeap := hp, hReg := r\<rparr>)"

definition broadcastRoomClosed :: "hub \<Rightarrow> hub" where
  "broadcastRoomClosed h =
     (let h = enqueue_all (snapshotPublic (hReg h)) RoomClosedMsg h in
      fold (\<lambda>c h. hub_unbind c (enqueue c RoomClosedMsg h)) (snapshotPlayers (hReg h)) h)"

definition pushRoomState :: "ref \<Rightarrow> room_snapshot \<Rightarrow> hub \<Rightarrow> hub" where
  "pushRoomState c snap h =
     (let h = (if rsRoomOpened snap
               then enqueue c (SnapshotMsg (rsState snap) zero_your_info False) (enqueue c (RoomOpenedMsg (rsOptions snap)) h)
               else h)
      in if rsHostOccupied snap then enqueue c RoomHostOccupiedMsg h else h)"

definition routeEvent :: "registry \<Rightarrow> envelope \<Rightarrow> state \<Rightarrow> ref list" where
  "routeEvent r env st =
     (case Visibility env of
        VisPublic \<Rightarrow> snapshotPublic r @ snapshotPlayers r
      | VisPlayer \<Rightarrow> (case byPlayerSafe r (Recipient env) of Some c \<Rightarrow> [c] | None \<Rightarrow> [])
      | VisRoleMafia \<Rightarrow>
          concat (map (\<lambda>p. if Alive p \<and> Role p = RoleMafia
                            then (case byPlayerSafe r (ID p) of Some c \<Rightarrow> [c] | None \<Rightarrow> []) else [])
                      (Players st)))"

definition announce_msg :: "announcement \<Rightarrow> wire" where
  "announce_msg a = AnnounceMsg (Subtitle a) (AudioID a) (severity_string (Severity a))"

definition onEvent :: "event_out \<Rightarrow> hub \<Rightarrow> hub" where
  "onEvent out h =
     (let h = (case oEnvelope out of
                 None \<Rightarrow> h
               | Some env \<Rightarrow>
                   enqueue_all (routeEvent (hReg h) env (oState out))
                     (EventMsg (wsVisibilityToString (Visibility env)) (buildEventPayload (Event env))) h)
      in case oAnnouncement out of
           None \<Rightarrow> h
         | Some a \<Rightarrow>
             if \<not> IsEmpty a \<and> ForPublicOnly a then enqueue_all (snapshotPublic (hReg h)) (announce_msg a) h else h)"

text \<open>
  A call of the manager: what it hands to the hub's subscription is processed by \<open>onEvent\<close>, in
  order, before the call returns.
\<close>

definition with_mgr :: "(manager \<Rightarrow> manager \<times> 'a) \<Rightarrow> hub \<Rightarrow> hub \<times> 'a" where
  "with_mgr f h =
     (let (m, res) = f (hMgr h);
          outs = map snd (filter (\<lambda>(hid, out). Some hid = hUnsub h) (drop (length (mDelivered (hMgr h))) (mDelivered m)))
      in (fold onEvent outs (h\<lparr>hMgr := m\<rparr>), res))"


section \<open>handlers.go: answers\<close>

definition sendError :: "ref \<Rightarrow> string \<Rightarrow> error_text \<Rightarrow> hub \<Rightarrow> hub" where
  "sendError c code message h = enqueue c (ErrorMsg code message) h"

text \<open>The announcement uses the default catalog with an empty context.\<close>

definition handleSubmitErr :: "ref \<Rightarrow> go_error option \<Rightarrow> hub \<Rightarrow> hub" where
  "handleSubmitErr c err h =
     (case err of
        None \<Rightarrow> h
      | Some e \<Rightarrow>
          let a = RenderError (Some e) (cPlayerID (hHeap h c)) \<lparr>GetName = None, ctxIntroSeconds = 0\<rparr>;
              h = (if \<not> IsEmpty a then enqueue c (announce_msg a) h else h)
          in sendError c (errorCodeOf (Some e)) (ErrorText e) h)"

definition hub_bindPlayer :: "ref \<Rightarrow> player_id \<Rightarrow> hub \<Rightarrow> hub" where
  "hub_bindPlayer c pid h =
     (let (hp, r, old) = registry_bindPlayer c pid (hHeap h) (hReg h); h = h\<lparr>hHeap := hp, hReg := r\<rparr> in
      case old of Some oldID \<Rightarrow> Unregister oldID h | None \<Rightarrow> h)"

definition respondJoin :: "ref \<Rightarrow> go_error + join_result \<Rightarrow> hub \<Rightarrow> hub" where
  "respondJoin c res h =
     (case res of
        Inl err \<Rightarrow> handleSubmitErr c (Some err) h
      | Inr jr \<Rightarrow>
          let h = hub_bindPlayer c (jrPlayerID jr) h in
          enqueue c (JoinedMsg (jrPlayerID jr) (jrToken jr) (jrIsHost jr)) h)"

definition badPayload :: "ref \<Rightarrow> hub \<Rightarrow> hub" where
  "badPayload c h = sendError c ''VALIDATION_ERROR'' (Literal ''bad payload'') h"

text \<open>An action submitted under the client's own identity.\<close>

definition submit :: "'r rand_lib \<Rightarrow> ref \<Rightarrow> action \<Rightarrow> hub \<Rightarrow> hub" where
  "submit lib c a h = (let (h, outs, err) = with_mgr (SubmitAction lib a) h in handleSubmitErr c err h)"

definition submit_target :: "'r rand_lib \<Rightarrow> ref \<Rightarrow> (player_id \<Rightarrow> player_id \<Rightarrow> action) \<Rightarrow> json option \<Rightarrow> hub \<Rightarrow> hub" where
  "submit_target lib c mk raw h =
     (case targetPayload raw of
        None \<Rightarrow> badPayload c h
      | Some p \<Rightarrow> submit lib c (mk (cPlayerID (hHeap h c)) (tpTarget p)) h)"

fun err_of :: "go_error + 'a \<Rightarrow> go_error option" where
  "err_of (Inl e) = Some e"
| "err_of (Inr x) = None"

text \<open>Two of the host's messages.\<close>

definition host_close_room :: "ref \<Rightarrow> hub \<Rightarrow> hub" where
  "host_close_room c h =
     (case with_mgr (HostCloseRoom (cHostToken (hHeap h c))) h of
        (h, Some err) \<Rightarrow> handleSubmitErr c (Some err) h
      | (h, None) \<Rightarrow> broadcastRoomClosed h)"

definition host_save_options :: "ref \<Rightarrow> json option \<Rightarrow> hub \<Rightarrow> hub" where
  "host_save_options c raw h =
     (case optionsPayload raw of
        None \<Rightarrow> badPayload c h
      | Some p \<Rightarrow>
          let (h, err) = with_mgr (SaveHostOptions (cHostToken (hHeap h c)) (opOptions p)) h in handleSubmitErr c err h)"

section \<open>handlers.go: handleIncoming\<close>

text \<open>The argument \<open>b\<close> is what the generator would deliver to \<open>ClaimHost\<close>.\<close>

definition handleIncoming :: "'r rand_lib \<Rightarrow> 8 word list option \<Rightarrow> ref \<Rightarrow> string \<Rightarrow> json option \<Rightarrow> hub \<Rightarrow> hub" where
  "handleIncoming lib b c typ raw h =
     (let me = cPlayerID (hHeap h c); seat = cHostToken (hHeap h c) in
      case map_of type_strings typ of
        None \<Rightarrow> sendError c ''VALIDATION_ERROR'' (Literal (''unknown message type: '' @ typ)) h
      | Some TypeHostCreateSession \<Rightarrow>
          (case joinPayload raw of
             None \<Rightarrow> badPayload c h
           | Some p \<Rightarrow> let (h, res) = with_mgr (CreateSession (jpName p)) h in respondJoin c res h)
      | Some TypeJoin \<Rightarrow>
          (case joinPayload raw of
             None \<Rightarrow> badPayload c h
           | Some p \<Rightarrow> let (h, res) = with_mgr (JoinPlayer (jpName p)) h in respondJoin c res h)
      | Some TypeResume \<Rightarrow>
          (case resumePayload raw of
             None \<Rightarrow> badPayload c h
           | Some p \<Rightarrow>
               let (h, res) = with_mgr (ResumePlayer (rpToken p)) h; h = respondJoin c res h in
               case res of
                 Inl err \<Rightarrow> h
               | Inr jr \<Rightarrow>
                   enqueue c (SnapshotMsg (jrCurrentState jr)
                     \<lparr>yiRole = jrYourRole jr, yiKeyword = jrYourKeyword jr, yiTeam = jrYourTeam jr,
                      yiMafiaCohort = jrMafiaCohort jr\<rparr> (jrIsHost jr)) h)
      | Some TypeHostStart \<Rightarrow>
          (case optionsPayload raw of
             None \<Rightarrow> badPayload c h
           | Some p \<Rightarrow>
               let (h, res) = with_mgr (StartGameSession lib me (opOptions p)) h in handleSubmitErr c (err_of res) h)
      | Some TypeSubmitAdvanceIntro \<Rightarrow> submit lib c (AdvanceIntro me) h
      | Some TypeSubmitMafiaKill \<Rightarrow> submit_target lib c SubmitMafiaKill raw h
      | Some TypeSubmitDoctorHeal \<Rightarrow> submit_target lib c SubmitDoctorHeal raw h
      | Some TypeSubmitPoliceCheck \<Rightarrow> submit_target lib c SubmitPoliceCheck raw h
      | Some TypeSubmitEndNight \<Rightarrow> submit lib c (EndNightEarly me) h
      | Some TypeSubmitEndDiscuss \<Rightarrow> submit lib c (EndDiscussionEarly me) h
      | Some TypeSubmitVote \<Rightarrow> submit_target lib c SubmitVote raw h
      | Some TypeHostToggleVoice \<Rightarrow>
          (case voiceTogglePayload raw of
             None \<Rightarrow> badPayload c h
           | Some p \<Rightarrow> submit lib c (ToggleVoice me (vpOn p)) h)
      | Some TypeHostForceEnd \<Rightarrow> submit lib c (ForceEndGame me) h
      | Some TypeHostClaim \<Rightarrow>
          (case with_mgr (ClaimHost b) h of
             (h, Inl err) \<Rightarrow> enqueue c RoomHostOccupiedMsg h
           | (h, Inr token) \<Rightarrow>
               enqueue c (HostTokenMsg token) (h\<lparr>hHeap := (hHeap h)(c := (hHeap h c)\<lparr>cHostToken := token\<rparr>)\<rparr>))
      | Some TypeHostOpenRoom \<Rightarrow>
          (case optionsPayload raw of
             None \<Rightarrow> badPayload c h
           | Some p \<Rightarrow>
               (case with_mgr (OpenRoom seat (opOptions p)) h of
                  (h, Inl err) \<Rightarrow> handleSubmitErr c (Some err) h
                | (h, Inr st) \<Rightarrow> broadcastRoomOpened (opOptions p) h))
      | Some TypeHostStartRoom \<Rightarrow>
          let (h, res) = with_mgr (HostStartGame lib seat) h in handleSubmitErr c (err_of res) h
      | Some TypeHostTerminateRoom \<Rightarrow>
          let (h, res) = with_mgr (HostForceTerminate lib seat) h in handleSubmitErr c (err_of res) h
      | Some TypeHostCloseRoom \<Rightarrow> host_close_room c h
      | Some TypeHostSaveOptions \<Rightarrow> host_save_options c raw h
      | Some TypePlayerEndSelfIntro \<Rightarrow> submit lib c (EndSelfIntro me) h
      | Some TypeHostPause \<Rightarrow> submit lib c (PauseGame me) h
      | Some TypeHostResume \<Rightarrow> submit lib c (ResumeGame me) h
      | Some TypeSubscribePublic \<Rightarrow> h)"

text \<open>One message read by \<open>readLoop\<close>, and the deferred function when the loop ends.\<close>

definition read_step :: "'r rand_lib \<Rightarrow> 8 word list option \<Rightarrow> ref \<Rightarrow> json option \<Rightarrow> hub \<Rightarrow> hub" where
  "read_step lib b c raw h =
     (case incomingEnvelope raw of
        None \<Rightarrow> sendError c ''VALIDATION_ERROR'' (Literal ''invalid message'') h
      | Some typ \<Rightarrow>
          if typ = '''' then sendError c ''VALIDATION_ERROR'' (Literal ''invalid message'') h
          else handleIncoming lib b c typ raw h)"

definition read_end :: "ref \<Rightarrow> hub \<Rightarrow> hub" where
  "read_end c h =
     (let h = (if cHostToken (hHeap h c) \<noteq> ''''
               then let h = fst (with_mgr (\<lambda>m. (ReleaseHost (cHostToken (hHeap h c)) m, ())) h) in
                 h\<lparr>hHeap := (hHeap h)(c := (hHeap h c)\<lparr>cHostToken := ''''\<rparr>)\<rparr>
               else h)
      in Unregister (cID (hHeap h c)) h)"

section \<open>hub.go: operations\<close>

text \<open>
  \<open>Register\<close> of a connection (\<open>None\<close> is a nil pointer): the bytes for the identifier and the time.
  \<open>None\<close> in the answer is an error.
\<close>

definition Register :: "(8 word list \<times> time) option \<Rightarrow> hub \<Rightarrow> hub \<times> client_id option" where
  "Register conn h =
     (case conn of
        None \<Rightarrow> (h, None)
      | Some (bs, now) \<Rightarrow>
          if hClosed h then (h, None)
          else
            let c = hNext h; cl = newClient (hRootDone h) bs now;
                h = h\<lparr>hHeap := (hHeap h)(c := cl), hNext := Suc c\<rparr>;
                h = h\<lparr>hReg := registry_add (hHeap h) c (hReg h)\<rparr>;
                h = enqueue c (WelcomeMsg (cID cl) (kind_String (cKind cl)) protocolVersion) h;
                h = pushRoomState c (RoomSnapshot (hMgr h)) h
            in (h, Some (cID cl)))"

definition CloseHub :: "hub \<Rightarrow> hub" where
  "CloseHub h =
     (if hClosed h then h
      else
        let h = h\<lparr>hClosed := True\<rparr>;
            h = (case hUnsub h of None \<Rightarrow> h | Some hid \<Rightarrow> h\<lparr>hMgr := unsubscribe hid (hMgr h), hUnsub := None\<rparr>);
            h = fold (\<lambda>c h. Unregister (cID (hHeap h c)) h) (registry_all (hReg h)) h
        in h\<lparr>hRootDone := True, hHeap := (\<lambda>c. (hHeap h c)\<lparr>cDone := True\<rparr>)\<rparr>)"

text \<open>A spawned \<open>go h.Unregister(id)\<close> runs.\<close>

definition spawned_step :: "nat \<Rightarrow> hub \<Rightarrow> hub" where
  "spawned_step i h =
     (if i < length (hSpawned h)
      then Unregister (hSpawned h ! i) (h\<lparr>hSpawned := take i (hSpawned h) @ drop (Suc i) (hSpawned h)\<rparr>) else h)"

definition tick_step :: "'r rand_lib \<Rightarrow> time \<Rightarrow> hub \<Rightarrow> hub" where
  "tick_step lib now h = fst (with_mgr (\<lambda>m. (SessionTick lib now m, ())) h)"

end
