(* ===== verification/HubInv.thy ===== *)
theory HubInv
  imports Hub
begin

text \<open>
  Properties of the hub: the registry's indices agree with the clients, the send queues are bounded,
  the host's seat belongs to one connection, and the hub drives the session manager only through
  the steps of its transition system.
\<close>

section \<open>What queueing leaves alone\<close>

definition badge :: "client \<Rightarrow> client_id \<times> client_kind \<times> player_id \<times> host_token" where
  "badge cl = (cID cl, cKind cl, cPlayerID cl, cHostToken cl)"

definition bounded_queues :: "hub \<Rightarrow> bool" where
  "bounded_queues h \<longleftrightarrow> (\<forall>c. length (cOut (hHeap h c)) \<le> outBufferSize)"

text \<open>Everything but the queues, the written frames and the state of the connections is kept.\<close>

definition calm :: "hub \<Rightarrow> hub \<Rightarrow> bool" where
  "calm h h' \<longleftrightarrow> hReg h' = hReg h \<and> hNext h' = hNext h \<and> hUnsub h' = hUnsub h \<and> hClosed h' = hClosed h \<and>
     (\<forall>c. badge (hHeap h' c) = badge (hHeap h c)) \<and> (bounded_queues h \<longrightarrow> bounded_queues h')"

lemma calm_refl [simp]: "calm h h" by (simp add: calm_def)

lemma calm_trans: "calm h h' \<Longrightarrow> calm h' h'' \<Longrightarrow> calm h h''" by (simp add: calm_def)

lemma calm_enqueue: "calm h (enqueue c msg h)" "hMgr (enqueue c msg h) = hMgr h"
  by (auto simp: calm_def enqueue_def Let_def badge_def bounded_queues_def)

lemma calm_enqueue_after: "calm h h' \<Longrightarrow> calm h (enqueue c msg h')"
  by (rule calm_trans [OF _ calm_enqueue(1)])

lemma calm_fold:
  assumes "\<And>x h. calm h (f x h)" "\<And>x h. hMgr (f x h) = hMgr h"
  shows "calm h (fold f xs h)" "hMgr (fold f xs h) = hMgr h"
proof (induction xs arbitrary: h)
  case (Cons x xs)
  { case 1 show ?case using calm_trans [OF assms(1) Cons(1)] by simp }
  { case 2 show ?case by (simp add: Cons(2) assms(2)) }
qed simp_all

lemma calm_enqueue_all: "calm h (enqueue_all cs msg h)" "hMgr (enqueue_all cs msg h) = hMgr h"
  unfolding enqueue_all_def by (intro calm_fold calm_enqueue)+

lemma calm_onEvent: "calm h (onEvent out h)" "hMgr (onEvent out h) = hMgr h"
  by (auto simp: onEvent_def Let_def calm_enqueue_all intro: calm_trans [OF calm_enqueue_all(1) calm_enqueue_all(1)]
      split: option.split)

lemma calm_with_mgr:
  "calm h (fst (with_mgr f h))" "hMgr (fst (with_mgr f h)) = fst (f (hMgr h))" "snd (with_mgr f h) = snd (f (hMgr h))"
proof -
  have "calm h (h\<lparr>hMgr := m\<rparr>)" for m by (simp add: calm_def bounded_queues_def)
  then show "calm h (fst (with_mgr f h))"
    using calm_trans [OF _ calm_fold(1) [of onEvent, OF calm_onEvent]]
    by (simp add: with_mgr_def split_beta Let_def)
  show "hMgr (fst (with_mgr f h)) = fst (f (hMgr h))" "snd (with_mgr f h) = snd (f (hMgr h))"
    by (simp_all add: with_mgr_def split_beta Let_def calm_fold(2) [of onEvent, OF calm_onEvent])
qed

lemma calm_sendError: "calm h (sendError c code msg h)" "hMgr (sendError c code msg h) = hMgr h"
  by (simp_all add: sendError_def calm_enqueue)

lemma calm_submitErr: "calm h (handleSubmitErr c err h)" "hMgr (handleSubmitErr c err h) = hMgr h"
  by (auto simp: handleSubmitErr_def Let_def calm_sendError intro: calm_trans [OF calm_enqueue(1) calm_sendError(1)]
      calm_enqueue split: option.split)

lemma calm_pushRoomState: "calm h (pushRoomState c snap h)" "hMgr (pushRoomState c snap h) = hMgr h"
  by (simp_all add: pushRoomState_def Let_def calm_enqueue(2) calm_enqueue_after)

lemma calm_roomOpened: "calm h (broadcastRoomOpened opts h)" "hMgr (broadcastRoomOpened opts h) = hMgr h"
  by (auto simp: broadcastRoomOpened_def Let_def calm_enqueue_all intro: calm_trans [OF calm_enqueue_all(1) calm_enqueue_all(1)])


section \<open>The registry\<close>

text \<open>
  The index of all clients is by their identifiers; the two other indices are exactly its
  public and its player clients. A client has a player exactly when it is a player client.
\<close>

definition registry_inv :: "hub \<Rightarrow> bool" where
  "registry_inv h \<longleftrightarrow>
     gomap_ok (byID (hReg h)) \<and> gomap_ok (byPlayerID (hReg h)) \<and> gomap_ok (publics (hReg h)) \<and>
     (\<forall>i c. (i, c) \<in> set (byID (hReg h)) \<longrightarrow> cID (hHeap h c) = i \<and> c < hNext h) \<and>
     (\<forall>c d. c < hNext h \<longrightarrow> d < hNext h \<longrightarrow> cID (hHeap h c) = cID (hHeap h d) \<longrightarrow> c = d) \<and>
     (\<forall>i c. (i, c) \<in> set (publics (hReg h)) \<longleftrightarrow> (i, c) \<in> set (byID (hReg h)) \<and> cKind (hHeap h c) = ClientPublic) \<and>
     (\<forall>p c. (p, c) \<in> set (byPlayerID (hReg h)) \<longleftrightarrow>
        (cID (hHeap h c), c) \<in> set (byID (hReg h)) \<and> cKind (hHeap h c) = ClientPlayer \<and> cPlayerID (hHeap h c) = p) \<and>
     (\<forall>c. cPlayerID (hHeap h c) = '''' \<longleftrightarrow> cKind (hHeap h c) = ClientPublic)"

lemma registry_invD:
  assumes "registry_inv h"
  shows "gomap_ok (byID (hReg h))" "gomap_ok (byPlayerID (hReg h))" "gomap_ok (publics (hReg h))"
    "\<And>i c. (i, c) \<in> set (byID (hReg h)) \<Longrightarrow> cID (hHeap h c) = i \<and> c < hNext h"
    "\<And>c d. c < hNext h \<Longrightarrow> d < hNext h \<Longrightarrow> cID (hHeap h c) = cID (hHeap h d) \<Longrightarrow> c = d"
    "\<And>i c. (i, c) \<in> set (publics (hReg h)) \<longleftrightarrow> (i, c) \<in> set (byID (hReg h)) \<and> cKind (hHeap h c) = ClientPublic"
    "\<And>p c. (p, c) \<in> set (byPlayerID (hReg h)) \<longleftrightarrow>
       (cID (hHeap h c), c) \<in> set (byID (hReg h)) \<and> cKind (hHeap h c) = ClientPlayer \<and> cPlayerID (hHeap h c) = p"
    "\<And>c. cPlayerID (hHeap h c) = '''' \<longleftrightarrow> cKind (hHeap h c) = ClientPublic"
  using assms unfolding registry_inv_def by - (elim conjE, simp)+

lemma registry_invI:
  assumes "gomap_ok (byID (hReg h))" "gomap_ok (byPlayerID (hReg h))" "gomap_ok (publics (hReg h))"
    "\<And>i c. (i, c) \<in> set (byID (hReg h)) \<Longrightarrow> cID (hHeap h c) = i \<and> c < hNext h"
    "\<And>c d. c < hNext h \<Longrightarrow> d < hNext h \<Longrightarrow> cID (hHeap h c) = cID (hHeap h d) \<Longrightarrow> c = d"
    "\<And>i c. (i, c) \<in> set (publics (hReg h)) \<longleftrightarrow> (i, c) \<in> set (byID (hReg h)) \<and> cKind (hHeap h c) = ClientPublic"
    "\<And>p c. (p, c) \<in> set (byPlayerID (hReg h)) \<longleftrightarrow>
       (cID (hHeap h c), c) \<in> set (byID (hReg h)) \<and> cKind (hHeap h c) = ClientPlayer \<and> cPlayerID (hHeap h c) = p"
    "\<And>c. cPlayerID (hHeap h c) = '''' \<longleftrightarrow> cKind (hHeap h c) = ClientPublic"
  shows "registry_inv h"
  unfolding registry_inv_def by (intro conjI allI impI) (use assms in blast)+

definition registered :: "hub \<Rightarrow> ref \<Rightarrow> bool" where
  "registered h c \<longleftrightarrow> (cID (hHeap h c), c) \<in> set (byID (hReg h))"

lemma badge_eq:
  "badge cl = badge cl' \<longleftrightarrow>
   cID cl = cID cl' \<and> cKind cl = cKind cl' \<and> cPlayerID cl = cPlayerID cl' \<and> cHostToken cl = cHostToken cl'"
  by (simp add: badge_def)

lemma registry_same:
  assumes "hReg h' = hReg h" "hNext h' = hNext h" "\<And>c. cID (hHeap h' c) = cID (hHeap h c)"
    "\<And>c. cKind (hHeap h' c) = cKind (hHeap h c)" "\<And>c. cPlayerID (hHeap h' c) = cPlayerID (hHeap h c)"
  shows "registry_inv h' = registry_inv h"
  unfolding registry_inv_def assms ..

lemma registry_inv_calm: "calm h h' \<Longrightarrow> registry_inv h \<Longrightarrow> registry_inv h'"
  by (auto simp: calm_def registry_inv_def badge_eq)

lemma registered_calm: "calm h h' \<Longrightarrow> registered h' c = registered h c"
  by (simp add: calm_def registered_def badge_eq)

lemma set_delete: "set (AList.delete k m) = {(i, x) \<in> set m. i \<noteq> k}"
  by (induction m) auto

lemma set_update_gomap: "gomap_ok m \<Longrightarrow> set (AList.update k v m) = insert (k, v) {(i, x) \<in> set m. i \<noteq> k}"
  by (induction m) (force simp: gomap_ok_def)+

lemma gomap_ok_ops [simp]: "gomap_ok m \<Longrightarrow> gomap_ok (AList.update k v m)" "gomap_ok m \<Longrightarrow> gomap_ok (AList.delete k m)"
  by (simp_all add: gomap_ok_def distinct_update distinct_delete)

lemma Unregister_fields:
  assumes "registry_inv h" "map_of (byID (hReg h)) cid = Some c"
  shows "\<And>d. badge (hHeap (Unregister cid h) d) = badge (hHeap h d)" "hNext (Unregister cid h) = hNext h"
    "byID (hReg (Unregister cid h)) = AList.delete cid (byID (hReg h))"
    "publics (hReg (Unregister cid h)) = AList.delete cid (publics (hReg h))"
    "gomap_ok (byPlayerID (hReg (Unregister cid h)))"
    "\<And>p d. (p, d) \<in> set (byPlayerID (hReg (Unregister cid h))) \<longleftrightarrow> (p, d) \<in> set (byPlayerID (hReg h)) \<and> d \<noteq> c"
proof -
  let ?p = "cPlayerID (hHeap h c)"
  show "\<And>d. badge (hHeap (Unregister cid h) d) = badge (hHeap h d)" "hNext (Unregister cid h) = hNext h"
    "byID (hReg (Unregister cid h)) = AList.delete cid (byID (hReg h))"
    "publics (hReg (Unregister cid h)) = AList.delete cid (publics (hReg h))"
    using assms(2) by (simp_all add: Unregister_def registry_remove_def Let_def badge_def)
  have pl: "byPlayerID (hReg (Unregister cid h)) =
      (if ?p \<noteq> '''' \<and> map_of (byPlayerID (hReg h)) ?p = Some c then AList.delete ?p (byPlayerID (hReg h)) else byPlayerID (hReg h))"
    using assms(2) by (simp add: Unregister_def registry_remove_def Let_def)
  then show "gomap_ok (byPlayerID (hReg (Unregister cid h)))" using registry_invD(2) [OF assms(1)] by simp
  fix p d
  note lookup = gomap_lookup_iff [OF registry_invD(2) [OF assms(1)]]
  show "(p, d) \<in> set (byPlayerID (hReg (Unregister cid h))) \<longleftrightarrow> (p, d) \<in> set (byPlayerID (hReg h)) \<and> d \<noteq> c"
  proof (cases "(?p, c) \<in> set (byPlayerID (hReg h))")
    case True
    then have "?p \<noteq> ''''" using registry_invD(7,8) [OF assms(1)] by auto
    moreover have "d = c \<longleftrightarrow> p = ?p" if "(p, d) \<in> set (byPlayerID (hReg h))"
      using that True lookup registry_invD(7) [OF assms(1)] by (metis option.inject)
    ultimately show ?thesis using True lookup by (auto simp: pl set_delete)
  next
    case False
    then have "(p, c) \<notin> set (byPlayerID (hReg h))" using registry_invD(7) [OF assms(1)] by auto
    with False lookup show ?thesis by (auto simp: pl)
  qed
qed

lemma registry_inv_Unregister:
  assumes "registry_inv h"
  shows "registry_inv (Unregister cid h)"
proof (cases "map_of (byID (hReg h)) cid")
  case None
  then have "Unregister cid h = h" by (simp add: Unregister_def registry_remove_def)
  with assms show ?thesis by simp
next
  case (Some c)
  note f = Unregister_fields [OF assms Some] and r = registry_invD [OF assms]
  have b: "cID (hHeap (Unregister cid h) d) = cID (hHeap h d)" "cKind (hHeap (Unregister cid h) d) = cKind (hHeap h d)"
    "cPlayerID (hHeap (Unregister cid h) d) = cPlayerID (hHeap h d)" for d
    using f(1) [of d] by (simp_all add: badge_eq)
  have c: "(i, d) \<in> set (byID (hReg h)) \<Longrightarrow> i \<noteq> cid \<longleftrightarrow> d \<noteq> c" for i d
    using Some r(1,4,5) gomap_lookup_iff [OF r(1)] by metis
  show ?thesis
  proof (rule registry_invI)
    show "gomap_ok (byID (hReg (Unregister cid h)))" "gomap_ok (publics (hReg (Unregister cid h)))"
      "gomap_ok (byPlayerID (hReg (Unregister cid h)))"
      using r(1,3) f(5) by (simp_all add: f)
    show "\<And>i c. (i, c) \<in> set (byID (hReg (Unregister cid h))) \<Longrightarrow>
        cID (hHeap (Unregister cid h) c) = i \<and> c < hNext (Unregister cid h)"
      using r(4) by (auto simp: f b set_delete)
    show "\<And>c d. c < hNext (Unregister cid h) \<Longrightarrow> d < hNext (Unregister cid h) \<Longrightarrow>
        cID (hHeap (Unregister cid h) c) = cID (hHeap (Unregister cid h) d) \<Longrightarrow> c = d"
      using r(5) by (simp add: f b)
    show "(i, d) \<in> set (publics (hReg (Unregister cid h))) \<longleftrightarrow>
        (i, d) \<in> set (byID (hReg (Unregister cid h))) \<and> cKind (hHeap (Unregister cid h) d) = ClientPublic" for i d
      using r(6) by (auto simp: f b set_delete)
    show "(p, d) \<in> set (byPlayerID (hReg (Unregister cid h))) \<longleftrightarrow>
        (cID (hHeap (Unregister cid h) d), d) \<in> set (byID (hReg (Unregister cid h))) \<and>
        cKind (hHeap (Unregister cid h) d) = ClientPlayer \<and> cPlayerID (hHeap (Unregister cid h) d) = p" for p d
      using r(7) c [of "cID (hHeap h d)" d] by (auto simp: f b set_delete)
    show "cPlayerID (hHeap (Unregister cid h) d) = '''' \<longleftrightarrow> cKind (hHeap (Unregister cid h) d) = ClientPublic" for d
      using r(8) by (simp add: b)
  qed
qed


text \<open>Binding a public client to a player nobody is bound to.\<close>

lemma registry_inv_bind_fresh:
  assumes "registry_inv h" "registered h c" "cPlayerID (hHeap h c) = ''''" "pid \<noteq> ''''" "map_of (byPlayerID (hReg h)) pid = None"
  shows "registry_inv (hub_bindPlayer c pid h)"
proof -
  let ?h = "hub_bindPlayer c pid h"
  note r = registry_invD [OF assms(1)]
  have f: "hHeap ?h = (hHeap h)(c := (hHeap h c)\<lparr>cKind := ClientPlayer, cPlayerID := pid\<rparr>)" "hNext ?h = hNext h"
    "byID (hReg ?h) = byID (hReg h)" "publics (hReg ?h) = AList.delete (cID (hHeap h c)) (publics (hReg h))"
    "byPlayerID (hReg ?h) = AList.update pid c (byPlayerID (hReg h))"
    using assms(5) by (simp_all add: hub_bindPlayer_def registry_bindPlayer_def Let_def)
  have c: "(cID (hHeap h c), c) \<in> set (byID (hReg h))" "cKind (hHeap h c) = ClientPublic" "c < hNext h"
    using assms(2,3) r(4) [of "cID (hHeap h c)" c] r(8) [of c] by (simp_all add: registered_def)
  have same: "(i, d) \<in> set (byID (hReg h)) \<Longrightarrow> i = cID (hHeap h c) \<longleftrightarrow> d = c" for i d
    using r(4) [of i d] r(5) [of d c] c(3) by blast
  have new: "(pid, d) \<notin> set (byPlayerID (hReg h))" "(p, c) \<notin> set (byPlayerID (hReg h))" for p d
    using assms(5) gomap_lookup_iff [OF r(2)] c(2) r(7) by (metis option.distinct(1), metis client_kind.distinct(1))
  show ?thesis
  proof (rule registry_invI)
    show "gomap_ok (byID (hReg ?h))" "gomap_ok (byPlayerID (hReg ?h))" "gomap_ok (publics (hReg ?h))"
      using r(1-3) by (simp_all add: f)
    show "\<And>i d. (i, d) \<in> set (byID (hReg ?h)) \<Longrightarrow> cID (hHeap ?h d) = i \<and> d < hNext ?h"
      using r(4) by (auto simp: f)
    show "\<And>d e. d < hNext ?h \<Longrightarrow> e < hNext ?h \<Longrightarrow> cID (hHeap ?h d) = cID (hHeap ?h e) \<Longrightarrow> d = e"
      using r(5) by (auto simp: f split: if_splits)
    show "(i, d) \<in> set (publics (hReg ?h)) \<longleftrightarrow> (i, d) \<in> set (byID (hReg ?h)) \<and> cKind (hHeap ?h d) = ClientPublic" for i d
      using r(6) same [of i d] by (auto simp: f set_delete)
    show "(p, d) \<in> set (byPlayerID (hReg ?h)) \<longleftrightarrow>
        (cID (hHeap ?h d), d) \<in> set (byID (hReg ?h)) \<and> cKind (hHeap ?h d) = ClientPlayer \<and> cPlayerID (hHeap ?h d) = p" for p d
      using r(2,7) new c by (auto simp: f set_update_gomap)
    show "cPlayerID (hHeap ?h d) = '''' \<longleftrightarrow> cKind (hHeap ?h d) = ClientPublic" for d
      using r(8) assms(4) by (simp add: f)
  qed
qed

text \<open>The last connection wins: the earlier client is unregistered, as if it had left first.\<close>

lemma bind_evicts:
  assumes "registry_inv h" "registered h c" "cPlayerID (hHeap h c) = ''''" "map_of (byPlayerID (hReg h)) pid = Some old"
  shows "hub_bindPlayer c pid h = hub_bindPlayer c pid (Unregister (cID (hHeap h old)) h)"
    "map_of (byPlayerID (hReg (Unregister (cID (hHeap h old)) h))) pid = None" "old \<noteq> c"
proof -
  note r = registry_invD [OF assms(1)]
  have old: "(cID (hHeap h old), old) \<in> set (byID (hReg h))" "cKind (hHeap h old) = ClientPlayer" "cPlayerID (hHeap h old) = pid"
    using r(7) gomap_lookup_iff [OF r(2)] assms(4) by auto
  have kc: "cKind (hHeap h c) = ClientPublic" using assms(3) r(8) by blast
  with old show neq: "old \<noteq> c" by auto
  have ids: "cID (hHeap h old) \<noteq> cID (hHeap h c)"
    using r(4,5) old(1) assms(2) neq unfolding registered_def by metis
  have pid: "pid \<noteq> ''''" using old(2,3) r(8) by (metis client_kind.distinct(1))
  have look: "map_of (byID (hReg h)) (cID (hHeap h old)) = Some old" using gomap_lookup_iff [OF r(1)] old(1) by blast
  have del: "map_of (AList.delete pid (byPlayerID (hReg h))) pid = None" by (simp add: delete_conv')
  then show "map_of (byPlayerID (hReg (Unregister (cID (hHeap h old)) h))) pid = None"
    using look old(3) pid assms(4) by (simp add: Unregister_def registry_remove_def Let_def)
  show "hub_bindPlayer c pid h = hub_bindPlayer c pid (Unregister (cID (hHeap h old)) h)"
    using assms(4) look old(3) pid ids neq del
    by (simp add: hub_bindPlayer_def registry_bindPlayer_def Unregister_def registry_remove_def Let_def
        fun_upd_twist [of c old] delete_twist update_conv')
qed

lemma registry_inv_bind:
  assumes "registry_inv h" "registered h c" "cPlayerID (hHeap h c) = ''''" "pid \<noteq> ''''"
  shows "registry_inv (hub_bindPlayer c pid h)"
proof (cases "map_of (byPlayerID (hReg h)) pid")
  case None
  with registry_inv_bind_fresh [OF assms] show ?thesis .
next
  case (Some old)
  note e = bind_evicts [OF assms(1-3) Some]
  let ?h = "Unregister (cID (hHeap h old)) h"
  note r = registry_invD [OF assms(1)]
  have look: "map_of (byID (hReg h)) (cID (hHeap h old)) = Some old"
    using gomap_lookup_iff [OF r(1)] gomap_lookup_iff [OF r(2)] Some r(7) by blast
  note f = Unregister_fields [OF assms(1) look]
  have "cID (hHeap h old) \<noteq> cID (hHeap h c)"
    using look assms(2) e(3) gomap_lookup_iff [OF r(1)] unfolding registered_def by (metis option.inject)
  then have "registered ?h c" "cPlayerID (hHeap ?h c) = ''''"
    using assms(2,3) f(1) [of c] by (auto simp: registered_def f(3) set_delete badge_eq)
  with registry_inv_bind_fresh [OF registry_inv_Unregister [OF assms(1)] _ _ assms(4) e(2)] show ?thesis
    by (simp add: e(1))
qed


lemma hub_unbind_fields:
  assumes "registry_inv h" "registered h c"
  shows "hHeap (hub_unbind c h) = (hHeap h)(c := (hHeap h c)\<lparr>cPlayerID := '''', cKind := ClientPublic\<rparr>)"
    "hNext (hub_unbind c h) = hNext h" "byID (hReg (hub_unbind c h)) = byID (hReg h)"
    "publics (hReg (hub_unbind c h)) = AList.update (cID (hHeap h c)) c (publics (hReg h))"
    "gomap_ok (byPlayerID (hReg (hub_unbind c h)))"
    "\<And>p d. (p, d) \<in> set (byPlayerID (hReg (hub_unbind c h))) \<longleftrightarrow> (p, d) \<in> set (byPlayerID (hReg h)) \<and> d \<noteq> c"
proof -
  note r = registry_invD [OF assms(1)]
  let ?p = "cPlayerID (hHeap h c)"
  show "hHeap (hub_unbind c h) = (hHeap h)(c := (hHeap h c)\<lparr>cPlayerID := '''', cKind := ClientPublic\<rparr>)"
    "hNext (hub_unbind c h) = hNext h" "byID (hReg (hub_unbind c h)) = byID (hReg h)"
    "publics (hReg (hub_unbind c h)) = AList.update (cID (hHeap h c)) c (publics (hReg h))"
    by (simp_all add: hub_unbind_def registry_unbindPlayer_def Let_def)
  have pl: "byPlayerID (hReg (hub_unbind c h)) =
      (if ?p \<noteq> '''' \<and> map_of (byPlayerID (hReg h)) ?p = Some c then AList.delete ?p (byPlayerID (hReg h)) else byPlayerID (hReg h))"
    by (simp add: hub_unbind_def registry_unbindPlayer_def Let_def)
  then show "gomap_ok (byPlayerID (hReg (hub_unbind c h)))" using r(2) by simp
  fix p d
  note lookup = gomap_lookup_iff [OF r(2)]
  show "(p, d) \<in> set (byPlayerID (hReg (hub_unbind c h))) \<longleftrightarrow> (p, d) \<in> set (byPlayerID (hReg h)) \<and> d \<noteq> c"
  proof (cases "(?p, c) \<in> set (byPlayerID (hReg h))")
    case True
    then have "?p \<noteq> ''''" using r(7) [of ?p c] r(8) [of c] by simp
    moreover have "d = c \<longleftrightarrow> p = ?p" if "(p, d) \<in> set (byPlayerID (hReg h))"
      using that True lookup r(7) by (metis option.inject)
    ultimately show ?thesis using True lookup by (auto simp: pl set_delete)
  next
    case False
    then have "(p, c) \<notin> set (byPlayerID (hReg h))" using r(7) [of p c] r(7) [of ?p c] by blast
    with False lookup show ?thesis by (auto simp: pl)
  qed
qed

lemma registry_inv_unbind:
  assumes "registry_inv h" "registered h c"
  shows "registry_inv (hub_unbind c h)" "registered (hub_unbind c h) d = registered h d"
proof -
  let ?h = "hub_unbind c h"
  note r = registry_invD [OF assms(1)] and f = hub_unbind_fields [OF assms]
  have c: "(cID (hHeap h c), c) \<in> set (byID (hReg h))" "c < hNext h"
    using assms(2) r(4) [of "cID (hHeap h c)" c] by (simp_all add: registered_def)
  have same: "(i, e) \<in> set (byID (hReg h)) \<Longrightarrow> i = cID (hHeap h c) \<longleftrightarrow> e = c" for i e
    using r(4) [of i e] r(5) [of e c] c(2) by blast
  show "registered ?h d = registered h d" by (simp add: registered_def f)
  show "registry_inv ?h"
  proof (rule registry_invI)
    show "gomap_ok (byID (hReg ?h))" "gomap_ok (byPlayerID (hReg ?h))" "gomap_ok (publics (hReg ?h))"
      using r(1,3) f(5) by (simp_all add: f)
    show "\<And>i d. (i, d) \<in> set (byID (hReg ?h)) \<Longrightarrow> cID (hHeap ?h d) = i \<and> d < hNext ?h"
      using r(4) by (auto simp: f)
    show "\<And>d e. d < hNext ?h \<Longrightarrow> e < hNext ?h \<Longrightarrow> cID (hHeap ?h d) = cID (hHeap ?h e) \<Longrightarrow> d = e"
      using r(5) by (auto simp: f split: if_splits)
    show "(i, d) \<in> set (publics (hReg ?h)) \<longleftrightarrow> (i, d) \<in> set (byID (hReg ?h)) \<and> cKind (hHeap ?h d) = ClientPublic" for i d
      using r(3) r(6) [of i d] same [of i d] c(1) by (auto simp: f set_update_gomap)
    show "(p, d) \<in> set (byPlayerID (hReg ?h)) \<longleftrightarrow>
        (cID (hHeap ?h d), d) \<in> set (byID (hReg ?h)) \<and> cKind (hHeap ?h d) = ClientPlayer \<and> cPlayerID (hHeap ?h d) = p" for p d
      using r(7) [of p d] by (auto simp: f)
    show "cPlayerID (hHeap ?h d) = '''' \<longleftrightarrow> cKind (hHeap ?h d) = ClientPublic" for d
      using r(8) by (simp add: f)
  qed
qed

lemma registry_inv_roomClosed:
  assumes "registry_inv h"
  shows "registry_inv (broadcastRoomClosed h)"
proof -
  let ?f = "\<lambda>c h. hub_unbind c (enqueue c RoomClosedMsg h)"
  have "registry_inv (fold ?f cs h)" if "registry_inv h" "\<forall>c\<in>set cs. registered h c" for cs h
    using that
  proof (induction cs arbitrary: h)
    case (Cons c cs)
    have e: "registry_inv (enqueue c RoomClosedMsg h)" "\<And>d. registered (enqueue c RoomClosedMsg h) d = registered h d"
      using Cons.prems registry_inv_calm registered_calm calm_enqueue(1) by blast+
    with Cons registry_inv_unbind [OF e(1)] show ?case by simp
  qed simp
  moreover have "\<forall>c\<in>set (snapshotPlayers (hReg h)). registered h c" if "registry_inv h" for h
    using registry_invD(7) [OF that] by (auto simp: snapshotPlayers_def registered_def)
  ultimately show ?thesis
    using registry_inv_calm [OF calm_enqueue_all(1) assms] by (simp add: broadcastRoomClosed_def Let_def)
qed

lemma registry_inv_Register:
  assumes "registry_inv h" "\<forall>d < hNext h. newClientID bs \<noteq> cID (hHeap h d)"
  shows "registry_inv (fst (Register (Some (bs, now)) h))"
proof (cases "hClosed h")
  case False
  let ?cl = "newClient (hRootDone h) bs now"
  let ?h0 = "h\<lparr>hHeap := (hHeap h)(hNext h := ?cl), hNext := Suc (hNext h)\<rparr>"
  let ?h = "?h0\<lparr>hReg := registry_add (hHeap ?h0) (hNext h) (hReg h)\<rparr>"
  note r = registry_invD [OF assms(1)]
  have cl: "cID ?cl = newClientID bs" "cKind ?cl = ClientPublic" "cPlayerID ?cl = ''''" by (simp_all add: newClient_def)
  have f: "hNext ?h = Suc (hNext h)" "byID (hReg ?h) = AList.update (newClientID bs) (hNext h) (byID (hReg h))"
    "publics (hReg ?h) = AList.update (newClientID bs) (hNext h) (publics (hReg h))"
    "byPlayerID (hReg ?h) = byPlayerID (hReg h)" "hHeap ?h = (hHeap h)(hNext h := ?cl)"
    by (simp_all add: registry_add_def cl Let_def)
  have new: "(i, hNext h) \<notin> set (byID (hReg h))" "(newClientID bs, d) \<notin> set (byID (hReg h))" for i d
    using r(4) [of i "hNext h"] r(4) [of "newClientID bs" d] assms(2) by auto
  have "registry_inv ?h"
  proof (rule registry_invI)
    show "gomap_ok (byID (hReg ?h))" "gomap_ok (byPlayerID (hReg ?h))" "gomap_ok (publics (hReg ?h))"
      using r(1-3) unfolding f by simp_all
    show "\<And>i d. (i, d) \<in> set (byID (hReg ?h)) \<Longrightarrow> cID (hHeap ?h d) = i \<and> d < hNext ?h"
      using r(1,4) new(1) unfolding f by (auto simp: set_update_gomap cl less_Suc_eq)
    show "\<And>d e. d < hNext ?h \<Longrightarrow> e < hNext ?h \<Longrightarrow> cID (hHeap ?h d) = cID (hHeap ?h e) \<Longrightarrow> d = e"
      using r(5) assms(2) unfolding f by (auto simp: cl less_Suc_eq split: if_splits)
    show "(i, d) \<in> set (publics (hReg ?h)) \<longleftrightarrow> (i, d) \<in> set (byID (hReg ?h)) \<and> cKind (hHeap ?h d) = ClientPublic" for i d
      using r(1,3) r(6) [of i d] new unfolding f by (auto simp: set_update_gomap cl)
    show "(p, d) \<in> set (byPlayerID (hReg ?h)) \<longleftrightarrow>
        (cID (hHeap ?h d), d) \<in> set (byID (hReg ?h)) \<and> cKind (hHeap ?h d) = ClientPlayer \<and> cPlayerID (hHeap ?h d) = p" for p d
      using r(1) r(7) [of p d] new unfolding f by (auto simp: set_update_gomap cl)
    show "cPlayerID (hHeap ?h d) = '''' \<longleftrightarrow> cKind (hHeap ?h d) = ClientPublic" for d
      using r(8) unfolding f by (simp add: cl)
  qed
  then have "registry_inv (pushRoomState (hNext h) snap (enqueue (hNext h) msg ?h))" for snap msg
    by (rule registry_inv_calm [OF calm_trans [OF calm_enqueue(1) calm_pushRoomState(1)]])
  with False show ?thesis by (simp add: Register_def Let_def)
qed (simp add: Register_def assms(1))

lemma registry_inv_Close:
  assumes "registry_inv h"
  shows "registry_inv (CloseHub h)"
proof -
  have "registry_inv (fold (\<lambda>c h. Unregister (cID (hHeap h c)) h) cs h)" if "registry_inv h" for cs h
    using that by (induction cs arbitrary: h) (simp_all add: registry_inv_Unregister)
  moreover have "registry_inv (h\<lparr>hClosed := True\<rparr>)" "registry_inv (h\<lparr>hClosed := True, hMgr := m, hUnsub := u\<rparr>)" for m u
    using assms by (simp_all add: registry_inv_def)
  moreover have "registry_inv (h\<lparr>hRootDone := True, hHeap := \<lambda>c. (hHeap h c)\<lparr>cDone := True\<rparr>\<rparr>)" if "registry_inv h" for h
    using that by (simp add: registry_inv_def)
  ultimately show ?thesis using assms by (simp add: CloseHub_def Let_def split: option.split)
qed


section \<open>The seat is left alone by everything but claiming and releasing it\<close>

lemma pad_seat: "mHostAuth (fst (persistAndDispatch st envs m)) = mHostAuth m"
  using pad_frame(1) [of st envs m] by (simp add: roster_def)

lemma issue_seat: "mHostAuth (fst (issueUniqueToken m)) = mHostAuth m"
  using issue_loop_rand [of tokenAttempts m] by (auto simp: issueUniqueToken_def)

lemma add_member_seat: "mHostAuth (fst (add_member pid name tok b m)) = mHostAuth m"
  by (simp add: add_member_def clock_now_def on_sess_def pad_seat split_beta Let_def)

lemma seat_submit: "mHostAuth (fst (SubmitAction lib a m)) = mHostAuth m"
  by (simp add: SubmitAction_def pad_seat split_beta Let_def split: prod.split sum.split)

lemma seat_tick: "mHostAuth (SessionTick lib now m) = mHostAuth m"
  by (simp add: SessionTick_def pad_seat split: prod.split sum.split)

lemma seat_start_engine: "mHostAuth (fst (start_engine lib host opts m)) = mHostAuth m"
  by (simp add: start_engine_def pad_seat on_sess_def split_beta Let_def split: prod.split sum.split)

lemma seat_lobby:
  "mHostAuth (fst (JoinPlayer name m)) = mHostAuth m" "mHostAuth (fst (CreateSession name m)) = mHostAuth m"
  "mHostAuth (fst (ResumePlayer tok m)) = mHostAuth m"
  using issue_seat [of "snd (newID m)"]
  by (simp_all add: JoinPlayer_def CreateSession_def ResumePlayer_def add_member_seat on_sess_def newID_def split_beta Let_def
      split: sum.split option.split)

lemma seat_open: "mHostAuth (fst (OpenRoom seat opts m)) = mHostAuth m"
  by (cases "Verify seat (mHostAuth m)") (simp_all add: OpenRoom_def pad_seat on_sess_def newID_def split_beta Let_def)

lemma seat_start: "mHostAuth (fst (HostStartGame lib seat m)) = mHostAuth m"
  "mHostAuth (fst (StartGameSession lib host opts m)) = mHostAuth m"
  by (cases "Verify seat (mHostAuth m)")
     (simp_all add: HostStartGame_def StartGameSession_def seat_start_engine)

lemma seat_force: "mHostAuth (fst (HostForceTerminate lib seat m)) = mHostAuth m"
  by (cases "Verify seat (mHostAuth m)")
     (simp_all add: HostForceTerminate_def pad_seat split_beta Let_def split: prod.split sum.split)

lemma seat_close: "mHostAuth (fst (HostCloseRoom seat m)) = mHostAuth m"
  by (cases "Verify seat (mHostAuth m)") (simp_all add: HostCloseRoom_def Restore_def)

lemma seat_save: "mHostAuth (fst (SaveHostOptions seat opts m)) = mHostAuth m"
  by (cases "Verify seat (mHostAuth m)"; cases "validateSavedHostOptions opts") (simp_all add: SaveHostOptions_def)

lemmas seat_frame = seat_submit seat_tick seat_lobby seat_open seat_start seat_force seat_close seat_save

section \<open>The steps of the hub are steps of the manager\<close>

definition gentle :: "'r rand_lib \<Rightarrow> hub \<Rightarrow> hub \<Rightarrow> bool" where
  "gentle lib h h' \<longleftrightarrow> calm h h' \<and> (manager_step lib)\<^sup>*\<^sup>* (hMgr h) (hMgr h') \<and> mHostAuth (hMgr h') = mHostAuth (hMgr h)"

lemma gentle_refl [simp]: "gentle lib h h" by (simp add: gentle_def)

lemma gentle_calm: "gentle lib h h' \<Longrightarrow> calm h' h'' \<Longrightarrow> hMgr h'' = hMgr h' \<Longrightarrow> gentle lib h h''"
  by (auto simp: gentle_def intro: calm_trans)

lemma gentle_with_mgr:
  assumes "manager_step lib (hMgr h) (fst (f (hMgr h)))" "mHostAuth (fst (f (hMgr h))) = mHostAuth (hMgr h)"
  shows "gentle lib h (fst (with_mgr f h))"
  using assms by (simp add: gentle_def calm_with_mgr)

lemma gentle_submitErr: "gentle lib h h' \<Longrightarrow> gentle lib h (handleSubmitErr c err h')"
  by (rule gentle_calm) (simp_all add: calm_submitErr)

lemma gentle_badPayload: "gentle lib h (badPayload c h)" "gentle lib h (sendError c code msg h)"
  by (simp_all add: badPayload_def gentle_calm [OF gentle_refl] calm_sendError)

lemma gentle_submit: "gentle lib h (submit lib c a h)"
  by (simp add: submit_def split_beta Let_def gentle_submitErr gentle_with_mgr manager_step.submit seat_frame)

lemma gentle_submit_target: "gentle lib h (submit_target lib c mk raw h)"
  by (simp add: submit_target_def gentle_submit gentle_badPayload split: option.split)


section \<open>The invariant of the hub\<close>

text \<open>At most one connection holds the seat, it holds the current token, and the seat is taken only then.\<close>

definition seat_inv :: "hub \<Rightarrow> bool" where
  "seat_inv h \<longleftrightarrow>
     (\<exists>owner. (\<forall>c. cHostToken (hHeap h c) = (if owner = Some c then mHostAuth (hMgr h) else '''')) \<and>
        (owner = None \<longrightarrow> mHostAuth (hMgr h) = '''') \<and> (\<forall>c. owner = Some c \<longrightarrow> c < hNext h))"

definition hub_inv :: "'r rand_lib \<Rightarrow> hub \<Rightarrow> bool" where
  "hub_inv lib h \<longleftrightarrow> registry_inv h \<and> bounded_queues h \<and> seat_inv h \<and> manager_inv lib (hMgr h)"

lemma manager_inv_steps: "(manager_step lib)\<^sup>*\<^sup>* m m' \<Longrightarrow> manager_inv lib m \<Longrightarrow> manager_inv lib m'"
  by (induction rule: rtranclp_induct) (auto dest: manager_step_kept simp: kept_def)

lemma seat_same:
  assumes "\<And>c. cHostToken (hHeap h' c) = cHostToken (hHeap h c)" "hNext h' = hNext h" "mHostAuth (hMgr h') = mHostAuth (hMgr h)"
  shows "seat_inv h' = seat_inv h"
  unfolding seat_inv_def assms ..

lemma seat_calm: "calm h h' \<Longrightarrow> mHostAuth (hMgr h') = mHostAuth (hMgr h) \<Longrightarrow> seat_inv h' = seat_inv h"
  by (rule seat_same) (simp_all add: calm_def badge_eq)

lemma hub_inv_gentle:
  assumes "gentle lib h h'" "hub_inv lib h"
  shows "hub_inv lib h'"
proof -
  have g: "calm h h'" "(manager_step lib)\<^sup>*\<^sup>* (hMgr h) (hMgr h')" "mHostAuth (hMgr h') = mHostAuth (hMgr h)"
    using assms(1) by (simp_all add: gentle_def)
  then have "bounded_queues h \<Longrightarrow> bounded_queues h'" by (simp add: calm_def)
  with assms(2) registry_inv_calm [OF g(1)] manager_inv_steps [OF g(2)] seat_calm [OF g(1,3)] show ?thesis
    by (simp add: hub_inv_def)
qed

text \<open>Operations that change the registry but neither the tokens nor the manager.\<close>

definition rebinding :: "hub \<Rightarrow> hub \<Rightarrow> bool" where
  "rebinding h h' \<longleftrightarrow> (\<forall>c. cHostToken (hHeap h' c) = cHostToken (hHeap h c) \<and> cOut (hHeap h' c) = cOut (hHeap h c)) \<and>
     hNext h' = hNext h \<and> hMgr h' = hMgr h"

lemma rebinding_trans: "rebinding h h' \<Longrightarrow> rebinding h' h'' \<Longrightarrow> rebinding h h''"
  by (simp add: rebinding_def)

lemma rebinding_Unregister: "rebinding h (Unregister cid h)"
  by (auto simp: rebinding_def Unregister_def split: prod.split option.split)

lemma rebinding_bind: "rebinding h (hub_bindPlayer c pid h)"
proof -
  have "rebinding h (h\<lparr>hHeap := (hHeap h)(c := (hHeap h c)\<lparr>cKind := ClientPlayer, cPlayerID := pid\<rparr>), hReg := r\<rparr>)" for r
    by (simp add: rebinding_def)
  from this rebinding_trans [OF this rebinding_Unregister] show ?thesis
    by (simp add: hub_bindPlayer_def registry_bindPlayer_def Let_def split: option.split)
qed

lemma rebinding_unbind: "rebinding h (hub_unbind c h)"
  by (simp add: rebinding_def hub_unbind_def registry_unbindPlayer_def Let_def)

lemma rebinding_keeps: "rebinding h h' \<Longrightarrow> seat_inv h' = seat_inv h" "rebinding h h' \<Longrightarrow> bounded_queues h' = bounded_queues h"
  by (rule seat_same) (simp_all add: rebinding_def bounded_queues_def)

lemma hub_inv_rebinding: "rebinding h h' \<Longrightarrow> hub_inv lib h \<Longrightarrow> registry_inv h' \<Longrightarrow> hub_inv lib h'"
  using rebinding_keeps by (auto simp: hub_inv_def rebinding_def)

lemma hub_inv_enqueue: "hub_inv lib h \<Longrightarrow> hub_inv lib (enqueue c msg h)"
  by (rule hub_inv_gentle [OF gentle_calm [OF gentle_refl calm_enqueue]])

lemma hub_inv_roomClosed:
  assumes "hub_inv lib h"
  shows "hub_inv lib (broadcastRoomClosed h) \<and> hMgr (broadcastRoomClosed h) = hMgr h"
proof -
  let ?f = "\<lambda>c h. hub_unbind c (enqueue c RoomClosedMsg h)"
  have m: "hMgr (fold ?f cs h) = hMgr h" for cs h
  proof (induction cs arbitrary: h)
    case (Cons c cs)
    have "hMgr (?f c h) = hMgr h" using rebinding_unbind by (simp add: rebinding_def calm_enqueue)
    with Cons show ?case by simp
  qed simp
  have "bounded_queues (fold ?f cs h) \<and> seat_inv (fold ?f cs h)" if "bounded_queues h" "seat_inv h" for cs h
    using that
  proof (induction cs arbitrary: h)
    case (Cons c cs)
    have "bounded_queues (enqueue c RoomClosedMsg h)" "seat_inv (enqueue c RoomClosedMsg h)"
      using Cons.prems calm_enqueue(1) [where c = c and msg = RoomClosedMsg and h = h]
        seat_calm [OF calm_enqueue(1) arg_cong [OF calm_enqueue(2), of mHostAuth]]
      by (simp_all add: calm_def)
    then have "bounded_queues (?f c h)" "seat_inv (?f c h)"
      using rebinding_keeps [OF rebinding_unbind] by blast+
    with Cons.IH show ?case by simp
  qed simp
  moreover have "hub_inv lib (enqueue_all cs msg h)" "hMgr (enqueue_all cs msg h) = hMgr h" for cs msg
    using hub_inv_gentle [OF gentle_calm [OF gentle_refl calm_enqueue_all] assms] by (simp_all add: calm_enqueue_all)
  ultimately show ?thesis
    using registry_inv_roomClosed [of h] assms m by (simp add: hub_inv_def broadcastRoomClosed_def Let_def)
qed


section \<open>The handlers\<close>

lemma jr_playerID:
  assumes "manager_inv lib m" "new_id_ok m"
  shows "snd (JoinPlayer name m) = Inr jr \<Longrightarrow> jrPlayerID jr \<noteq> ''''"
    "snd (CreateSession name m) = Inr jr \<Longrightarrow> jrPlayerID jr \<noteq> ''''"
    "snd (ResumePlayer tok m) = Inr jr \<Longrightarrow> jrPlayerID jr \<noteq> ''''"
proof -
  have id: "hex_encode (mIds m 0) \<noteq> ''''" using assms(2) hex_encode_nonempty by (simp add: new_id_ok_def)
  show "snd (JoinPlayer name m) = Inr jr \<Longrightarrow> jrPlayerID jr \<noteq> ''''"
    "snd (CreateSession name m) = Inr jr \<Longrightarrow> jrPlayerID jr \<noteq> ''''"
    using id by (auto simp: JoinPlayer_def CreateSession_def add_member_def bare_join_def newID_def split_beta Let_def
        split: if_splits sum.splits)
  have "mbID mb \<noteq> ''''" if "(k, mb) \<in> set (sMembers (mSess m))" for k mb
    using assms(1) that by (auto simp: manager_inv_def members_ok_def Let_def)
  then show "snd (ResumePlayer tok m) = Inr jr \<Longrightarrow> jrPlayerID jr \<noteq> ''''"
    by (auto simp: ResumePlayer_def Let_def split: if_splits option.splits dest!: find_Some_in)
qed

lemma hub_inv_respondJoin:
  assumes "hub_inv lib h" "registered h c" "cPlayerID (hHeap h c) = ''''" "\<And>jr. res = Inr jr \<Longrightarrow> jrPlayerID jr \<noteq> ''''"
  shows "hub_inv lib (respondJoin c res h)" "hMgr (respondJoin c res h) = hMgr h"
proof -
  have "hub_inv lib (handleSubmitErr c err h)" for err
    using hub_inv_gentle [OF gentle_submitErr [OF gentle_refl] assms(1)] .
  moreover have "hub_inv lib (hub_bindPlayer c (jrPlayerID jr) h)" if "res = Inr jr" for jr
    using hub_inv_rebinding [OF rebinding_bind assms(1)] registry_inv_bind [OF _ assms(2,3) assms(4) [OF that]] assms(1)
    by (simp add: hub_inv_def)
  ultimately show "hub_inv lib (respondJoin c res h)"
    by (simp add: respondJoin_def hub_inv_enqueue Let_def split: sum.split)
  show "hMgr (respondJoin c res h) = hMgr h"
    using rebinding_bind by (simp add: respondJoin_def calm_enqueue calm_submitErr Let_def rebinding_def split: sum.split)
qed

text \<open>The three messages that bind a client to a player.\<close>

definition binding_msg :: "string \<Rightarrow> bool" where
  "binding_msg typ \<longleftrightarrow> map_of type_strings typ \<in> {Some TypeHostCreateSession, Some TypeJoin, Some TypeResume}"

definition run_inv :: "'r rand_lib \<Rightarrow> hub \<Rightarrow> hub \<Rightarrow> bool" where
  "run_inv lib h h' \<longleftrightarrow> hub_inv lib h' \<and> (manager_step lib)\<^sup>*\<^sup>* (hMgr h) (hMgr h')"

lemma run_inv_gentle: "hub_inv lib h \<Longrightarrow> gentle lib h h' \<Longrightarrow> run_inv lib h h'"
  using hub_inv_gentle by (auto simp: run_inv_def gentle_def)

lemma run_inv_join:
  assumes "hub_inv lib h" "registered h c" "cPlayerID (hHeap h c) = ''''"
    "manager_step lib (hMgr h) (fst (f (hMgr h)))" "mHostAuth (fst (f (hMgr h))) = mHostAuth (hMgr h)"
    "\<And>jr. snd (f (hMgr h)) = Inr jr \<Longrightarrow> jrPlayerID jr \<noteq> ''''"
  shows "run_inv lib h (respondJoin c (snd (with_mgr f h)) (fst (with_mgr f h)))"
proof -
  note g = gentle_with_mgr [of lib h f, OF assms(4,5)]
  let ?h = "fst (with_mgr f h)"
  have c: "calm h ?h" using g by (simp add: gentle_def)
  have "registered ?h c" "cPlayerID (hHeap ?h c) = ''''"
    using registered_calm [OF c] assms(2,3) c by (simp_all add: calm_def badge_eq)
  from hub_inv_respondJoin [OF hub_inv_gentle [OF g assms(1)] this] assms(6) g show ?thesis
    by (simp add: run_inv_def gentle_def calm_with_mgr)
qed

lemma run_inv_claim:
  assumes "hub_inv lib h" "c < hNext h" "b \<noteq> Some []"
  shows "run_inv lib h (case with_mgr (ClaimHost b) h of
      (h, Inl err) \<Rightarrow> enqueue c RoomHostOccupiedMsg h
    | (h, Inr token) \<Rightarrow> enqueue c (HostTokenMsg token) (h\<lparr>hHeap := (hHeap h)(c := (hHeap h c)\<lparr>cHostToken := token\<rparr>)\<rparr>))"
proof -
  obtain h1 res where w: "with_mgr (ClaimHost b) h = (h1, res)" by fastforce
  have h1: "calm h h1" "hMgr h1 = fst (ClaimHost b (hMgr h))" "res = snd (ClaimHost b (hMgr h))"
    using calm_with_mgr [where f = "ClaimHost b" and h = h] by (simp_all add: w)
  have steps: "(manager_step lib)\<^sup>*\<^sup>* (hMgr h) (hMgr h1)" using h1(2) manager_step.claim by auto
  show ?thesis
  proof (cases res)
    case (Inl err)
    then have "mHostAuth (hMgr h1) = mHostAuth (hMgr h)"
      using h1(2,3) seat.claim_err [of b "mHostAuth (hMgr h)"] by (auto simp: ClaimHost_def split_beta Let_def) (metis prod.collapse)
    then have "gentle lib h h1" using h1(1) steps by (simp add: gentle_def)
    with run_inv_gentle [OF assms(1) gentle_calm [OF this calm_enqueue]] Inl show ?thesis by (simp add: w)
  next
    case (Inr token)
    let ?h = "h1\<lparr>hHeap := (hHeap h1)(c := (hHeap h1 c)\<lparr>cHostToken := token\<rparr>)\<rparr>"
    have t: "mHostAuth (hMgr h) = ''''" "mHostAuth (hMgr h1) = token" "token \<noteq> ''''"
      using Inr h1(2,3) assms(3) hex_encode_nonempty
      by (auto simp: ClaimHost_def Claim_def split_beta Let_def split: if_splits option.splits)
    have "cHostToken (hHeap h d) = ''''" for d
      using assms(1) t(1) by (auto simp: hub_inv_def seat_inv_def split: if_splits)
    then have "cHostToken (hHeap h1 d) = ''''" for d using h1(1) by (simp add: calm_def badge_eq)
    then have "seat_inv ?h"
      unfolding seat_inv_def using t assms(2) h1(1) by (intro exI [of _ "Some c"]) (auto simp: calm_def)
    moreover have "registry_inv h1" "bounded_queues h1"
      using assms(1) registry_inv_calm [OF h1(1)] h1(1) by (simp_all add: hub_inv_def calm_def)
    then have "registry_inv ?h" "bounded_queues ?h"
      using registry_same [of ?h h1] by (simp_all add: bounded_queues_def)
    moreover have "manager_inv lib (hMgr h1)"
      using manager_inv_steps [OF steps] assms(1) by (simp add: hub_inv_def)
    ultimately have "hub_inv lib ?h" by (simp add: hub_inv_def)
    with steps hub_inv_enqueue [of lib ?h] Inr show ?thesis by (simp add: w run_inv_def calm_enqueue)
  qed
qed


lemma gentle_host_ops:
  "gentle lib h (let (h, res) = with_mgr (HostStartGame lib seat) h in handleSubmitErr c (err_of res) h)"
  "gentle lib h (let (h, res) = with_mgr (HostForceTerminate lib seat) h in handleSubmitErr c (err_of res) h)"
  "gentle lib h (let (h, err) = with_mgr (SaveHostOptions seat opts) h in handleSubmitErr c err h)"
  "options_in_range opts \<Longrightarrow>
   gentle lib h (let (h, res) = with_mgr (StartGameSession lib me opts) h in handleSubmitErr c (err_of res) h)"
  by (simp_all add: split_beta Let_def gentle_submitErr gentle_with_mgr seat_frame
      manager_step.host_start manager_step.force manager_step.save_options manager_step.start)

lemma gentle_open:
  assumes "options_in_range opts"
  shows "gentle lib h (case with_mgr (OpenRoom seat opts) h of
      (h, Inl err) \<Rightarrow> handleSubmitErr c (Some err) h
    | (h, Inr st) \<Rightarrow> broadcastRoomOpened opts h)"
proof -
  have "gentle lib h (fst (with_mgr (OpenRoom seat opts) h))"
    by (rule gentle_with_mgr) (simp_all add: seat_frame manager_step.open_room assms)
  from gentle_submitErr [OF this] gentle_calm [OF this calm_roomOpened] show ?thesis
    by (auto split: prod.split sum.split)
qed

lemma run_inv_close:
  assumes "hub_inv lib h"
  shows "run_inv lib h (case with_mgr (HostCloseRoom seat) h of
      (h, Some err) \<Rightarrow> handleSubmitErr c (Some err) h
    | (h, None) \<Rightarrow> broadcastRoomClosed h)"
proof -
  let ?h = "fst (with_mgr (HostCloseRoom seat) h)"
  have g: "gentle lib h ?h"
    by (rule gentle_with_mgr) (simp_all add: seat_frame manager_step.close_room)
  have "run_inv lib h (broadcastRoomClosed ?h)"
    using hub_inv_roomClosed [OF hub_inv_gentle [OF g assms]] g by (simp add: run_inv_def gentle_def)
  moreover have "run_inv lib h (handleSubmitErr c err ?h)" for err
    by (rule run_inv_gentle [OF assms gentle_submitErr [OF g]])
  ultimately show ?thesis by (auto split: prod.split option.split)
qed

lemma run_inv_enqueue: "run_inv lib h h' \<Longrightarrow> run_inv lib h (enqueue c msg h')"
  by (simp add: run_inv_def hub_inv_enqueue calm_enqueue)

lemma handleIncoming_inv:
  assumes "hub_inv lib h" "registered h c" "binding_msg typ \<longrightarrow> cPlayerID (hHeap h c) = ''''" "new_id_ok (hMgr h)" "b \<noteq> Some []"
  shows "run_inv lib h (handleIncoming lib b c typ raw h)"
proof -
  have m: "manager_inv lib (hMgr h)" and c: "c < hNext h"
    using assms(1,2) registry_invD(4) [of h "cID (hHeap h c)" c] by (simp_all add: hub_inv_def registered_def)
  note jr = jr_playerID [OF m assms(4)]
  note quiet = run_inv_gentle [OF assms(1)]
  note common = quiet [OF gentle_submit] quiet [OF gentle_submit_target] quiet [OF gentle_badPayload(1)]
    quiet [OF gentle_badPayload(2)] quiet [OF gentle_refl]
  have join: "run_inv lib h (respondJoin c (snd (with_mgr f h)) (fst (with_mgr f h)))"
    if "cPlayerID (hHeap h c) = ''''" "f = JoinPlayer name \<or> f = CreateSession name \<or> f = ResumePlayer name" for f name
    using that(2) jr
    by (intro run_inv_join [OF assms(1,2) that(1)])
       (auto simp: seat_frame manager_step.resume intro: manager_step.join manager_step.create assms(4))
  show ?thesis
  proof (cases "map_of type_strings typ")
    case None
    with common show ?thesis by (simp add: handleIncoming_def)
  next
    case (Some t)
    have bind: "cPlayerID (hHeap h c) = ''''" if "t \<in> {TypeHostCreateSession, TypeJoin, TypeResume}"
      using that assms(3) Some by (auto simp: binding_msg_def)
    note opts = optionsPayload_range
    note defs = handleIncoming_def host_close_room_def host_save_options_def Some Let_def
    show ?thesis
    proof (cases t)
      case TypeHostCreateSession
      with bind join common show ?thesis by (auto simp: defs split_beta split: option.split)
    next
      case TypeJoin
      with bind join common show ?thesis by (auto simp: defs split_beta split: option.split)
    next
      case TypeResume
      show ?thesis
      proof (cases "resumePayload raw")
        case None
        with TypeResume common show ?thesis by (simp add: defs)
      next
        case (Some p)
        obtain h1 res where w: "with_mgr (ResumePlayer (rpToken p)) h = (h1, res)" by fastforce
        have "run_inv lib h (respondJoin c res h1)"
          using join [OF bind, of "ResumePlayer (rpToken p)" "rpToken p"] TypeResume by (simp add: w)
        with run_inv_enqueue [OF this] Some TypeResume show ?thesis
          by (cases res) (simp_all add: defs w)
      qed
    next
      case TypeHostStart
      with common quiet [OF gentle_host_ops(4) [OF opts]] show ?thesis by (simp add: defs split: option.split)
    next
      case TypeHostClaim
      with run_inv_claim [OF assms(1) c assms(5)] show ?thesis by (simp add: defs)
    next
      case TypeHostOpenRoom
      with common quiet [OF gentle_open [OF opts]] show ?thesis by (simp add: defs split: option.split)
    next
      case TypeHostCloseRoom
      with run_inv_close [OF assms(1)] show ?thesis by (simp add: defs)
    next
      case TypeHostSaveOptions
      with common quiet [OF gentle_host_ops(3)] show ?thesis by (simp add: defs split: option.split)
    next
      case TypeHostStartRoom
      with quiet [OF gentle_host_ops(1)] show ?thesis by (simp add: defs)
    next
      case TypeHostTerminateRoom
      with quiet [OF gentle_host_ops(2)] show ?thesis by (simp add: defs)
    qed (use common in \<open>simp_all add: defs split: option.split\<close>)
  qed
qed

end
