(* ===== verification/Network.thy ===== *)
theory Network
  imports HubInv
begin

text \<open>
  The hub as a transition system: connections arrive, send messages, hang up and are written to, the
  clock ticks, the server shuts down. Every run keeps the invariant of the hub and is, for the
  session manager, a run of its own transition system; the routing of events and the host's
  seat are stated over the reachable hubs.
\<close>

section \<open>The runs of the hub\<close>

text \<open>
  A read message is handled while the client is registered. A client that is bound to a player does
  not ask to be bound again: the registry is not prepared for that (see \<open>second_join_corrupts_index\<close>).
\<close>

definition clean_read :: "json option \<Rightarrow> ref \<Rightarrow> hub \<Rightarrow> bool" where
  "clean_read raw c h \<longleftrightarrow> registered h c \<and> new_id_ok (hMgr h) \<and>
     (case incomingEnvelope raw of None \<Rightarrow> True | Some typ \<Rightarrow> binding_msg typ \<longrightarrow> cPlayerID (hHeap h c) = '''')"

inductive hub_step :: "'r rand_lib \<Rightarrow> hub \<Rightarrow> hub \<Rightarrow> bool" for lib where
  connect: "\<forall>d < hNext h. newClientID bs \<noteq> cID (hHeap h d) \<Longrightarrow> hub_step lib h (fst (Register (Some (bs, now)) h))"
| read: "clean_read raw c h \<Longrightarrow> b \<noteq> Some [] \<Longrightarrow> hub_step lib h (read_step lib b c raw h)"
| hang_up: "c < hNext h \<Longrightarrow> hub_step lib h (read_end c h)"
| flush: "hub_step lib h (write_step ch c h)"
| spawned: "hub_step lib h (spawned_step i h)"
| tick: "hub_step lib h (tick_step lib now h)"
| shutdown: "hub_step lib h (CloseHub h)"

inductive_cases hub_stepE: "hub_step lib h h'"

lemma read_step_inv:
  assumes "hub_inv lib h" "clean_read raw c h" "b \<noteq> Some []"
  shows "run_inv lib h (read_step lib b c raw h)"
proof (cases "incomingEnvelope raw")
  case None
  with run_inv_gentle [OF assms(1) gentle_badPayload(2)] show ?thesis by (simp add: read_step_def)
next
  case (Some t)
  with assms(2,3) handleIncoming_inv [OF assms(1), of c t b raw] run_inv_gentle [OF assms(1) gentle_badPayload(2)]
  show ?thesis by (auto simp: read_step_def clean_read_def)
qed

lemma Unregister_inv: "hub_inv lib h \<Longrightarrow> hub_inv lib (Unregister cid h)" "hMgr (Unregister cid h) = hMgr h"
proof -
  show "hMgr (Unregister cid h) = hMgr h" using rebinding_Unregister [of h cid] by (simp add: rebinding_def)
  show "hub_inv lib (Unregister cid h)" if "hub_inv lib h"
    using hub_inv_rebinding [OF rebinding_Unregister that] registry_inv_Unregister that by (simp add: hub_inv_def)
qed

lemma hub_inv_same:
  assumes "hReg h' = hReg h" "hNext h' = hNext h" "hMgr h' = hMgr h" "\<And>c. badge (hHeap h' c) = badge (hHeap h c)"
    "\<And>c. cOut (hHeap h' c) = cOut (hHeap h c)" "hub_inv lib h"
  shows "hub_inv lib h'"
proof (rule hub_inv_rebinding [OF _ assms(6)])
  show "rebinding h h'" using assms by (simp add: rebinding_def badge_eq)
  show "registry_inv h'" using registry_same [of h' h] assms by (simp add: badge_eq hub_inv_def)
qed

lemma write_step_calm: "calm h (write_step ch c h)" "hMgr (write_step ch c h) = hMgr h"
  by (auto simp: calm_def write_step_def badge_def bounded_queues_def Let_def split: write_choice.split list.split)
     (metis Suc_leD length_Cons)+

lemma tick_step_inv: "hub_inv lib h \<Longrightarrow> run_inv lib h (tick_step lib now h)"
  unfolding tick_step_def
  by (rule run_inv_gentle [OF _ gentle_with_mgr]) (simp_all add: seat_frame manager_step.tick)

lemma spawned_step_inv:
  assumes "hub_inv lib h"
  shows "run_inv lib h (spawned_step i h)"
proof -
  have "hub_inv lib (h\<lparr>hSpawned := xs\<rparr>)" for xs
    by (rule hub_inv_same [OF _ _ _ _ _ assms]) simp_all
  from Unregister_inv(1) [OF this] show ?thesis
    using assms by (simp add: spawned_step_def run_inv_def Unregister_inv(2))
qed

lemma Register_inv:
  assumes "hub_inv lib h" "\<forall>d < hNext h. newClientID bs \<noteq> cID (hHeap h d)"
  shows "run_inv lib h (fst (Register (Some (bs, now)) h))"
proof (cases "hClosed h")
  case False
  let ?cl = "newClient (hRootDone h) bs now"
  have s: "seat_inv (h\<lparr>hHeap := (hHeap h)(hNext h := ?cl), hNext := Suc (hNext h), hReg := r\<rparr>)" for r
  proof -
    from assms(1) obtain owner where o: "\<forall>c. cHostToken (hHeap h c) = (if owner = Some c then mHostAuth (hMgr h) else '''')"
      "owner = None \<longrightarrow> mHostAuth (hMgr h) = ''''" "\<forall>c. owner = Some c \<longrightarrow> c < hNext h"
      unfolding hub_inv_def seat_inv_def by blast
    then show ?thesis unfolding seat_inv_def by (intro exI [of _ owner]) (auto simp: newClient_def less_Suc_eq)
  qed
  have b: "bounded_queues (h\<lparr>hHeap := (hHeap h)(hNext h := ?cl), hNext := Suc (hNext h), hReg := r\<rparr>)" for r
    using assms(1) by (auto simp: hub_inv_def bounded_queues_def newClient_def)
  have c: "calm h1 (pushRoomState (hNext h) snap (enqueue (hNext h) msg h1))"
    "hMgr (pushRoomState (hNext h) snap (enqueue (hNext h) msg h1)) = hMgr h1" for h1 snap msg
    by (rule calm_trans [OF calm_enqueue(1) calm_pushRoomState(1)]) (simp add: calm_enqueue calm_pushRoomState)
  have "bounded_queues (fst (Register (Some (bs, now)) h)) \<and> seat_inv (fst (Register (Some (bs, now)) h)) \<and>
      hMgr (fst (Register (Some (bs, now)) h)) = hMgr h"
    using False s b c(1) seat_calm [OF c(1)]
    by (simp add: Register_def Let_def c(2)) (simp add: calm_def)
  with registry_inv_Register [of h bs now] assms show ?thesis by (simp add: run_inv_def hub_inv_def)
qed (simp add: Register_def run_inv_def assms(1))

lemma read_end_inv:
  assumes "hub_inv lib h" "c < hNext h"
  shows "run_inv lib h (read_end c h)"
proof (cases "cHostToken (hHeap h c) = ''''")
  case True
  with assms Unregister_inv show ?thesis by (simp add: read_end_def run_inv_def)
next
  case False
  let ?tok = "cHostToken (hHeap h c)"
  let ?h1 = "fst (with_mgr (\<lambda>m. (ReleaseHost ?tok m, ())) h)"
  let ?h2 = "?h1\<lparr>hHeap := (hHeap ?h1)(c := (hHeap ?h1 c)\<lparr>cHostToken := ''''\<rparr>)\<rparr>"
  note w = calm_with_mgr [where f = "\<lambda>m. (ReleaseHost ?tok m, ())" and h = h]
  have tok: "?tok = mHostAuth (hMgr h)" "d \<noteq> c \<Longrightarrow> cHostToken (hHeap h d) = ''''" for d
    using assms(1) False by (auto simp: hub_inv_def seat_inv_def split: if_splits)
  have same: "cHostToken (hHeap ?h1 d) = cHostToken (hHeap h d)" for d using w(1) by (simp add: calm_def badge_eq)
  have "cHostToken (hHeap ?h2 d) = ''''" for d
    using tok(2) [of d] same [of d] by simp
  moreover have free: "mHostAuth (hMgr ?h2) = ''''"
    using False by (simp add: w(2)) (simp add: ReleaseHost_def Release_def tok(1))
  ultimately have "seat_inv ?h2" unfolding seat_inv_def by (intro exI [of _ None]) auto
  moreover have steps: "(manager_step lib)\<^sup>*\<^sup>* (hMgr h) (hMgr ?h2)"
    by (simp add: w(2) manager_step.release r_into_rtranclp)
  moreover have "registry_inv ?h2" "bounded_queues ?h2"
    using registry_inv_calm [OF w(1)] w(1) assms(1) registry_same [of ?h2 ?h1]
    by (simp_all add: hub_inv_def calm_def bounded_queues_def)
  ultimately have "hub_inv lib ?h2" using manager_inv_steps [OF steps] assms(1) by (simp add: hub_inv_def)
  from Unregister_inv(1) [OF this] steps False show ?thesis
    by (simp add: read_end_def run_inv_def Unregister_inv(2) Let_def)
qed

lemma Unregister_gone: "registry_inv h \<Longrightarrow> cID (hHeap h c) = cid \<Longrightarrow> \<not> registered (Unregister cid h) c"
proof (cases "map_of (byID (hReg h)) cid")
  case None
  assume "cID (hHeap h c) = cid"
  moreover have "Unregister cid h = h" using None by (simp add: Unregister_def registry_remove_def)
  moreover have "(cid, c) \<notin> set (byID (hReg h))" using None by (force simp: map_of_eq_None_iff)
  ultimately show ?thesis by (simp add: registered_def)
next
  case (Some d)
  assume "registry_inv h" "cID (hHeap h c) = cid"
  with Unregister_fields(1,3) [OF _ Some] show ?thesis by (simp add: registered_def set_delete badge_eq)
qed

lemma read_end_frees:
  assumes "hub_inv lib h" "cHostToken (hHeap h c) \<noteq> ''''" "cHostToken (hHeap h c) = mHostAuth (hMgr h)"
  shows "mHostAuth (hMgr (read_end c h)) = '''' \<and> \<not> registered (read_end c h) c"
proof -
  let ?tok = "cHostToken (hHeap h c)"
  let ?h1 = "fst (with_mgr (\<lambda>m. (ReleaseHost ?tok m, ())) h)"
  let ?h2 = "?h1\<lparr>hHeap := (hHeap ?h1)(c := (hHeap ?h1 c)\<lparr>cHostToken := ''''\<rparr>)\<rparr>"
  note w = calm_with_mgr [where f = "\<lambda>m. (ReleaseHost ?tok m, ())" and h = h]
  have "registry_inv ?h2"
    using registry_inv_calm [OF w(1)] assms(1) registry_same [of ?h2 ?h1] by (simp add: hub_inv_def)
  moreover have "read_end c h = Unregister (cID (hHeap ?h2 c)) ?h2"
    using assms(2) by (simp add: read_end_def Let_def)
  moreover have "mHostAuth (hMgr ?h2) = ''''" by (simp add: w(2)) (simp add: ReleaseHost_def Release_def assms(3))
  ultimately show ?thesis using Unregister_gone [of ?h2 c] by (simp add: Unregister_inv(2))
qed

lemma CloseHub_inv:
  assumes "hub_inv lib h"
  shows "run_inv lib h (CloseHub h)"
proof -
  let ?f = "\<lambda>c h. Unregister (cID (hHeap h c)) h"
  have f: "run_inv lib h (fold ?f cs h1)" if "run_inv lib h h1" for cs h1
    using that by (induction cs arbitrary: h1) (simp_all add: run_inv_def Unregister_inv)
  have fin: "run_inv lib h (h1\<lparr>hRootDone := True, hHeap := \<lambda>c. (hHeap h1 c)\<lparr>cDone := True\<rparr>\<rparr>)" if "run_inv lib h h1" for h1
  proof -
    have "hub_inv lib (h1\<lparr>hRootDone := True, hHeap := \<lambda>c. (hHeap h1 c)\<lparr>cDone := True\<rparr>\<rparr>)"
      by (rule hub_inv_same [of _ h1]) (use that in \<open>simp_all add: run_inv_def badge_def\<close>)
    with that show ?thesis by (simp add: run_inv_def)
  qed
  have "hub_inv lib (h\<lparr>hClosed := True\<rparr>)" by (rule hub_inv_same [OF _ _ _ _ _ assms]) simp_all
  then have "run_inv lib h (h\<lparr>hClosed := True\<rparr>)" by (simp add: run_inv_def)
  moreover have "run_inv lib h (h\<lparr>hClosed := True, hMgr := unsubscribe hid (hMgr h), hUnsub := None\<rparr>)" for hid
  proof -
    have s: "(manager_step lib)\<^sup>*\<^sup>* (hMgr h) (unsubscribe hid (hMgr h))" by (simp add: manager_step.unsubscribe r_into_rtranclp)
    let ?h = "h\<lparr>hClosed := True, hMgr := unsubscribe hid (hMgr h), hUnsub := None\<rparr>"
    have "seat_inv ?h = seat_inv h" by (rule seat_same) (simp_all add: unsubscribe_def)
    moreover have "registry_inv ?h = registry_inv h" by (rule registry_same) simp_all
    ultimately show ?thesis
      using s manager_inv_steps [OF s] assms by (simp add: run_inv_def hub_inv_def bounded_queues_def)
  qed
  moreover have "run_inv lib h h" using assms by (simp add: run_inv_def)
  ultimately show ?thesis
    using f fin by (simp add: CloseHub_def Let_def split: option.split)
qed

lemma hub_step_inv: "hub_inv lib h \<Longrightarrow> hub_step lib h h' \<Longrightarrow> run_inv lib h h'"
proof (erule hub_stepE)
  fix ch c assume "hub_inv lib h" "h' = write_step ch c h"
  then show "run_inv lib h h'" using run_inv_gentle [OF _ gentle_calm [OF gentle_refl write_step_calm]] by blast
qed (simp_all add: Register_inv read_step_inv read_end_inv spawned_step_inv tick_step_inv CloseHub_inv)

section \<open>Reachable hubs\<close>

lemma booted_seat: "booted lib m \<Longrightarrow> mHostAuth m = ''''"
  by (erule booted.cases) (metis boot_cases(2) prod.collapse)

lemma NewHub_inv:
  assumes "booted lib m0"
  shows "hub_inv lib (NewHub m0) \<and> (manager_step lib)\<^sup>*\<^sup>* m0 (hMgr (NewHub m0))"
proof -
  have f: "hReg (NewHub m0) = newClientRegistry" "hHeap (NewHub m0) = (\<lambda>_. newClient False [] zero_time)" "hNext (NewHub m0) = 0"
    "hMgr (NewHub m0) = fst (Subscribe m0)"
    by (simp_all add: NewHub_def split_beta Let_def)
  have s: "(manager_step lib)\<^sup>*\<^sup>* m0 (fst (Subscribe m0))" by (simp add: manager_step.subscribe r_into_rtranclp)
  have "registry_inv (NewHub m0)" "bounded_queues (NewHub m0)"
    by (simp_all add: registry_inv_def bounded_queues_def f newClientRegistry_def newClient_def gomap_ok_def)
  moreover have "seat_inv (NewHub m0)"
    unfolding seat_inv_def f using booted_seat [OF assms] by (intro exI [of _ None]) (simp add: newClient_def Subscribe_def Let_def)
  moreover have "manager_inv lib (fst (Subscribe m0))" using manager_inv_steps [OF s] booted_inv [OF assms] by blast
  ultimately show ?thesis using s by (simp add: hub_inv_def f)
qed

interpretation net: transition_system
  "\<lambda>(l :: 'r rand_lib, h). \<exists>m0. booted l m0 \<and> h = NewHub m0"
  "\<lambda>(l, h) (l', h'). l' = l \<and> hub_step l h h'"
  "\<lambda>(l, h). hub_inv l h"
  "\<lambda>(l, h) (l', h'). l' = l \<and> (manager_step l)\<^sup>*\<^sup>* (hMgr h) (hMgr h')"
  by unfold_locales
     (auto simp: NewHub_inv run_inv_def dest: hub_step_inv intro: rtranclp_trans)

lemma hub_run_lift:
  "(hub_step lib)\<^sup>*\<^sup>* h h' \<Longrightarrow> (\<lambda>(l, h) (l', h'). l' = l \<and> hub_step l h h')\<^sup>*\<^sup>* (lib, h) (lib, h')"
  by (induction rule: rtranclp_induct) (auto intro: rtranclp.rtrancl_into_rtrancl)

lemma network_inv: "booted lib m0 \<Longrightarrow> (hub_step lib)\<^sup>*\<^sup>* (NewHub m0) h \<Longrightarrow> hub_inv lib h"
  using net.run_good [OF _ hub_run_lift] by fastforce

lemma network_session:
  assumes "booted lib m0" "(hub_step lib)\<^sup>*\<^sup>* (NewHub m0) h"
  shows "(manager_step lib)\<^sup>*\<^sup>* m0 (hMgr h)"
  using NewHub_inv [OF assms(1)] net.steps_later [OF hub_run_lift [OF assms(2)]] by auto

section \<open>Who receives what\<close>

text \<open>The clients an event is meant for.\<close>

definition entitled :: "hub \<Rightarrow> state \<Rightarrow> envelope \<Rightarrow> ref \<Rightarrow> bool" where
  "entitled h st env c \<longleftrightarrow> registered h c \<and>
     (case Visibility env of
        VisPublic \<Rightarrow> True
      | VisPlayer \<Rightarrow> cPlayerID (hHeap h c) \<noteq> '''' \<and> cPlayerID (hHeap h c) = Recipient env
      | VisRoleMafia \<Rightarrow> cPlayerID (hHeap h c) \<noteq> '''' \<and>
          (\<exists>p\<in>set (Players st). ID p = cPlayerID (hHeap h c) \<and> Alive p \<and> Role p = RoleMafia))"

lemma gomap_refs_distinct:
  assumes "gomap_ok m" "\<And>i j c. (i, c) \<in> set m \<Longrightarrow> (j, c) \<in> set m \<Longrightarrow> i = j"
  shows "distinct (map snd m)"
proof -
  have "inj_on snd (set m)" using assms(2) by (auto simp: inj_on_def)
  moreover have "distinct m" using assms(1) by (simp add: gomap_ok_def distinct_map)
  ultimately show ?thesis by (simp add: distinct_map)
qed

lemma by_player:
  assumes "registry_inv h"
  shows "byPlayerSafe (hReg h) p = Some c \<longleftrightarrow> registered h c \<and> cPlayerID (hHeap h c) = p \<and> p \<noteq> ''''"
proof -
  note r = registry_invD [OF assms]
  have "cKind (hHeap h c) = ClientPlayer \<longleftrightarrow> cPlayerID (hHeap h c) \<noteq> ''''"
    using r(8) [of c] by (cases "cKind (hHeap h c)") auto
  then show ?thesis
    using gomap_lookup_iff [OF r(2), of p c] r(7) [of p c] by (auto simp: byPlayerSafe_def registered_def)
qed

lemma everyone:
  assumes "registry_inv h"
  shows "set (snapshotPublic (hReg h)) = {c. registered h c \<and> cPlayerID (hHeap h c) = ''''}"
    "set (snapshotPlayers (hReg h)) = {c. registered h c \<and> cPlayerID (hHeap h c) \<noteq> ''''}"
    "distinct (snapshotPublic (hReg h))" "distinct (snapshotPlayers (hReg h))"
proof -
  note r = registry_invD [OF assms]
  have k: "cKind (hHeap h c) = ClientPlayer \<longleftrightarrow> cPlayerID (hHeap h c) \<noteq> ''''"
    "cKind (hHeap h c) = ClientPublic \<longleftrightarrow> cPlayerID (hHeap h c) = ''''" for c
    using r(8) [of c] by (cases "cKind (hHeap h c)"; auto)+
  show "distinct (snapshotPublic (hReg h))" "distinct (snapshotPlayers (hReg h))"
    unfolding snapshotPublic_def snapshotPlayers_def
  proof -
    have "i = j" if "(i, c) \<in> set (publics (hReg h))" "(j, c) \<in> set (publics (hReg h))" for i j c
      using that r(6) [of i c] r(6) [of j c] r(4) [of i c] r(4) [of j c] by simp
    from gomap_refs_distinct [OF r(3) this] show "distinct (map snd (publics (hReg h)))" .
    have "i = j" if "(i, c) \<in> set (byPlayerID (hReg h))" "(j, c) \<in> set (byPlayerID (hReg h))" for i j c
      using that r(7) [of i c] r(7) [of j c] by simp
    from gomap_refs_distinct [OF r(2) this] show "distinct (map snd (byPlayerID (hReg h)))" .
  qed
  show "set (snapshotPlayers (hReg h)) = {c. registered h c \<and> cPlayerID (hHeap h c) \<noteq> ''''}"
  proof (rule set_eqI)
    fix c
    have "c \<in> set (snapshotPlayers (hReg h)) \<longleftrightarrow> (\<exists>p. (p, c) \<in> set (byPlayerID (hReg h)))"
      by (force simp: snapshotPlayers_def)
    then show "c \<in> set (snapshotPlayers (hReg h)) \<longleftrightarrow> c \<in> {c. registered h c \<and> cPlayerID (hHeap h c) \<noteq> ''''}"
      using r(7) [of _ c] by (simp add: registered_def k)
  qed
  have "c \<in> set (snapshotPublic (hReg h)) \<longleftrightarrow> registered h c \<and> cPlayerID (hHeap h c) = ''''" for c
  proof -
    have "c \<in> set (snapshotPublic (hReg h)) \<longleftrightarrow> (\<exists>i. (i, c) \<in> set (publics (hReg h)))"
      by (force simp: snapshotPublic_def)
    then show ?thesis using r(4) [of _ c] r(6) [of _ c] by (auto simp: registered_def k)
  qed
  then show "set (snapshotPublic (hReg h)) = {c. registered h c \<and> cPlayerID (hHeap h c) = ''''}" by blast
qed

lemma routed_distinct_players:
  fixes f :: "player_id \<Rightarrow> ref option" and ps :: "player list"
  assumes "\<And>p q c. f p = Some c \<Longrightarrow> f q = Some c \<Longrightarrow> p = q" "distinct (map ID ps)"
  shows "distinct (concat (map (\<lambda>p. if Q p then (case f (ID p) of Some c \<Rightarrow> [c] | None \<Rightarrow> []) else []) ps))"
  using assms(2)
proof (induction ps)
  case (Cons p ps)
  have "f (ID q) \<noteq> Some c" if "f (ID p) = Some c" "q \<in> set ps" for c q
    using assms(1) [of "ID p" c "ID q"] that Cons.prems by auto
  then have "c \<notin> set (concat (map (\<lambda>p. if Q p then (case f (ID p) of Some c \<Rightarrow> [c] | None \<Rightarrow> []) else []) ps))"
    if "f (ID p) = Some c" for c
    using that by (auto split: option.splits if_splits) metis
  with Cons show ?case by (cases "Q p"; cases "f (ID p)") simp_all
qed simp

text \<open>The routing table is exact, and nobody is sent an event twice.\<close>

lemma routeEvent_spec:
  assumes "registry_inv h" "distinct (map ID (Players st))"
  shows "set (routeEvent (hReg h) env st) = {c. entitled h st env c} \<and> distinct (routeEvent (hReg h) env st)"
proof (cases "Visibility env")
  case VisPublic
  with everyone [OF assms(1)] show ?thesis by (auto simp: routeEvent_def entitled_def)
next
  case VisPlayer
  have "c \<in> set (case byPlayerSafe (hReg h) p of Some c \<Rightarrow> [c] | None \<Rightarrow> []) \<longleftrightarrow> byPlayerSafe (hReg h) p = Some c" for c p
    by (auto split: option.split)
  then have "c \<in> set (routeEvent (hReg h) env st) \<longleftrightarrow> entitled h st env c" for c
    using VisPlayer by (auto simp: routeEvent_def entitled_def by_player [OF assms(1)])
  moreover have "distinct (routeEvent (hReg h) env st)" using VisPlayer by (simp add: routeEvent_def split: option.split)
  ultimately show ?thesis by blast
next
  case VisRoleMafia
  let ?b = "byPlayerSafe (hReg h)"
  have "p = q" if "?b p = Some c" "?b q = Some c" for p q c
    using that by (simp add: by_player [OF assms(1)])
  from routed_distinct_players [of ?b "Players st" "\<lambda>p. Alive p \<and> Role p = RoleMafia", OF this assms(2)]
  have "distinct (routeEvent (hReg h) env st)" using VisRoleMafia by (simp add: routeEvent_def)
  moreover have "c \<in> set (routeEvent (hReg h) env st) \<longleftrightarrow>
      (\<exists>p\<in>set (Players st). Alive p \<and> Role p = RoleMafia \<and> ?b (ID p) = Some c)" for c
    using VisRoleMafia by (auto simp: routeEvent_def split: option.splits if_splits intro!: bexI)
  then have "c \<in> set (routeEvent (hReg h) env st) \<longleftrightarrow> entitled h st env c" for c
    using VisRoleMafia by (simp add: entitled_def by_player [OF assms(1)]) metis
  ultimately show ?thesis by blast
qed


text \<open>What an event adds to the queue of a client: the event if it is meant for it, then the
  announcement if it is for the public screens and the client is one.\<close>

definition mail :: "hub \<Rightarrow> event_out \<Rightarrow> ref \<Rightarrow> wire list" where
  "mail h out c =
     (case oEnvelope out of
        Some env \<Rightarrow> if entitled h (oState out) env c
                   then [EventMsg (wsVisibilityToString (Visibility env)) (buildEventPayload (Event env))] else []
      | None \<Rightarrow> []) @
     (case oAnnouncement out of
        Some a \<Rightarrow> if \<not> IsEmpty a \<and> ForPublicOnly a \<and> registered h c \<and> cPlayerID (hHeap h c) = '''' then [announce_msg a] else []
      | None \<Rightarrow> [])"

lemma enqueue_other: "d \<noteq> c \<Longrightarrow> hHeap (enqueue c msg h) d = hHeap h d"
  by (simp add: enqueue_def Let_def)

lemma enqueue_done: "cDone (hHeap (enqueue c msg h) d) = cDone (hHeap h d)"
  by (simp add: enqueue_def Let_def)

lemma enqueue_self:
  "length (cOut (hHeap h c)) \<le> outBufferSize \<Longrightarrow> \<not> cDone (hHeap h c) \<Longrightarrow>
   cOut (hHeap (enqueue c msg h) c) = take outBufferSize (cOut (hHeap h c) @ [msg])"
  by (simp add: enqueue_def Let_def)

lemma enqueue_all_queue:
  assumes "distinct cs" "bounded_queues h" "\<not> cDone (hHeap h c)"
  shows "cOut (hHeap (enqueue_all cs msg h) c) =
    take outBufferSize (cOut (hHeap h c) @ (if c \<in> set cs then [msg] else []))"
  using assms
proof (induction cs arbitrary: h)
  case Nil
  then show ?case by (simp add: enqueue_all_def bounded_queues_def)
next
  case (Cons d cs)
  have b: "bounded_queues (enqueue d msg h)" using calm_enqueue(1) [of h d msg] Cons.prems(2) by (simp add: calm_def)
  have ih: "cOut (hHeap (enqueue_all (d # cs) msg h) c) =
      take outBufferSize (cOut (hHeap (enqueue d msg h) c) @ (if c \<in> set cs then [msg] else []))"
    using Cons.IH [OF _ b] Cons.prems by (simp add: enqueue_all_def enqueue_done)
  show ?case
  proof (cases "c = d")
    case True
    then have "cOut (hHeap (enqueue d msg h) c) = take outBufferSize (cOut (hHeap h c) @ [msg])"
      using Cons.prems by (simp add: enqueue_self bounded_queues_def)
    with True ih Cons.prems(1) show ?thesis by (simp add: min_def)
  next
    case False
    with ih show ?thesis by (simp add: enqueue_other)
  qed
qed

lemma enqueue_all_done: "cDone (hHeap (enqueue_all cs msg h) c) = cDone (hHeap h c)"
  unfolding enqueue_all_def by (induction cs arbitrary: h) (simp_all add: enqueue_done)

lemma onEvent_queue:
  assumes "registry_inv h" "bounded_queues h" "distinct (map ID (Players (oState out)))" "\<not> cDone (hHeap h c)"
  shows "cOut (hHeap (onEvent out h) c) = take outBufferSize (cOut (hHeap h c) @ mail h out c)"
proof -
  let ?ev = "case oEnvelope out of
        Some env \<Rightarrow> if entitled h (oState out) env c
                   then [EventMsg (wsVisibilityToString (Visibility env)) (buildEventPayload (Event env))] else []
      | None \<Rightarrow> []"
  let ?h = "case oEnvelope out of None \<Rightarrow> h | Some env \<Rightarrow>
      enqueue_all (routeEvent (hReg h) env (oState out))
        (EventMsg (wsVisibilityToString (Visibility env)) (buildEventPayload (Event env))) h"
  have calm: "calm h ?h" using calm_enqueue_all(1) by (simp split: option.split)
  have q: "cOut (hHeap ?h c) = take outBufferSize (cOut (hHeap h c) @ ?ev)"
    using routeEvent_spec [OF assms(1,3)] enqueue_all_queue [OF _ assms(2,4)] assms(2)
    by (simp add: bounded_queues_def split: option.split)
  have h: "registry_inv ?h" "bounded_queues ?h" "\<not> cDone (hHeap ?h c)"
    using registry_inv_calm [OF calm assms(1)] calm assms(2,4) enqueue_all_done by (simp_all add: calm_def split: option.splits)
  have p: "c \<in> set (snapshotPublic (hReg ?h)) \<longleftrightarrow> registered h c \<and> cPlayerID (hHeap h c) = ''''"
    "distinct (snapshotPublic (hReg ?h))"
    using everyone [OF h(1)] registered_calm [OF calm] calm by (auto simp: calm_def badge_eq)
  have "cOut (hHeap (enqueue_all (snapshotPublic (hReg ?h)) (announce_msg a) ?h) c) =
      take outBufferSize (cOut (hHeap h c) @ ?ev @ (if registered h c \<and> cPlayerID (hHeap h c) = '''' then [announce_msg a] else []))" for a
    using enqueue_all_queue [OF p(2) h(2,3)] p(1) q by (simp add: take_append min_def)
  with q show ?thesis
    by (simp add: onEvent_def mail_def Let_def split: option.split)
qed


section \<open>A connection that takes the host's seat\<close>

definition demo_net :: hub where
  "demo_net = fst (Register (Some (replicate 8 1, 0)) (NewHub demo_boot))"

definition demo_claim :: "json option" where
  "demo_claim = Some (JObj [(''type'', JStr ''host:claim'')])"

definition demo_hub :: hub where
  "demo_hub = read_step demo_lib (Some [42]) 0 demo_claim demo_net"

lemma demo_boot_fields: "mIds demo_boot = (\<lambda>n. [word_of_nat n])" "mSess demo_boot = zero_session" "mHostAuth demo_boot = ''''"
  using booted_inv [OF demo_booted] booted_seat [OF demo_booted]
  by (simp_all add: demo_boot_def NewManager_def bootRestore_def LoadActiveSnapshot_def db_exec_def empty_db_def New_def zero_state_def)

lemma demo_net_facts:
  "hNext demo_net = 1" "hHeap demo_net 0 = (newClient False (replicate 8 1) 0)\<lparr>cOut := [WelcomeMsg (newClientID (replicate 8 1)) ''PUBLIC'' ''v1'']\<rparr>"
  "hMgr demo_net = fst (Subscribe demo_boot)" "registered demo_net 0"
  by (simp_all add: demo_net_def NewHub_def Register_def pushRoomState_def RoomSnapshot_def Subscribe_def Let_def split_beta
     demo_boot_fields zero_session_def IsClaimed_def enqueue_def newClient_def outBufferSize_def registered_def registry_add_def
     newClientRegistry_def protocolVersion_def)

lemma demo_claim_type: "incomingEnvelope demo_claim = Some ''host:claim''"
  by (simp add: incomingEnvelope_def demo_claim_def Unmarshal_def field_def foldName_ascii upper_letters del: foldName.simps(2))

lemma demo_hub_facts: "mHostAuth (hMgr demo_hub) = ''2a''" "cHostToken (hHeap demo_hub 0) = ''2a''" "registered demo_hub 0"
  "hNext demo_hub = 1" "\<not> cDone (hHeap demo_hub 0)" "length (cOut (hHeap demo_hub 0)) = 2" "cPlayerID (hHeap demo_hub 0) = ''''"
proof -
  have x: "hex_encode [42] = ''2a''" "map_of type_strings ''host:claim'' = Some TypeHostClaim" by code_simp+
  show "mHostAuth (hMgr demo_hub) = ''2a''" "cHostToken (hHeap demo_hub 0) = ''2a''" "registered demo_hub 0" "hNext demo_hub = 1"
    "\<not> cDone (hHeap demo_hub 0)" "length (cOut (hHeap demo_hub 0)) = 2" "cPlayerID (hHeap demo_hub 0) = ''''"
    using demo_net_facts
    by (simp_all add: demo_hub_def read_step_def demo_claim_type handleIncoming_def x with_mgr_def ClaimHost_def Claim_def Let_def
        Subscribe_def demo_boot_fields enqueue_def registered_def newClient_def outBufferSize_def)
qed

lemma demo_hub_run: "(hub_step demo_lib)\<^sup>*\<^sup>* (NewHub demo_boot) demo_hub"
proof -
  have "hub_step demo_lib (NewHub demo_boot) demo_net"
    unfolding demo_net_def by (rule hub_step.connect) (simp add: NewHub_def split_beta Let_def)
  moreover have "clean_read demo_claim 0 demo_net"
    using demo_net_facts
    by (simp add: clean_read_def demo_claim_type new_id_ok_def Subscribe_def Let_def demo_boot_fields zero_session_def newClient_def)
  then have "hub_step demo_lib demo_net demo_hub" unfolding demo_hub_def by (rule hub_step.read) simp
  ultimately show ?thesis by simp
qed

section \<open>Properties of the network layer\<close>





text \<open>
  C22: the host's seat. At most one connection holds a seat token, it is the one the session
  accepts, and a taken seat belongs to some connection; when that connection hangs up the seat is free
  and the client is gone from the registry.
\<close>
theorem network_seat:
  assumes "booted lib m0" "(hub_step lib)\<^sup>*\<^sup>* (NewHub m0) h"
  shows "(\<forall>c. cHostToken (hHeap h c) \<noteq> '''' \<longrightarrow> cHostToken (hHeap h c) = mHostAuth (hMgr h)) \<and>
    (\<forall>c d. cHostToken (hHeap h c) \<noteq> '''' \<longrightarrow> cHostToken (hHeap h d) \<noteq> '''' \<longrightarrow> c = d) \<and>
    (mHostAuth (hMgr h) \<noteq> '''' \<longrightarrow> (\<exists>c<hNext h. cHostToken (hHeap h c) = mHostAuth (hMgr h))) \<and>
    (\<forall>c<hNext h. cHostToken (hHeap h c) \<noteq> '''' \<longrightarrow>
       mHostAuth (hMgr (read_end c h)) = '''' \<and> \<not> registered (read_end c h) c)"
proof (intro conjI)
  have inv: "seat_inv h" "hub_inv lib h" using network_inv [OF assms] by (simp_all add: hub_inv_def)
  show tok: "\<forall>c. cHostToken (hHeap h c) \<noteq> '''' \<longrightarrow> cHostToken (hHeap h c) = mHostAuth (hMgr h)"
    "\<forall>c d. cHostToken (hHeap h c) \<noteq> '''' \<longrightarrow> cHostToken (hHeap h d) \<noteq> '''' \<longrightarrow> c = d"
    using inv(1) by (auto simp: seat_inv_def split: if_splits)
  show "mHostAuth (hMgr h) \<noteq> '''' \<longrightarrow> (\<exists>c<hNext h. cHostToken (hHeap h c) = mHostAuth (hMgr h))"
    using inv(1) unfolding seat_inv_def by (metis not_None_eq)
  show "\<forall>c<hNext h. cHostToken (hHeap h c) \<noteq> '''' \<longrightarrow>
       mHostAuth (hMgr (read_end c h)) = '''' \<and> \<not> registered (read_end c h) c"
    using tok(1) read_end_frees [OF inv(2)] by blast
qed

theorem network_seat_witness:
  "mHostAuth (hMgr demo_hub) = ''2a'' \<and> mHostAuth (hMgr (read_end 0 demo_hub)) = '''' \<and> \<not> registered (read_end 0 demo_hub) 0"
  using network_seat [OF demo_booted demo_hub_run] demo_hub_facts(1,2,4) by simp

section \<open>What the network layer does not guard\<close>

text \<open>
  A client that is bound to one player and joins again as another stays in the index under the first:
  the events of the first player are still sent to it, and whoever resumes the first player evicts it.
\<close>

lemma second_join_corrupts_index:
  assumes "byPlayerSafe (hReg h) p = Some c" "byPlayerSafe (hReg h) q = None"
  shows "let h' = hub_bindPlayer c q h in
    byPlayerSafe (hReg h') p = Some c \<and> byPlayerSafe (hReg h') q = Some c \<and> cPlayerID (hHeap h' c) = q"
  using assms by (auto simp: hub_bindPlayer_def registry_bindPlayer_def byPlayerSafe_def Let_def update_conv')

text \<open>
  Games opened from the host's screen have no host player. The engine's host check compares with the
  empty identifier, which is what a client bound to nobody sends: any such connection ends the game.
\<close>

lemma anonymous_force_end:
  assumes "sStarted (mSess (hMgr h))" "HostID (est (mEngine (hMgr h))) = ''''" "Phase (est (mEngine (hMgr h))) \<noteq> PhaseEnd"
    "cPlayerID (hHeap h c) = ''''"
  shows "Phase (est (mEngine (hMgr (handleIncoming lib b c ''host:force-end'' raw h)))) = PhaseEnd"
proof -
  let ?e = "mEngine (hMgr h)"
  have "\<exists>e st envs. Apply lib (ForceEndGame '''') ?e = (e, st, Inr envs) \<and> Phase (est e) = PhaseEnd"
    using assms(2,3) by (simp add: Apply_def handleForceEnd_def ensureHost_def ok_def upd_def)
  then obtain e st envs where a: "Apply lib (ForceEndGame '''') ?e = (e, st, Inr envs)" "Phase (est e) = PhaseEnd" by blast
  have "mEngine (fst (persistAndDispatch st envs (hMgr h\<lparr>mEngine := e\<rparr>))) = e"
    using pad_frame(1) [of st envs "hMgr h\<lparr>mEngine := e\<rparr>"] by (simp add: roster_def)
  then have "mEngine (fst (SubmitAction lib (ForceEndGame '''') (hMgr h))) = e"
    using assms(1) a(1) by (simp add: SubmitAction_def split_beta Let_def)
  moreover have "map_of type_strings ''host:force-end'' = Some TypeHostForceEnd" by code_simp
  ultimately show ?thesis
    using a(2) assms(4) by (simp add: handleIncoming_def submit_def split_beta Let_def calm_submitErr calm_with_mgr)
qed

text \<open>
  A connection that has not identified itself is sent the whole state of the running game, with the role
  and the keyword of every player.
\<close>

lemma connect_discloses_roles:
  assumes "\<not> hClosed h" "\<not> hRootDone h" "sRoomOpened (mSess (hMgr h))" "isActivePhase (Phase (est (mEngine (hMgr h))))"
  shows "SnapshotMsg (est (mEngine (hMgr h))) zero_your_info False
     \<in> set (cOut (hHeap (fst (Register (Some (bs, now)) h)) (hNext h)))"
  using assms
  by (simp add: Register_def pushRoomState_def RoomSnapshot_def Snapshot_def newClient_def enqueue_def outBufferSize_def Let_def)


end
