(* ===== verification/Server.thy ===== *)
theory Server
  imports Network
begin

text \<open>
  \<open>internal/transport/http\<close> and \<open>cmd/mafia-game/main.go\<close>: the results endpoint, the routes and the
  static handlers, the access log, the LAN addresses, the configuration, and the start and the
  shutdown of the whole server. The file server, \<open>http.ServeContent\<close> and the upgrade to a
  WebSocket are arguments.
\<close>

section \<open>strconv.Atoi\<close>

definition digit_val :: "char \<Rightarrow> int option" where
  "digit_val c = (let n = of_char c :: nat in if 48 \<le> n \<and> n \<le> 57 then Some (int (n - 48)) else None)"

fun parse_digits :: "int \<Rightarrow> string \<Rightarrow> int option" where
  "parse_digits acc [] = Some acc"
| "parse_digits acc (c # cs) = (case digit_val c of None \<Rightarrow> None | Some d \<Rightarrow> parse_digits (10 * acc + d) cs)"

text \<open>\<open>None\<close> is either of the errors, a syntax error or a value out of range.\<close>

definition Atoi :: "string \<Rightarrow> int option" where
  "Atoi s =
     (let (neg, ds) = (case s of [] \<Rightarrow> (False, []) | c # cs \<Rightarrow>
            if c = CHR ''-'' then (True, cs) else if c = CHR ''+'' then (False, cs) else (False, s)) in
      if ds = [] then None
      else case parse_digits 0 ds of
        None \<Rightarrow> None
      | Some n \<Rightarrow> let n = (if neg then - n else n) in if int64_range n then Some n else None)"

lemma parse_digits_append:
  "parse_digits acc (xs @ ys) = (case parse_digits acc xs of None \<Rightarrow> None | Some n \<Rightarrow> parse_digits n ys)"
  by (induction xs arbitrary: acc) (simp_all split: option.split)

lemma digit_val_char: "n < 10 \<Longrightarrow> digit_val (char_of (48 + n)) = Some (int n)"
  by (simp add: digit_val_def Let_def of_char_of)

lemma parse_nat_digits: "parse_digits 0 (nat_digits n) = Some (int n)"
proof (induction n rule: nat_digits.induct)
  case (1 n)
  show ?case
  proof (cases "n < 10")
    case True
    then show ?thesis by (subst nat_digits.simps) (simp add: digit_val_char)
  next
    case False
    moreover have "10 * int (n div 10) + int (n mod 10) = int n"
      by (metis mult_div_mod_eq of_nat_add of_nat_mult of_nat_numeral)
    ultimately show ?thesis
      using 1 by (subst nat_digits.simps) (simp add: parse_digits_append digit_val_char)
  qed
qed

text \<open>What \<open>%d\<close> prints, \<open>Atoi\<close> reads.\<close>

lemma Atoi_fmt_d:
  assumes "int64_range n"
  shows "Atoi (fmt_d n) = Some n"
proof (cases "n < 0")
  case True
  with assms show ?thesis by (simp add: Atoi_def fmt_d_def parse_nat_digits)
next
  case False
  obtain c cs where c: "nat_digits (nat n) = c # cs" by (meson list.exhaust nat_digits_nonempty)
  have p: "parse_digits 0 (c # cs) = Some n" using parse_nat_digits [of "nat n"] False by (simp add: c)
  then have "digit_val c \<noteq> None" by (auto split: option.splits)
  moreover have "digit_val (CHR ''-'') = None" "digit_val (CHR ''+'') = None" by (simp_all add: digit_val_def)
  ultimately have "c \<noteq> CHR ''-''" "c \<noteq> CHR ''+''" by auto
  with False p assms show ?thesis by (simp add: Atoi_def fmt_d_def c)
qed

section \<open>api\_results.go\<close>

record memberEntry =
  meID :: player_id
  meName :: string
  meJoinedAt :: time

record resultEntry =
  reGameID :: string
  reStartedAt :: time
  reEndedAt :: time
  reWinner :: "team option"
  reEndReason :: end_reason
  reOptions :: options
  reMembers :: "memberEntry list"
  reReveal :: "player list"

datatype http_body = BodyText string | BodyResults "resultEntry list" | BodyFile string | NoBody

text \<open>A response: the codes passed to \<open>WriteHeader\<close>, in order, the headers set, and the body.\<close>

record response =
  rCodes :: "int list"
  rHeaders :: "(string \<times> string) list"
  rBody :: http_body

definition rStatus :: "response \<Rightarrow> int" where
  "rStatus r = (case rCodes r of [] \<Rightarrow> 200 | code # _ \<Rightarrow> code)"

definition http_Error :: "string \<Rightarrow> int \<Rightarrow> response" where
  "http_Error msg code = \<lparr>rCodes = [code],
     rHeaders = [(''Content-Type'', ''text/plain; charset=utf-8''), (''X-Content-Type-Options'', ''nosniff'')],
     rBody = BodyText (msg @ [CHR 0x0A])\<rparr>"

definition defaultLimit :: int where "defaultLimit = 50"
definition maxLimit :: int where "maxLimit = 500"

definition buildResultsResponse :: "game_result list \<Rightarrow> resultEntry list" where
  "buildResultsResponse results =
     map (\<lambda>r. \<lparr>reGameID = grGameID r, reStartedAt = grStartedAt r, reEndedAt = grEndedAt r, reWinner = grWinner r,
               reEndReason = grEndReason r, reOptions = grOptions r,
               reMembers = map (\<lambda>m. \<lparr>meID = pmID m, meName = pmName m, meJoinedAt = pmJoinedAt m\<rparr>) (grMembers r),
               reReveal = grReveal r\<rparr>) results"

text \<open>The argument \<open>v\<close> is \<open>r.URL.Query().Get("limit")\<close>, empty when there is none.\<close>

definition resultsHandler :: "string \<Rightarrow> db \<Rightarrow> db \<times> response" where
  "resultsHandler v store =
     (case (if v = '''' then Some defaultLimit
            else case Atoi v of None \<Rightarrow> None | Some n \<Rightarrow> if n < 1 \<or> n > maxLimit then None else Some n) of
        None \<Rightarrow> (store, http_Error ''invalid limit'' 400)
      | Some limit \<Rightarrow>
          (case ListResults limit store of
             (store, Inl err) \<Rightarrow> (store, http_Error ''internal error'' 500)
           | (store, Inr results) \<Rightarrow>
               (store, \<lparr>rCodes = [], rHeaders = [(''Content-Type'', ''application/json; charset=utf-8''), (''Cache-Control'', ''no-store'')],
                  rBody = BodyResults (buildResultsResponse results)\<rparr>)))"

section \<open>routes.go\<close>

definition healthHandler :: response where
  "healthHandler = \<lparr>rCodes = [200], rHeaders = [(''Content-Type'', ''text/plain; charset=utf-8'')], rBody = BodyText ''ok''\<rparr>"

type_synonym file_server = "(string \<times> string) list \<Rightarrow> string \<Rightarrow> response"

definition assetsHandler :: "file_server \<Rightarrow> string \<Rightarrow> response" where
  "assetsHandler fileServer path = fileServer [(''Cache-Control'', ''public, max-age=31536000, immutable'')] path"

definition audioHandler :: "file_server \<Rightarrow> string \<Rightarrow> response" where
  "audioHandler fileServer path = fileServer [(''Cache-Control'', ''public, max-age=86400'')] path"

text \<open>The file \<open>index.html\<close> of the bundle: it cannot be opened, its \<open>Stat\<close> fails, it cannot seek, or it is there.\<close>

datatype index_file = NoIndex | NoStat | NoSeek | Index

definition spaHandler :: "index_file \<Rightarrow> ((string \<times> string) list \<Rightarrow> response) \<Rightarrow> response" where
  "spaHandler f serveContent =
     (case f of
        NoIndex \<Rightarrow> http_Error ''frontend not built'' 503
      | NoStat \<Rightarrow> http_Error ''internal error'' 500
      | NoSeek \<Rightarrow> http_Error ''internal error'' 500
      | Index \<Rightarrow> serveContent [(''Content-Type'', ''text/html; charset=utf-8''), (''Cache-Control'', ''no-cache'')])"

datatype route = Healthz | WebSocket | Results | Assets | Audio | Spa | MovedTo string | MethodNotAllowed

text \<open>
  \<open>ServeMux\<close> on the patterns of \<open>buildMux\<close>, for a clean path: a \<open>GET\<close> pattern also serves \<open>HEAD\<close>, the
  most specific pattern wins, and the directory of a subtree pattern is redirected to.
\<close>

definition buildMux :: "string \<Rightarrow> string \<Rightarrow> route" where
  "buildMux meth path =
     (if meth \<noteq> ''GET'' \<and> meth \<noteq> ''HEAD'' then MethodNotAllowed
      else if path = ''/healthz'' then Healthz
      else if path = ''/ws'' then WebSocket
      else if path = ''/api/results'' then Results
      else if take 8 path = ''/assets/'' then Assets
      else if take 7 path = ''/audio/'' then Audio
      else if path = ''/assets'' then MovedTo ''/assets/''
      else if path = ''/audio'' then MovedTo ''/audio/''
      else Spa)"

section \<open>middleware.go and server.go\<close>

text \<open>The access log: the method, the path and the status that the recorder saw last.\<close>

definition recorded_status :: "response \<Rightarrow> int" where
  "recorded_status r = fold (\<lambda>code _. code) (rCodes r) 200"

definition loggingMiddleware :: "string \<Rightarrow> string \<Rightarrow> response \<Rightarrow> (string \<times> string \<times> int) list \<Rightarrow> (string \<times> string \<times> int) list" where
  "loggingMiddleware meth path r logged = logged @ [(meth, path, recorded_status r)]"

record http_config =
  Addr :: string
  HasHub :: bool
  HasStore :: bool
  HasAssets :: bool

definition NewServer :: "http_config \<Rightarrow> string option" where
  "NewServer cfg =
     (if Addr cfg = '''' then Some ''httpx: missing Config.Addr''
      else if \<not> HasHub cfg then Some ''httpx: missing Config.Hub''
      else if \<not> HasStore cfg then Some ''httpx: missing Config.Store''
      else if \<not> HasAssets cfg then Some ''httpx: missing Config.Assets''
      else None)"

section \<open>lan.go\<close>

text \<open>An address of an interface: an \<open>IPNet\<close> with the bytes of its address, or something else.\<close>

datatype net_addr = IPNet "8 word list" | OtherAddr

definition To4 :: "8 word list \<Rightarrow> 8 word list option" where
  "To4 ip = (if length ip = 4 then Some ip
     else if length ip = 16 \<and> take 10 ip = replicate 10 0 \<and> ip ! 10 = 255 \<and> ip ! 11 = 255 then Some (drop 12 ip) else None)"

definition IsLoopback :: "8 word list \<Rightarrow> bool" where
  "IsLoopback ip \<longleftrightarrow> ip ! 0 = 127"

definition IsPrivate :: "8 word list \<Rightarrow> bool" where
  "IsPrivate ip \<longleftrightarrow> ip ! 0 = 10 \<or> ip ! 0 = 172 \<and> unat (ip ! 1) div 16 = 1 \<or> ip ! 0 = 192 \<and> ip ! 1 = 168"

definition ip_String :: "8 word list \<Rightarrow> string" where
  "ip_String ip = fmt_d (uint (ip ! 0)) @ ''.'' @ fmt_d (uint (ip ! 1)) @ ''.'' @ fmt_d (uint (ip ! 2)) @ ''.'' @ fmt_d (uint (ip ! 3))"

definition lan_line :: "string \<Rightarrow> int \<Rightarrow> string" where
  "lan_line host port = ''  http://'' @ host @ '':'' @ fmt_d port"

definition lan_ip :: "net_addr \<Rightarrow> 8 word list option" where
  "lan_ip addr =
     (case addr of
        OtherAddr \<Rightarrow> None
      | IPNet ip \<Rightarrow> (case To4 ip of None \<Rightarrow> None | Some ip \<Rightarrow> if IsLoopback ip then None else if \<not> IsPrivate ip then None else Some ip))"

text \<open>The lines printed; on the left the text of an error of the network package.\<close>

definition PrintLANAddresses :: "string + net_addr list \<Rightarrow> int \<Rightarrow> string list" where
  "PrintLANAddresses addrs port =
     (case addrs of
        Inl err \<Rightarrow> [''  (could not detect LAN: '' @ err @ '')'', lan_line ''localhost'' port]
      | Inr addrs \<Rightarrow>
          let found = map (\<lambda>ip. lan_line (ip_String ip) port) (List.map_filter lan_ip addrs) in
          if found = [] then [lan_line ''localhost'' port] else found)"

section \<open>main.go\<close>

definition envStr :: "(string \<Rightarrow> string option) \<Rightarrow> string \<Rightarrow> string \<Rightarrow> string" where
  "envStr env key dflt = (case env key of Some v \<Rightarrow> if v \<noteq> '''' then v else dflt | None \<Rightarrow> dflt)"

definition envInt :: "(string \<Rightarrow> string option) \<Rightarrow> string \<Rightarrow> int \<Rightarrow> int" where
  "envInt env key dflt =
     (case env key of
        None \<Rightarrow> dflt
      | Some v \<Rightarrow> if v = '''' then dflt else case Atoi v of None \<Rightarrow> dflt | Some n \<Rightarrow> n)"

datatype log_level = LevelDebug | LevelInfo | LevelWarn | LevelError

definition lower :: "char \<Rightarrow> char" where
  "lower c = (case map_of (zip ''ABCDEFGHIJKLMNOPQRSTUVWXYZ'' ''abcdefghijklmnopqrstuvwxyz'') c of Some d \<Rightarrow> d | None \<Rightarrow> c)"

definition parseLevel :: "string \<Rightarrow> log_level" where
  "parseLevel s =
     (let s = map lower s in
      if s = ''debug'' then LevelDebug else if s = ''warn'' then LevelWarn else if s = ''error'' then LevelError else LevelInfo)"

text \<open>
  The flags, as far as they were given, over the environment: the port and the database file, or \<open>None\<close>
  for the exit with code 2.
\<close>

definition main_config :: "(string \<Rightarrow> string option) \<Rightarrow> int option \<Rightarrow> string option \<Rightarrow> string option \<Rightarrow> (int \<times> string \<times> log_level) option" where
  "main_config env portFlag dbFlag levelFlag =
     (let port = (case portFlag of Some p \<Rightarrow> p | None \<Rightarrow> envInt env ''MAFIA_PORT'' 8080);
          dbPath = (case dbFlag of Some p \<Rightarrow> p | None \<Rightarrow> envStr env ''MAFIA_DB_PATH'' ''./data/mafia.db'');
          logLevel = (case levelFlag of Some l \<Rightarrow> l | None \<Rightarrow> envStr env ''MAFIA_LOG_LEVEL'' ''info'')
      in if port < 1 \<or> port > 65535 then None else Some (port, dbPath, parseLevel logLevel))"

text \<open>
  \<open>run\<close> up to the listening server: the session manager on the opened database, then the hub. \<open>None\<close> is a
  database that does not open.
\<close>

definition run_server :: "db option \<Rightarrow> time \<Rightarrow> engine \<Rightarrow> (nat \<Rightarrow> time) \<Rightarrow> 8 word list \<Rightarrow> (nat \<Rightarrow> 8 word list) \<Rightarrow> int \<Rightarrow> go_error + hub" where
  "run_server opened sysnow engine clock rng ids port =
     (case opened of
        None \<Rightarrow> Inl OtherError
      | Some store \<Rightarrow>
          (case NewManager sysnow store engine clock rng ids \<lparr>TickInterval = 0, EventLog = False, MaxLobbySize = 0, MinPlayers = 0\<rparr> of
             (mgr, Some err) \<Rightarrow> Inl err
           | (mgr, None) \<Rightarrow>
               if NewServer \<lparr>Addr = ''0.0.0.0:'' @ fmt_d port, HasHub = True, HasStore = True, HasAssets = True\<rparr> \<noteq> None
               then Inl OtherError else Inr (NewHub mgr)))"

text \<open>The three stages; errors of the first two are only logged.\<close>

definition shutdown :: "hub \<Rightarrow> hub" where
  "shutdown h = (let h = CloseHub h; (mgr, err) = CloseManager (hMgr h) in h\<lparr>hMgr := mgr\<rparr>)"

section \<open>Properties\<close>

definition retoken :: "(persisted_member \<Rightarrow> string) \<Rightarrow> game_result \<Rightarrow> game_result" where
  "retoken f r = r\<lparr>grMembers := map (\<lambda>m. m\<lparr>pmToken := f m\<rparr>) (grMembers r)\<rparr>"

lemma build_token_free: "buildResultsResponse (map (retoken f) rs) = buildResultsResponse rs"
  by (simp add: buildResultsResponse_def retoken_def)

lemma sort_key_map: "(\<And>x. k (f x) = k x) \<Longrightarrow> sort_key k (map f xs) = map f (sort_key k xs)"
proof -
  assume k: "\<And>x. k (f x) = k x"
  have "insort_key k (f x) (map f ys) = map f (insort_key k x ys)" for x ys by (induction ys) (simp_all add: k)
  then show ?thesis by (induction xs) (simp_all add: k)
qed

lemma results_token_free:
  "snd (resultsHandler v (d\<lparr>game_results := map (retoken f) (game_results d)\<rparr>)) = snd (resultsHandler v d)"
proof -
  have "sort_key (\<lambda>r. - grEndedAt r) (map (retoken f) rs) = map (retoken f) (sort_key (\<lambda>r. - grEndedAt r) rs)" for rs
    by (rule sort_key_map) (simp add: retoken_def)
  then show ?thesis
    by (auto simp: resultsHandler_def ListResults_def db_exec_def build_token_free take_map Let_def split: option.split)
qed

definition asked_limit :: "string \<Rightarrow> int option" where
  "asked_limit v = (if v = '''' then Some defaultLimit else Atoi v)"

lemma results_listed:
  assumes "rStatus (snd (resultsHandler v d)) = 200"
  shows "\<exists>n es. asked_limit v = Some n \<and> 1 \<le> n \<and> n \<le> maxLimit \<and> rBody (snd (resultsHandler v d)) = BodyResults es \<and>
    int (length es) \<le> n \<and> sorted (map (\<lambda>e. - reEndedAt e) es)"
proof -
  have "sorted (map (\<lambda>e. - reEndedAt e) (buildResultsResponse (take n (sort_key (\<lambda>r. - grEndedAt r) rs))))" for n rs
    using sorted_wrt_take [of "(\<le>)" "map (\<lambda>r. - grEndedAt r) (sort_key (\<lambda>r. - grEndedAt r) rs)" n]
    by (simp add: buildResultsResponse_def comp_def take_map)
  with assms show ?thesis
    by (auto simp: resultsHandler_def asked_limit_def ListResults_def http_Error_def rStatus_def defaultLimit_def maxLimit_def
        buildResultsResponse_def Let_def split: option.splits if_splits prod.splits)
qed

text \<open>
  C36: the results endpoint. A limit that is not a number from 1 to 500 is answered with 400; an
  accepted request that the database answers lists at most that many games (50 by default), the latest
  first; and no part of any answer depends on the members' session tokens.
\<close>
theorem results_api:
  "(rStatus (snd (resultsHandler v d)) = 400 \<longleftrightarrow> (\<forall>n. asked_limit v = Some n \<longrightarrow> n < 1 \<or> 500 < n)) \<and>
   (rStatus (snd (resultsHandler v d)) = 200 \<longrightarrow>
      (\<exists>n es. asked_limit v = Some n \<and> rBody (snd (resultsHandler v d)) = BodyResults es \<and>
         int (length es) \<le> n \<and> sorted (map (\<lambda>e. - reEndedAt e) es))) \<and>
   snd (resultsHandler v (d\<lparr>game_results := map (retoken f) (game_results d)\<rparr>)) = snd (resultsHandler v d)"
proof (intro conjI impI)
  show "rStatus (snd (resultsHandler v d)) = 400 \<longleftrightarrow> (\<forall>n. asked_limit v = Some n \<longrightarrow> n < 1 \<or> 500 < n)"
    by (auto simp: resultsHandler_def asked_limit_def http_Error_def rStatus_def defaultLimit_def maxLimit_def
        split: option.splits prod.splits sum.splits)
qed (use results_listed results_token_free in blast)+

theorem results_api_witness:
  "rStatus (snd (resultsHandler ''501'' empty_db)) = 400 \<and>
   (\<exists>es. rBody (snd (resultsHandler '''' empty_db)) = BodyResults es \<and> length es \<le> 50)"
proof -
  have "Atoi ''501'' = Some 501" by (simp add: Atoi_def digit_val_def int64_range_def)
  then have "rStatus (snd (resultsHandler ''501'' empty_db)) = 400"
    using results_api [of "''501''" empty_db] by (simp add: asked_limit_def)
  moreover have "rStatus (snd (resultsHandler '''' empty_db)) = 200"
    by (simp add: resultsHandler_def ListResults_def db_exec_def empty_db_def defaultLimit_def rStatus_def)
  with results_api [of "''''" empty_db] have "\<exists>es. rBody (snd (resultsHandler '''' empty_db)) = BodyResults es \<and> length es \<le> 50"
    by (auto simp: asked_limit_def defaultLimit_def)
  ultimately show ?thesis ..
qed

lemma CloseHub_session:
  "mEngine (hMgr (CloseHub h)) = mEngine (hMgr h)" "mSess (hMgr (CloseHub h)) = mSess (hMgr h)"
  "mStore (hMgr (CloseHub h)) = mStore (hMgr h)" "mClosed (hMgr (CloseHub h)) = mClosed (hMgr h)"
proof -
  have "hMgr (fold (\<lambda>c h. Unregister (cID (hHeap h c)) h) cs g) = hMgr g" for cs g
    by (induction cs arbitrary: g) (simp_all add: Unregister_inv(2))
  then show "mEngine (hMgr (CloseHub h)) = mEngine (hMgr h)" "mSess (hMgr (CloseHub h)) = mSess (hMgr h)"
    "mStore (hMgr (CloseHub h)) = mStore (hMgr h)" "mClosed (hMgr (CloseHub h)) = mClosed (hMgr h)"
    by (simp_all add: CloseHub_def unsubscribe_def Let_def split: option.split)
qed

text \<open>Only the shutdown closes the manager.\<close>

lemma pad_open: "mClosed (fst (persistAndDispatch st envs m)) = mClosed m"
  by (simp add: persistAndDispatch_def handleGameEnd_def dispatchHandlers_def clock_now_def on_sess_def Let_def split_beta
      split: option.split)

lemma issue_loop_open: "mClosed (fst (issue_loop n m)) = mClosed m"
  by (induction n arbitrary: m) (simp_all add: Let_def split_beta split: option.split)

lemma game_ops_open:
  "mClosed (fst (SubmitAction lib a m)) = mClosed m" "mClosed (SessionTick lib now m) = mClosed m"
  "mClosed (fst (start_engine lib host opts m)) = mClosed m"
  by (simp_all add: SubmitAction_def SessionTick_def start_engine_def pad_open on_sess_def split_beta Let_def
      split: prod.split sum.split)

lemma lobby_ops_open:
  "mClosed (fst (JoinPlayer name m)) = mClosed m" "mClosed (fst (CreateSession name m)) = mClosed m"
  "mClosed (fst (ResumePlayer tok m)) = mClosed m"
  using issue_loop_open [of tokenAttempts]
  by (simp_all add: JoinPlayer_def CreateSession_def ResumePlayer_def add_member_def issueUniqueToken_def clock_now_def
      pad_open on_sess_def newID_def split_beta Let_def split: sum.split option.split)

lemma host_ops_open:
  "mClosed (fst (OpenRoom seat opts m)) = mClosed m" "mClosed (fst (HostStartGame lib seat m)) = mClosed m"
  "mClosed (fst (StartGameSession lib host opts m)) = mClosed m" "mClosed (fst (HostForceTerminate lib seat m)) = mClosed m"
  "mClosed (fst (HostCloseRoom seat m)) = mClosed m" "mClosed (fst (SaveHostOptions seat opts m)) = mClosed m"
  by (cases "Verify seat (mHostAuth m)"; cases "validateSavedHostOptions opts";
      simp add: OpenRoom_def HostStartGame_def StartGameSession_def HostForceTerminate_def HostCloseRoom_def SaveHostOptions_def
        Restore_def game_ops_open pad_open on_sess_def newID_def split_beta Let_def split: prod.split sum.split)+

lemma manager_step_open: "manager_step lib m m' \<Longrightarrow> mClosed m' = mClosed m"
  by (erule manager_stepE)
     (simp_all add: game_ops_open lobby_ops_open host_ops_open ClaimHost_def ReleaseHost_def Subscribe_def unsubscribe_def
       split_beta Let_def)

lemma manager_steps_open: "booted lib m0 \<Longrightarrow> (manager_step lib)\<^sup>*\<^sup>* m0 m \<Longrightarrow> \<not> mClosed m"
proof (rotate_tac, induction rule: rtranclp_induct)
  case base
  then show ?case
    by cases (metis boot_cases(3) prod.collapse)
qed (simp add: manager_step_open)

lemma shutdown_saves:
  assumes "sStarted (mSess (hMgr h))" "\<not> mClosed (hMgr h)" "fault_free (mStore (hMgr h))"
  shows "active_snapshot (mStore (hMgr (shutdown h))) = Some (Some (active_snap (hMgr h) (est (mEngine (hMgr h)))))"
  using assms
  by (simp add: shutdown_def CloseManager_def CloseHub_session SaveSnapshot_def CloseStore_def db_exec_def fault_free_def
      active_snap_def Snapshot_def Let_def split_beta)

text \<open>
  C14: a shutdown loses nothing. A server that is stopped in the middle of a game and started again on the
  same database comes up with the same game, at the very state it had, the same members, and every
  member is recognised by the token it already has; no event has to have triggered a save before.
\<close>
theorem graceful_restart:
  assumes "booted lib m0" "(manager_step lib)\<^sup>*\<^sup>* m0 (hMgr h)" "sStarted (mSess (hMgr h))"
    "isActivePhase (Phase (est (mEngine (hMgr h))))" "fault_free (mStore (hMgr h))" "\<forall>n. \<not> faults n"
  shows "\<exists>h'. run_server (Some (OpenSqlite (mStore (hMgr (shutdown h))) faults)) sysnow (New pool clk rng) clock seed ids port = Inr h' \<and>
    est (mEngine (hMgr h')) = est (mEngine (hMgr h)) \<and> sStarted (mSess (hMgr h')) \<and>
    map fst (sMembers (mSess (hMgr h'))) = map fst (sMembers (mSess (hMgr h))) \<and>
    (\<forall>(k, mb)\<in>set (sMembers (mSess (hMgr h))). \<exists>m' jr. ResumePlayer (mbToken mb) (hMgr h') = (m', Inr jr) \<and> jrPlayerID jr = k)"
proof -
  let ?d = "OpenSqlite (mStore (hMgr (shutdown h))) faults"
  let ?opts = "\<lparr>TickInterval = 0, EventLog = False, MaxLobbySize = 0, MinPlayers = 0\<rparr>"
  have mok: "members_ok (hMgr h)" using session_inv [OF assms(1,2)] by (simp add: manager_inv_def)
  have d: "fault_free ?d" "active_snapshot ?d = Some (Some (active_snap (hMgr h) (est (mEngine (hMgr h)))))"
    using shutdown_saves [OF assms(3) manager_steps_open [OF assms(1,2)] assms(5)] assms(6) by (simp_all add: OpenSqlite_def fault_free_def)
  obtain r err where r: "NewManager sysnow ?d (New pool clk rng) clock seed ids ?opts = (r, err)" by fastforce
  note boot = boot_saved [OF mok d assms(4) r]
  have hub: "hMgr (NewHub r) = fst (Subscribe r)" by (simp add: NewHub_def split_beta Let_def)
  have sub: "mSess (fst (Subscribe r)) = mSess r" "mEngine (fst (Subscribe r)) = mEngine r" by (simp_all add: Subscribe_def Let_def)
  have "\<exists>m' jr. ResumePlayer (mbToken mb) (fst (Subscribe r)) = (m', Inr jr) \<and> jrPlayerID jr = k"
    if "(k, mb) \<in> set (sMembers (mSess (hMgr h)))" for k mb
  proof -
    have "distinct (map (\<lambda>(k, mb). mbToken mb) (sMembers (mSess (fst (Subscribe r)))))"
      using mok boot by (simp add: sub members_ok_def Let_def comp_def case_prod_unfold)
    moreover have "(k, mb\<lparr>mbConnected := False\<rparr>) \<in> set (sMembers (mSess (fst (Subscribe r))))"
      using that boot by (force simp: sub)
    ultimately show ?thesis
      using resume_by_token [of "fst (Subscribe r)" k "mb\<lparr>mbConnected := False\<rparr>"] mok that by (auto simp: members_ok_def Let_def)
  qed
  then show ?thesis
    using boot by (auto simp: run_server_def r NewServer_def hub sub comp_def case_prod_unfold)
qed


lemma demo_started_phase: "isActivePhase (Phase (est (res_engine demo_started)))"
  by code_simp

theorem graceful_restart_witness:
  "\<exists>h'. run_server (Some (OpenSqlite (mStore (hMgr (shutdown (NewHub demo_session)))) (\<lambda>_. False))) 0
      (New demo_pool (\<lambda>_. 0) []) (\<lambda>_. 0) [] (\<lambda>_. []) 8080 = Inr h' \<and>
    est (mEngine (hMgr h')) = est (mEngine demo_session) \<and> sStarted (mSess (hMgr h'))"
proof -
  have hub: "hMgr (NewHub demo_session) = fst (Subscribe demo_session)" by (simp add: NewHub_def split_beta Let_def)
  have same: "mSess (fst (Subscribe demo_session)) = mSess demo_session" "mEngine (fst (Subscribe demo_session)) = mEngine demo_session"
    "mStore (fst (Subscribe demo_session)) = mStore demo_session"
    by (simp_all add: Subscribe_def Let_def)
  have run: "(manager_step demo_lib)\<^sup>*\<^sup>* demo_boot (hMgr (NewHub demo_session))"
    unfolding hub by (rule rtranclp.rtrancl_into_rtrancl [OF demo_session_run manager_step.subscribe])
  have facts: "sStarted (mSess (hMgr (NewHub demo_session)))" "isActivePhase (Phase (est (mEngine (hMgr (NewHub demo_session)))))"
    "fault_free (mStore (hMgr (NewHub demo_session)))"
    unfolding hub same using demo_session_facts demo_started_phase by simp_all
  show ?thesis
    using graceful_restart [OF demo_booted run facts, of "\<lambda>_. False" 0 demo_pool "\<lambda>_. 0" "[]" "\<lambda>_. 0" "[]" "\<lambda>_. []" 8080]
    unfolding hub same by auto
qed


end
