(* ===== verification/TimeText.thy ===== *)
theory TimeText
  imports Server
begin

text \<open>
  The text \<open>encoding/json\<close> gives a \<open>time.Time\<close>: RFC 3339 with nanoseconds, in the zone of the value.
  An instant is a number of nanoseconds since 1 January of the year 1; days are counted from 1 January of
  the year 0, the first one the format can write. The calendar is computed by recursion over the
  years and the months, and reading inverts writing.
\<close>

section \<open>The calendar\<close>

definition leap :: "nat \<Rightarrow> bool" where
  "leap y \<longleftrightarrow> y mod 4 = 0 \<and> (y mod 100 \<noteq> 0 \<or> y mod 400 = 0)"

definition year_length :: "nat \<Rightarrow> nat" where
  "year_length y = (if leap y then 366 else 365)"

definition months :: "nat \<Rightarrow> nat list" where
  "months y = [31, if leap y then 29 else 28, 31, 30, 31, 30, 31, 31, 30, 31, 30, 31]"

function year_of :: "nat \<Rightarrow> nat \<Rightarrow> nat \<times> nat" where
  "year_of y d = (if d < year_length y then (y, d) else year_of (Suc y) (d - year_length y))"
  by pat_completeness auto
termination by (relation "measure snd") (auto simp: year_length_def split: if_splits)

declare year_of.simps [simp del]

fun days_before :: "nat \<Rightarrow> nat" where
  "days_before 0 = 0"
| "days_before (Suc y) = days_before y + year_length y"

fun month_of :: "nat list \<Rightarrow> nat \<Rightarrow> nat \<times> nat" where
  "month_of [] d = (0, d)"
| "month_of (l # ls) d = (if d < l then (0, d) else let (m, r) = month_of ls (d - l) in (Suc m, r))"

lemma year_of_split: "year_of y d = (y', r) \<Longrightarrow> days_before y' + r = days_before y + d \<and> r < year_length y'"
proof (induction y d rule: year_of.induct)
  case (1 y d)
  then show ?case by (cases "d < year_length y") (simp_all add: year_of.simps [of y])
qed

lemma month_of_split:
  "d < sum_list ls \<Longrightarrow> month_of ls d = (m, r) \<Longrightarrow> m < length ls \<and> r < ls ! m \<and> sum_list (take m ls) + r = d"
proof (induction ls arbitrary: d m r)
  case (Cons l ls)
  show ?case
  proof (cases "d < l")
    case False
    obtain m' r' where m: "month_of ls (d - l) = (m', r')" by fastforce
    have "d - l < sum_list ls" using Cons.prems(1) False by simp
    from Cons.IH [OF this m] Cons.prems(2) False m show ?thesis by auto
  qed (use Cons.prems in auto)
qed simp

lemma months_total: "sum_list (months y) = year_length y" "length (months y) = 12"
  by (simp_all add: months_def year_length_def)

lemma month_length: "m < 12 \<Longrightarrow> months y ! m \<le> 31"
  by (simp add: months_def nth_Cons' split: if_splits)

section \<open>Fixed-width digits\<close>

fun pad :: "nat \<Rightarrow> nat \<Rightarrow> string" where
  "pad 0 n = ''''"
| "pad (Suc w) n = pad w (n div 10) @ [char_of (48 + n mod 10)]"

text \<open>Readers consume a prefix and return the rest.\<close>

fun take_digits :: "nat \<Rightarrow> nat \<Rightarrow> string \<Rightarrow> (nat \<times> string) option" where
  "take_digits 0 acc s = Some (acc, s)"
| "take_digits (Suc w) acc [] = None"
| "take_digits (Suc w) acc (c # s) = (case digit_val c of None \<Rightarrow> None | Some d \<Rightarrow> take_digits w (10 * acc + nat d) s)"

definition expect :: "char \<Rightarrow> string \<Rightarrow> string option" where
  "expect c s = (case s of [] \<Rightarrow> None | d # s \<Rightarrow> if d = c then Some s else None)"

lemma expect_Cons [simp]: "expect c (c # s) = Some s" by (simp add: expect_def)

lemma take_digits_append:
  "take_digits (v + w) acc s = Option.bind (take_digits v acc s) (\<lambda>(n, s). take_digits w n s)"
  by (induction v acc s rule: take_digits.induct) (auto split: option.split)

lemma take_pad: "n < 10 ^ w \<Longrightarrow> take_digits w acc (pad w n @ s) = Some (10 ^ w * acc + n, s)"
proof (induction w arbitrary: n s acc)
  case (Suc w)
  have "n div 10 < 10 ^ w" using Suc.prems by (simp add: less_mult_imp_div_less mult.commute)
  from Suc.IH [OF this]
  have "take_digits w acc (pad w (n div 10) @ char_of (48 + n mod 10) # s) =
      Some (10 ^ w * acc + n div 10, char_of (48 + n mod 10) # s)" .
  then show ?case
    using take_digits_append [of w 1 acc "pad w (n div 10) @ char_of (48 + n mod 10) # s"]
    by (simp add: digit_val_char algebra_simps)
qed simp

lemma length_pad [simp]: "length (pad w n) = w" by (induction w arbitrary: n) simp_all

lemma pad_digits: "c \<in> set (pad w n) \<Longrightarrow> digit_val c \<noteq> None"
  by (induction w arbitrary: n) (auto simp: digit_val_char)

section \<open>The fraction\<close>

definition trim_zeros :: "string \<Rightarrow> string" where
  "trim_zeros ds = rev (dropWhile (\<lambda>c. c = CHR ''0'') (rev ds))"

definition fraction :: "nat \<Rightarrow> string" where
  "fraction ns = (let ds = trim_zeros (pad 9 ns) in if ds = '''' then '''' else CHR ''.'' # ds)"

definition read_fraction :: "string \<Rightarrow> (nat \<times> string) option" where
  "read_fraction s =
     (case s of
        [] \<Rightarrow> Some (0, s)
      | c # cs \<Rightarrow>
          if c \<noteq> CHR ''.'' then Some (0, s)
          else let ds = takeWhile (\<lambda>c. digit_val c \<noteq> None) cs in
            if ds = '''' then None
            else map_option (\<lambda>(n, _). (n, drop (length ds) cs)) (take_digits 9 0 (ds @ replicate 9 (CHR ''0''))))"

lemma zeros: "takeWhile (\<lambda>c. c = z) xs = replicate (length (takeWhile (\<lambda>c. c = z) xs)) z"
  by (induction xs) auto

lemma trim_zeros_pad: "trim_zeros ds @ replicate (length ds - length (trim_zeros ds)) (CHR ''0'') = ds"
proof -
  let ?z = "takeWhile (\<lambda>c. c = CHR ''0'') (rev ds)"
  have e: "trim_zeros ds @ rev ?z = ds" unfolding trim_zeros_def
    by (simp flip: rev_append)
  have "length (trim_zeros ds @ rev ?z) = length ds" by (simp only: e)
  then have "length ds - length (trim_zeros ds) = length ?z" by simp
  moreover have "rev ?z = replicate (length ?z) (CHR ''0'')" by (metis zeros rev_replicate)
  ultimately show ?thesis using e by simp
qed

lemma pad_zero: "pad w 0 = replicate w (CHR ''0'')"
proof (induction w)
  case (Suc w)
  have "char_of (48 :: nat) = CHR ''0''" by code_simp
  with Suc show ?case by (simp add: replicate_append_same)
qed simp

lemma read_fraction_roundtrip:
  assumes "ns < 10 ^ 9" "s = [] \<or> digit_val (hd s) = None \<and> hd s \<noteq> CHR ''.''"
  shows "read_fraction (fraction ns @ s) = Some (ns, s)"
proof (cases "trim_zeros (pad 9 ns) = ''''")
  case True
  then have "pad 9 ns = replicate 9 (CHR ''0'')" using trim_zeros_pad [of "pad 9 ns"] by simp
  then have "take_digits 9 0 (pad 9 ns @ []) = take_digits 9 0 (pad 9 0 @ [])" by (simp only: pad_zero)
  moreover have "take_digits 9 0 (pad 9 0 @ []) = Some (10 ^ 9 * 0 + 0, [])" by (rule take_pad) simp
  ultimately have "Some (10 ^ 9 * 0 + ns, [] :: string) = Some (10 ^ 9 * 0 + 0, [])"
    using take_pad [OF assms(1), of 0 "[]"] by (simp only:)
  then have "ns = 0" by (simp only: option.inject prod.inject mult_0_right add_0)
  with True assms(2) show ?thesis by (cases s) (simp_all add: fraction_def read_fraction_def)
next
  case False
  let ?t = "trim_zeros (pad 9 ns)"
  have sub: "set ?t \<subseteq> set (pad 9 ns)" unfolding trim_zeros_def by (auto dest: set_dropWhileD)
  have len: "length ?t \<le> 9" unfolding trim_zeros_def
    by (metis length_dropWhile_le length_pad length_rev)
  have tw: "takeWhile (\<lambda>c. digit_val c \<noteq> None) (?t @ s) = ?t"
    using sub pad_digits assms(2) by (subst takeWhile_append2) (auto simp: takeWhile_eq_Nil_iff)
  have "?t @ replicate 9 (CHR ''0'') = pad 9 ns @ replicate (length ?t) (CHR ''0'')"
  proof -
    have "replicate 9 (CHR ''0'') = replicate (9 - length ?t) (CHR ''0'') @ replicate (length ?t) (CHR ''0'')"
      using len by (simp flip: replicate_add)
    with trim_zeros_pad [of "pad 9 ns"] show ?thesis by (metis append_assoc length_pad)
  qed
  then have "take_digits 9 0 (?t @ replicate 9 (CHR ''0'')) = Some (ns, replicate (length ?t) (CHR ''0''))"
    using take_pad [of ns 9 0] assms(1) by simp
  with False tw show ?thesis by (simp add: fraction_def read_fraction_def Let_def)
qed

section \<open>Writing and reading a time\<close>

text \<open>
  \<open>off\<close> is the offset of the zone in minutes. \<open>None\<close> is the error of \<open>MarshalJSON\<close> for a year that does
  not have four digits or an offset of a day or more.
\<close>

definition day_ns :: int where "day_ns = 86400000000000"

definition zone_text :: "int \<Rightarrow> string" where
  "zone_text off =
     (if off = 0 then ''Z''
      else (if off < 0 then CHR ''-'' else CHR ''+'') #
        pad 2 (nat \<bar>off\<bar> div 60) @ CHR '':'' # pad 2 (nat \<bar>off\<bar> mod 60))"

definition civil_text :: "nat \<Rightarrow> nat \<Rightarrow> string" where
  "civil_text days ns =
     (let (y, d) = year_of 0 days; (m, r) = month_of (months y) d; s = ns div 10 ^ 9 in
      pad 4 y @ CHR ''-'' # pad 2 (Suc m) @ CHR ''-'' # pad 2 (Suc r) @ CHR ''T'' #
      pad 2 (s div 3600) @ CHR '':'' # pad 2 (s div 60 mod 60) @ CHR '':'' # pad 2 (s mod 60) @ fraction (ns mod 10 ^ 9))"

definition time_text :: "int \<Rightarrow> time \<Rightarrow> string option" where
  "time_text off t =
     (let l = t + off * 60 * second + 366 * day_ns in
      if l < 0 \<or> fst (year_of 0 (nat (l div day_ns))) \<ge> 10000 \<or> \<bar>off\<bar> \<ge> 1440 then None
      else Some (civil_text (nat (l div day_ns)) (nat (l mod day_ns)) @ zone_text off))"

definition read_zone :: "string \<Rightarrow> int option" where
  "read_zone s =
     (case s of
        [] \<Rightarrow> None
      | c # s \<Rightarrow>
          if c = CHR ''Z'' then (if s = [] then Some 0 else None)
          else if c = CHR ''+'' \<or> c = CHR ''-'' then
            Option.bind (take_digits 2 0 s) (\<lambda>(h, s). Option.bind (expect (CHR '':'') s) (\<lambda>s.
              Option.bind (take_digits 2 0 s) (\<lambda>(m, s).
                if s = [] \<and> h < 24 \<and> m < 60 then Some ((if c = CHR ''-'' then - 1 else 1) * int (60 * h + m)) else None)))
          else None)"

text \<open>
  The strict reader: fixed widths, every field in its range, a day that the month has.
\<close>

definition read_time :: "string \<Rightarrow> time option" where
  "read_time s =
     Option.bind (take_digits 4 0 s) (\<lambda>(y, s). Option.bind (expect (CHR ''-'') s) (\<lambda>s.
     Option.bind (take_digits 2 0 s) (\<lambda>(m, s). Option.bind (expect (CHR ''-'') s) (\<lambda>s.
     Option.bind (take_digits 2 0 s) (\<lambda>(d, s). Option.bind (expect (CHR ''T'') s) (\<lambda>s.
     Option.bind (take_digits 2 0 s) (\<lambda>(hh, s). Option.bind (expect (CHR '':'') s) (\<lambda>s.
     Option.bind (take_digits 2 0 s) (\<lambda>(mm, s). Option.bind (expect (CHR '':'') s) (\<lambda>s.
     Option.bind (take_digits 2 0 s) (\<lambda>(ss, s). Option.bind (read_fraction s) (\<lambda>(ns, s).
     Option.bind (read_zone s) (\<lambda>off.
       if 1 \<le> m \<and> m \<le> 12 \<and> 1 \<le> d \<and> d \<le> months y ! (m - 1) \<and> hh < 24 \<and> mm < 60 \<and> ss < 60
       then Some (int (days_before y + sum_list (take (m - 1) (months y)) + (d - 1)) * day_ns +
         int (hh * 3600 + mm * 60 + ss) * second + int ns - 366 * day_ns - off * 60 * second)
       else None)))))))))))))"

lemma read_zone_text:
  assumes "\<bar>off\<bar> < 1440"
  shows "read_zone (zone_text off) = Some off"
proof (cases "off = 0")
  case False
  let ?a = "nat \<bar>off\<bar>"
  have a: "?a < 1440" "int (60 * (?a div 60) + ?a mod 60) = \<bar>off\<bar>" using assms by simp_all
  then have "?a div 60 < 10 ^ 2" "?a mod 60 < 10 ^ 2" by simp_all
  note p = take_pad [OF this(1)] take_pad [OF this(2), of 0 "[]"]
  have "?a div 60 < 24" using a(1) by simp
  with False p a(2) show ?thesis by (auto simp: read_zone_def zone_text_def)
qed (simp add: zone_text_def read_zone_def)

lemma zone_text_start: "digit_val (hd (zone_text off)) = None \<and> hd (zone_text off) \<noteq> CHR ''.''"
  by (auto simp: zone_text_def digit_val_def)

lemma read_time_text:
  assumes "time_text off t = Some s"
  shows "read_time s = Some t"
proof -
  define l where "l = t + off * 60 * second + 366 * day_ns"
  define days where "days = nat (l div day_ns)"
  define ns where "ns = nat (l mod day_ns)"
  obtain y d where y: "year_of 0 days = (y, d)" by fastforce
  obtain m r where m: "month_of (months y) d = (m, r)" by fastforce
  let ?s = "ns div 10 ^ 9"
  have ok: "0 \<le> l" "y < 10000" "\<bar>off\<bar> < 1440"
    and s: "s = pad 4 y @ CHR ''-'' # pad 2 (Suc m) @ CHR ''-'' # pad 2 (Suc r) @ CHR ''T'' #
      pad 2 (?s div 3600) @ CHR '':'' # pad 2 (?s div 60 mod 60) @ CHR '':'' # pad 2 (?s mod 60) @ fraction (ns mod 10 ^ 9) @ zone_text off"
    using assms y m by (auto simp: time_text_def civil_text_def Let_def l_def days_def ns_def split: if_splits)
  have ns: "int ns = l mod day_ns" "ns < 86400000000000" unfolding ns_def by (simp_all add: day_ns_def nat_less_iff)
  then have sec: "?s < 86400" by simp
  have d: "days_before y + d = days" "d < year_length y" using year_of_split [OF y] by simp_all
  then have "d < sum_list (months y)" by (simp add: months_total)
  note mm = month_of_split [OF this m]
  then have mr: "m < 12" "r < months y ! m" "r < 31" "sum_list (take m (months y)) + r = d"
    using month_length [of m y] by (auto simp: months_total)
  note p = take_pad [of y 4 0] take_pad [of "Suc m" 2 0] take_pad [of "Suc r" 2 0] take_pad [of "?s div 3600" 2 0]
    take_pad [of "?s div 60 mod 60" 2 0] take_pad [of "?s mod 60" 2 0]
  have b: "y < 10 ^ 4" "Suc m < 10 ^ 2" "Suc r < 10 ^ 2" "?s div 3600 < 10 ^ 2" "?s div 60 mod 60 < 10 ^ 2" "?s mod 60 < 10 ^ 2"
    "?s div 3600 < 24"
    using ok(2) mr(1,3) sec by auto
  have f: "read_fraction (fraction (ns mod 10 ^ 9) @ zone_text off) = Some (ns mod 10 ^ 9, zone_text off)"
    using zone_text_start [of off] by (intro read_fraction_roundtrip) auto
  have h: "?s div 3600 * 3600 + ?s div 60 mod 60 * 60 + ?s mod 60 = ?s"
  proof -
    have "?s div 3600 = ?s div 60 div 60" by (simp add: div_mult2_eq [symmetric])
    moreover have "?s div 60 div 60 * 60 + ?s div 60 mod 60 = ?s div 60" "?s div 60 * 60 + ?s mod 60 = ?s"
      by (rule div_mult_mod_eq)+
    ultimately show ?thesis by linarith
  qed
  have v: "int days * day_ns + int ?s * second + int (ns mod 10 ^ 9) = l"
  proof -
    have "int ?s * second + int (ns mod 10 ^ 9) = int ns"
      by (simp add: second_def zdiv_int zmod_int)
    moreover have "int days = l div day_ns" unfolding days_def using ok(1) by (simp add: day_ns_def pos_imp_zdiv_nonneg_iff)
    moreover have "l div day_ns * day_ns + l mod day_ns = l" by (rule div_mult_mod_eq)
    ultimately show ?thesis using ns(1) by (simp only: add.assoc)
  qed
  have "read_time s = Some (int (days_before y + sum_list (take m (months y)) + r) * day_ns +
         int (?s div 3600 * 3600 + ?s div 60 mod 60 * 60 + ?s mod 60) * second + int (ns mod 10 ^ 9) - 366 * day_ns - off * 60 * second)"
    unfolding s read_time_def using p b f read_zone_text [OF ok(3)] mr by simp
  also have "\<dots> = Some t"
    unfolding h using v d(1) mr(4) by (simp add: l_def add.assoc)
  finally show ?thesis .
qed


end
