(* ===== verification/Encoding.thy ===== *)
theory Encoding
  imports TimeText "HOL-Library.List_Lexorder" "HOL-Library.Char_ord"
begin

text \<open>
  How \<open>encoding/json\<close> writes and reads the structs of \<open>internal/game/types.go\<close> and
  \<open>internal/persistence/store.go\<close>: one table of tags per struct, in the order of its fields, with
  \<open>omitempty\<close> where the source has it. Writing and reading use the same table, and one lemma about
  tables gives the round trip of every struct.
\<close>

section \<open>Strings\<close>

text \<open>
  A string that is written loses what is not UTF-8: every byte that starts no well-formed rune
  becomes U+FFFD. \<open>rune_width\<close> is the number of bytes of the first rune, 0 when it is malformed.
\<close>

definition byte_in :: "nat \<Rightarrow> nat \<Rightarrow> string \<Rightarrow> nat \<Rightarrow> bool" where
  "byte_in lo hi s i \<longleftrightarrow> i < length s \<and> lo \<le> of_char (s ! i) \<and> (of_char (s ! i) :: nat) \<le> hi"

definition rune_width :: "string \<Rightarrow> nat" where
  "rune_width s =
     (let tail = byte_in 0x80 0xBF s in
      if byte_in 0 0x7F s 0 then 1
      else if byte_in 0xC2 0xDF s 0 \<and> tail 1 then 2
      else if (byte_in 0xE0 0xE0 s 0 \<and> byte_in 0xA0 0xBF s 1 \<or> byte_in 0xED 0xED s 0 \<and> byte_in 0x80 0x9F s 1 \<or>
               (byte_in 0xE1 0xEC s 0 \<or> byte_in 0xEE 0xEF s 0) \<and> tail 1) \<and> tail 2 then 3
      else if (byte_in 0xF0 0xF0 s 0 \<and> byte_in 0x90 0xBF s 1 \<or> byte_in 0xF4 0xF4 s 0 \<and> byte_in 0x80 0x8F s 1 \<or>
               byte_in 0xF1 0xF3 s 0 \<and> tail 1) \<and> tail 2 \<and> tail 3 then 4
      else 0)"

definition replacement_char :: string where
  "replacement_char = [CHR 0xEF, CHR 0xBF, CHR 0xBD]"

function to_valid :: "string \<Rightarrow> string" where
  "to_valid [] = []"
| "to_valid (c # cs) =
     (case rune_width (c # cs) of
        0 \<Rightarrow> replacement_char @ to_valid cs
      | Suc n \<Rightarrow> c # take n cs @ to_valid (drop n cs))"
  by pat_completeness auto
termination by (relation "measure length") auto

definition valid_utf8 :: "string \<Rightarrow> bool" where
  "valid_utf8 s \<longleftrightarrow> to_valid s = s"

section \<open>Values\<close>

text \<open>
  An encoder fails with \<open>None\<close>. \<open>codec enc dec old x v\<close> states that \<open>x\<close>, once encoded, is decoded to
  \<open>v\<close> by a decoder that stores over \<open>old\<close>.
\<close>

definition codec :: "('a \<Rightarrow> json option) \<Rightarrow> (json \<Rightarrow> 'a \<Rightarrow> 'a \<times> bool) \<Rightarrow> 'a \<Rightarrow> 'a \<Rightarrow> 'a \<Rightarrow> bool" where
  "codec enc dec old x v \<longleftrightarrow> (\<forall>j. enc x = Some j \<longrightarrow> dec j old = (v, False))"

definition string_json :: "string \<Rightarrow> json option" where
  "string_json s = Some (JStr (to_valid s))"

definition int_json :: "int \<Rightarrow> json option" where
  "int_json n = Some (JInt n)"

definition bool_json :: "bool \<Rightarrow> json option" where
  "bool_json b = Some (JBool b)"

definition enum_json :: "('a \<Rightarrow> string) \<Rightarrow> 'a \<Rightarrow> json option" where
  "enum_json str x = Some (JStr (str x))"

fun into_enum :: "('a \<Rightarrow> string) \<Rightarrow> 'a list \<Rightarrow> json \<Rightarrow> 'a \<Rightarrow> 'a \<times> bool" where
  "into_enum str xs (JStr s) old = (case List.find (\<lambda>x. str x = s) xs of Some x \<Rightarrow> (x, False) | None \<Rightarrow> (old, True))"
| "into_enum str xs JNull old = (old, False)"
| "into_enum str xs _ old = (old, True)"

definition time_json :: "(time \<Rightarrow> int) \<Rightarrow> time \<Rightarrow> json option" where
  "time_json zone t = map_option JStr (time_text (zone t) t)"

fun into_time :: "json \<Rightarrow> time \<Rightarrow> time \<times> bool" where
  "into_time (JStr s) old = (case read_time s of Some t \<Rightarrow> (t, False) | None \<Rightarrow> (old, True))"
| "into_time JNull old = (old, False)"
| "into_time _ old = (old, True)"

text \<open>A pointer: \<open>null\<close> for nil; reading allocates a zero value unless one is there.\<close>

definition pointer_json :: "('a \<Rightarrow> json option) \<Rightarrow> 'a option \<Rightarrow> json option" where
  "pointer_json enc p = (case p of None \<Rightarrow> Some JNull | Some x \<Rightarrow> enc x)"

definition into_pointer :: "'a \<Rightarrow> (json \<Rightarrow> 'a \<Rightarrow> 'a \<times> bool) \<Rightarrow> json \<Rightarrow> 'a option \<Rightarrow> 'a option \<times> bool" where
  "into_pointer zero dec j old =
     (if j = JNull then (None, False)
      else let (x, bad) = dec j (case old of Some x \<Rightarrow> x | None \<Rightarrow> zero) in (Some x, bad))"

text \<open>A slice: reading stores over the elements that are there and cuts the rest.\<close>

fun all_json :: "('a \<Rightarrow> json option) \<Rightarrow> 'a list \<Rightarrow> json list option" where
  "all_json enc [] = Some []"
| "all_json enc (x # xs) = (case enc x of None \<Rightarrow> None | Some j \<Rightarrow> map_option ((#) j) (all_json enc xs))"

definition slice_json :: "('a \<Rightarrow> json option) \<Rightarrow> 'a list \<Rightarrow> json option" where
  "slice_json enc xs = map_option JArr (all_json enc xs)"

fun into_elements :: "'a \<Rightarrow> (json \<Rightarrow> 'a \<Rightarrow> 'a \<times> bool) \<Rightarrow> json list \<Rightarrow> 'a list \<Rightarrow> 'a list \<times> bool" where
  "into_elements zero dec [] old = ([], False)"
| "into_elements zero dec (j # js) old =
     (let (x, bad) = dec j (case old of [] \<Rightarrow> zero | y # _ \<Rightarrow> y);
          (xs, bad') = into_elements zero dec js (tl old)
      in (x # xs, bad \<or> bad'))"

fun into_slice :: "'a \<Rightarrow> (json \<Rightarrow> 'a \<Rightarrow> 'a \<times> bool) \<Rightarrow> json \<Rightarrow> 'a list \<Rightarrow> 'a list \<times> bool" where
  "into_slice zero dec (JArr js) old = into_elements zero dec js old"
| "into_slice zero dec JNull old = ([], False)"
| "into_slice zero dec _ old = (old, True)"

text \<open>A \<open>map[string]string\<close>: keys are written in order; reading adds to the map that is there.\<close>

definition strings_json :: "(string, string) gomap \<Rightarrow> json option" where
  "strings_json m = Some (JObj (map (\<lambda>(k, v). (to_valid k, JStr (to_valid v))) (sort_key fst m)))"

fun into_entries :: "(string \<times> json) list \<Rightarrow> (string, string) gomap \<Rightarrow> (string, string) gomap \<times> bool" where
  "into_entries [] m = (m, False)"
| "into_entries ((k, j) # kvs) m =
     (let (v, bad) = into_string j ''''; (m, bad') = into_entries kvs (AList.update k v m) in (m, bad \<or> bad'))"

fun into_strings :: "json \<Rightarrow> (string, string) gomap \<Rightarrow> (string, string) gomap \<times> bool" where
  "into_strings (JObj kvs) old = into_entries kvs old"
| "into_strings JNull old = ([], False)"
| "into_strings _ old = (old, True)"

lemma codec_string [intro]: "codec string_json into_string old s (to_valid s)"
  by (simp add: codec_def string_json_def)

lemma codec_int [intro]: "int64_range n \<Longrightarrow> codec int_json into_int old n n"
  by (simp add: codec_def int_json_def)

lemma codec_bool [intro]: "codec bool_json into_bool old b b"
  by (simp add: codec_def bool_json_def)

lemma codec_enum: "List.find (\<lambda>y. str y = str x) xs = Some x \<Longrightarrow> codec (enum_json str) (into_enum str xs) old x x"
  by (simp add: codec_def enum_json_def)

lemma codec_time [intro]: "codec (time_json zone) into_time old t t"
  by (auto simp: codec_def time_json_def dest: read_time_text)

lemma codec_pointer:
  assumes "\<And>x. p = Some x \<Longrightarrow> codec enc dec zero x (f x) \<and> enc x \<noteq> Some JNull"
  shows "codec (pointer_json enc) (into_pointer zero dec) None p (map_option f p)"
  using assms by (cases p) (auto simp: codec_def pointer_json_def into_pointer_def)

lemma codec_slice:
  assumes "\<And>x. x \<in> set xs \<Longrightarrow> codec enc dec zero x (f x)"
  shows "codec (slice_json enc) (into_slice zero dec) [] xs (map f xs)"
proof -
  have "into_elements zero dec js [] = (map f xs, False)" if "all_json enc xs = Some js" for js
    using that assms
  proof (induction xs arbitrary: js)
    case (Cons x xs)
    obtain a as where a: "enc x = Some a" "all_json enc xs = Some as" "js = a # as"
      using Cons.prems(1) by (auto split: option.splits)
    have "dec a zero = (f x, False)" using Cons.prems(2) [of x] a(1) by (simp add: codec_def)
    with Cons.IH [OF a(2) Cons.prems(2)] a(3) show ?case by simp
  qed simp
  then show ?thesis by (auto simp: codec_def slice_json_def)
qed

lemma into_entries_fresh:
  "distinct (map fst kvs) \<Longrightarrow> fst ` set m \<inter> fst ` set kvs = {} \<Longrightarrow>
   into_entries (map (\<lambda>(k, v). (k, JStr v)) kvs) m = (m @ kvs, False)"
  by (induction kvs arbitrary: m) (auto simp: update_fresh split_beta Let_def)

lemma codec_strings:
  assumes "gomap_ok m" "\<And>k v. (k, v) \<in> set m \<Longrightarrow> valid_utf8 k \<and> valid_utf8 v"
  shows "codec strings_json into_strings [] m (sort_key fst m)"
proof -
  have "map (\<lambda>(k, v). (to_valid k, JStr (to_valid v))) (sort_key fst m) = map (\<lambda>(k, v). (k, JStr v)) (sort_key fst m)"
    using assms(2) by (auto simp: valid_utf8_def)
  moreover have "distinct (map fst (sort_key fst m))"
    using assms(1) by (simp add: gomap_ok_def distinct_map)
  ultimately show ?thesis using into_entries_fresh [of "sort_key fst m" "[]"]
    by (auto simp: codec_def strings_json_def simp del: map_eq_conv)
qed

section \<open>Structs\<close>

text \<open>
  A tag of a struct: the name, whether the field is written, how, and how it is read. \<open>tag\<close> is a
  plain field; \<open>omit\<close> is a field with \<open>omitempty\<close>, which is written only when it is not empty.
\<close>

type_synonym 's tag = "string \<times> ('s \<Rightarrow> bool) \<times> ('s \<Rightarrow> json option) \<times> (json \<Rightarrow> 's \<Rightarrow> 's \<times> bool)"

definition omit :: "('a \<Rightarrow> bool) \<Rightarrow> string \<Rightarrow> ('s \<Rightarrow> 'a) \<Rightarrow> (('a \<Rightarrow> 'a) \<Rightarrow> 's \<Rightarrow> 's) \<Rightarrow> ('a \<Rightarrow> json option) \<Rightarrow>
    (json \<Rightarrow> 'a \<Rightarrow> 'a \<times> bool) \<Rightarrow> 's tag" where
  "omit blank name get put enc dec = (name, \<lambda>s. \<not> blank (get s), \<lambda>s. enc (get s), snd (field name get put dec))"

definition tag :: "string \<Rightarrow> ('s \<Rightarrow> 'a) \<Rightarrow> (('a \<Rightarrow> 'a) \<Rightarrow> 's \<Rightarrow> 's) \<Rightarrow> ('a \<Rightarrow> json option) \<Rightarrow>
    (json \<Rightarrow> 'a \<Rightarrow> 'a \<times> bool) \<Rightarrow> 's tag" where
  "tag = omit (\<lambda>_. False)"

fun object_json :: "'s tag list \<Rightarrow> 's \<Rightarrow> (string \<times> json) list option" where
  "object_json [] s = Some []"
| "object_json ((name, present, enc, dec) # ts) s =
     (if \<not> present s then object_json ts s
      else case enc s of None \<Rightarrow> None | Some j \<Rightarrow> map_option ((#) (name, j)) (object_json ts s))"

definition struct_json :: "'s tag list \<Rightarrow> 's \<Rightarrow> json option" where
  "struct_json ts s = map_option JObj (object_json ts s)"

definition decoders :: "'s tag list \<Rightarrow> 's field_decoder list" where
  "decoders ts = map (\<lambda>(name, present, enc, dec). (name, dec)) ts"

text \<open>
  \<open>carries t s (Z, g)\<close>: reading back the field that \<open>t\<close> writes for \<open>s\<close> is \<open>g\<close>, when the struct that
  is stored over satisfies \<open>Z\<close> (its field is still zero); a field that is not written is one that
  \<open>g\<close> leaves alone.
\<close>

fun carries :: "'s tag \<Rightarrow> 's \<Rightarrow> ('s \<Rightarrow> bool) \<times> ('s \<Rightarrow> 's) \<Rightarrow> bool" where
  "carries (name, present, enc, dec) s (Z, g) \<longleftrightarrow>
     (\<forall>acc. Z acc \<longrightarrow> (if present s then \<forall>j. enc s = Some j \<longrightarrow> dec j acc = (g acc, False) else g acc = acc))"

lemma carries_tag:
  "codec enc dec z (get s) v \<Longrightarrow> carries (tag name get put enc dec) s (\<lambda>acc. get acc = z, put (\<lambda>_. v))"
  by (simp add: tag_def omit_def field_def codec_def)

lemma carries_omit:
  assumes "codec enc dec z (get s) v" "blank (get s) \<Longrightarrow> v = z" "\<And>acc. put (\<lambda>_. get acc) acc = acc"
  shows "carries (omit blank name get put enc dec) s (\<lambda>acc. get acc = z, put (\<lambda>_. v))"
  using assms by (auto simp: omit_def field_def codec_def)

lemma find_folded:
  "distinct (map (\<lambda>t. foldName (fst t)) fs) \<Longrightarrow> (name, dec) \<in> set fs \<Longrightarrow>
   List.find (\<lambda>(n, d). foldName n = foldName name) fs = Some (name, dec)"
  by (induction fs) force+

lemma object_roundtrip:
  assumes "distinct (map (\<lambda>t. foldName (fst t)) fs)"
  shows "list_all2 (\<lambda>t zg. carries t s zg) ts zgs \<Longrightarrow> set (decoders ts) \<subseteq> set fs \<Longrightarrow>
    sorted_wrt (\<lambda>(_, g) (Z, _). \<forall>acc. Z acc \<longrightarrow> Z (g acc)) zgs \<Longrightarrow> list_all (\<lambda>(Z, _). Z acc) zgs \<Longrightarrow>
    object_json ts s = Some kvs \<Longrightarrow> into_object fs kvs acc = (fold snd zgs acc, False)"
proof (induction ts zgs arbitrary: acc kvs rule: list_all2_induct)
  case (Cons t ts zg zgs)
  obtain name present enc dec where t: "t = (name, present, enc, dec)" by (cases t) auto
  obtain Z g where zg: "zg = (Z, g)" by (cases zg) auto
  have c: "present s \<Longrightarrow> enc s = Some j \<Longrightarrow> dec j acc = (g acc, False)" "\<not> present s \<Longrightarrow> g acc = acc" for j
    using Cons.hyps(1) Cons.prems(3) by (auto simp: t zg)
  have rest: "set (decoders ts) \<subseteq> set fs" "sorted_wrt (\<lambda>(_, g) (Z, _). \<forall>acc. Z acc \<longrightarrow> Z (g acc)) zgs"
    using Cons.prems(1,2) by (auto simp: decoders_def)
  have zero: "list_all (\<lambda>(Z, _). Z (g acc)) zgs"
    using Cons.prems(2,3) by (fastforce simp: zg list_all_iff)
  have IH: "into_object fs kvs' (g acc) = (fold snd zgs (g acc), False)" if "object_json ts s = Some kvs'" for kvs'
    using Cons.IH [OF rest zero that] .
  show ?case
  proof (cases "present s")
    case True
    then obtain j kvs' where j: "enc s = Some j" "object_json ts s = Some kvs'" "kvs = (name, j) # kvs'"
      using Cons.prems(4) by (auto simp: t split: option.splits)
    have "(name, dec) \<in> set fs" using Cons.prems(1) by (auto simp: t decoders_def)
    from find_folded [OF assms this] show ?thesis
      using c(1) [OF True j(1)] IH [OF j(2)] by (simp add: j(3) zg)
  next
    case False
    with Cons.prems(4) have "object_json ts s = Some kvs" by (simp add: t)
    from IH [OF this] c(2) [OF False] show ?thesis by (simp add: zg)
  qed
qed simp

lemma struct_roundtrip:
  assumes "distinct (map (\<lambda>t. foldName (fst t)) (decoders ts))" "list_all2 (\<lambda>t zg. carries t s zg) ts zgs"
    "sorted_wrt (\<lambda>(_, g) (Z, _). \<forall>acc. Z acc \<longrightarrow> Z (g acc)) zgs" "list_all (\<lambda>(Z, _). Z zero) zgs" "fold snd zgs zero = v"
  shows "codec (struct_json ts) (into_struct (decoders ts)) zero s v"
  using object_roundtrip [OF assms(1,2) order_refl assms(3,4)] assms(5)
  by (auto simp: codec_def struct_json_def)

lemma struct_not_null: "struct_json ts s \<noteq> Some JNull"
  by (simp add: struct_json_def)

section \<open>types.go\<close>

fun role_string :: "role \<Rightarrow> string" where
  "role_string RoleNone = ''''"
| "role_string RoleMafia = ''MAFIA''"
| "role_string RoleCitizen = ''CITIZEN''"
| "role_string RoleDoctor = ''DOCTOR''"
| "role_string RolePolice = ''POLICE''"

fun team_string :: "team \<Rightarrow> string" where
  "team_string TeamNone = ''''"
| "team_string TeamMafia = ''MAFIA''"
| "team_string TeamCitizen = ''CITIZEN''"

fun phase_string :: "phase \<Rightarrow> string" where
  "phase_string PhaseNone = ''''"
| "phase_string PhaseLobby = ''LOBBY''"
| "phase_string PhaseIntro = ''INTRO''"
| "phase_string PhaseNight = ''NIGHT''"
| "phase_string PhaseDay = ''DAY''"
| "phase_string PhaseVote = ''VOTE''"
| "phase_string PhaseRecount = ''RECOUNT''"
| "phase_string PhaseEnd = ''END''"

fun night_step_string :: "night_step \<Rightarrow> string" where
  "night_step_string NightStepNone = ''''"
| "night_step_string NightStepIntro = ''INTRO''"
| "night_step_string NightStepMafia = ''MAFIA''"
| "night_step_string NightStepPolice = ''POLICE''"
| "night_step_string NightStepDoctor = ''DOCTOR''"
| "night_step_string NightStepResolved = ''RESOLVED''"

fun end_reason_string :: "end_reason \<Rightarrow> string" where
  "end_reason_string EndMafiaWin = ''MAFIA_WIN''"
| "end_reason_string EndCitizenWin = ''CITIZEN_WIN''"
| "end_reason_string EndHostForceEnd = ''HOST_FORCE_END''"

text \<open>
  The readers of the enumerations. Go keeps whatever string is there; here a string that is none of
  the constants, which the datatypes cannot hold and the server never writes, is a decoding error.
\<close>

definition into_role :: "json \<Rightarrow> role \<Rightarrow> role \<times> bool" where
  "into_role = into_enum role_string [RoleNone, RoleMafia, RoleCitizen, RoleDoctor, RolePolice]"

definition into_team :: "json \<Rightarrow> team \<Rightarrow> team \<times> bool" where
  "into_team = into_enum team_string [TeamNone, TeamMafia, TeamCitizen]"

definition into_phase :: "json \<Rightarrow> phase \<Rightarrow> phase \<times> bool" where
  "into_phase = into_enum phase_string
     [PhaseNone, PhaseLobby, PhaseIntro, PhaseNight, PhaseDay, PhaseVote, PhaseRecount, PhaseEnd]"

definition into_night_step :: "json \<Rightarrow> night_step \<Rightarrow> night_step \<times> bool" where
  "into_night_step = into_enum night_step_string
     [NightStepNone, NightStepIntro, NightStepMafia, NightStepPolice, NightStepDoctor, NightStepResolved]"

definition into_end_reason :: "json \<Rightarrow> end_reason \<Rightarrow> end_reason \<times> bool" where
  "into_end_reason = into_enum end_reason_string [EndMafiaWin, EndCitizenWin, EndHostForceEnd]"

lemma codec_enums [intro]:
  "codec (enum_json role_string) into_role r' r r"
  "codec (enum_json team_string) into_team t' t t"
  "codec (enum_json phase_string) into_phase p' p p"
  "codec (enum_json night_step_string) into_night_step st' st st"
  "codec (enum_json end_reason_string) into_end_reason e' e e"
  unfolding into_role_def into_team_def into_phase_def into_night_step_def into_end_reason_def
  by ((rule codec_enum, cases r; simp), (rule codec_enum, cases t; simp), (rule codec_enum, cases p; simp),
      (rule codec_enum, cases st; simp), (rule codec_enum, cases e; simp))

text \<open>The structs, one tag per field.\<close>

definition zero_player :: player where
  "zero_player = \<lparr>ID = '''', Name = '''', Alive = False, Role = RoleNone, Keyword = ''''\<rparr>"

definition player_tags :: "player tag list" where
  "player_tags =
     [tag ''id'' ID ID_update string_json into_string,
      tag ''name'' Name Name_update string_json into_string,
      tag ''alive'' Alive Alive_update bool_json into_bool,
      omit (\<lambda>r. r = RoleNone) ''role'' Role Role_update (enum_json role_string) into_role,
      omit (\<lambda>k. k = '''') ''keyword'' Keyword Keyword_update string_json into_string]"

definition zero_check :: police_check_record where
  "zero_check = \<lparr>pcDay = 0, pcTarget = '''', pcTeam = TeamNone\<rparr>"

definition check_tags :: "police_check_record tag list" where
  "check_tags =
     [tag ''day'' pcDay pcDay_update int_json into_int,
      tag ''target'' pcTarget pcTarget_update string_json into_string,
      tag ''team'' pcTeam pcTeam_update (enum_json team_string) into_team]"

text \<open>
  \<open>PendingGameEnd\<close>: its reason has a zero value while the struct is being read, which the finished
  value cannot keep.
\<close>

record end_row =
  erReason :: "end_reason option"
  erWinner :: "team option"
  erDeadline :: time

fun reason_string :: "end_reason option \<Rightarrow> string" where
  "reason_string None = ''''"
| "reason_string (Some r) = end_reason_string r"

definition into_reason :: "json \<Rightarrow> end_reason option \<Rightarrow> end_reason option \<times> bool" where
  "into_reason = into_enum reason_string [None, Some EndMafiaWin, Some EndCitizenWin, Some EndHostForceEnd]"

definition zero_end_row :: end_row where
  "zero_end_row = \<lparr>erReason = None, erWinner = None, erDeadline = zero_time\<rparr>"

definition end_row_of :: "pending_game_end \<Rightarrow> end_row" where
  "end_row_of e = \<lparr>erReason = Some (geReason e), erWinner = geWinner e, erDeadline = geDeadline e\<rparr>"

definition end_tags :: "(time \<Rightarrow> int) \<Rightarrow> end_row tag list" where
  "end_tags zone =
     [tag ''reason'' erReason erReason_update (enum_json reason_string) into_reason,
      omit (\<lambda>w. w = None) ''winner'' erWinner erWinner_update (pointer_json (enum_json team_string)) (into_pointer TeamNone into_team),
      tag ''deadline'' erDeadline erDeadline_update (time_json zone) into_time]"

definition game_end_json :: "(time \<Rightarrow> int) \<Rightarrow> pending_game_end option \<Rightarrow> json option" where
  "game_end_json zone = pointer_json (\<lambda>e. struct_json (end_tags zone) (end_row_of e))"

definition into_game_end :: "json \<Rightarrow> pending_game_end option \<Rightarrow> pending_game_end option \<times> bool" where
  "into_game_end j old =
     (if j = JNull then (None, False)
      else case into_struct (decoders (end_tags (\<lambda>_. 0))) j (case old of None \<Rightarrow> zero_end_row | Some e \<Rightarrow> end_row_of e) of
        (r, bad) \<Rightarrow>
          (case erReason r of
             None \<Rightarrow> (None, True)
           | Some reason \<Rightarrow> (Some \<lparr>geReason = reason, geWinner = erWinner r, geDeadline = erDeadline r\<rparr>, bad)))"

definition into_options :: "json \<Rightarrow> options \<Rightarrow> options \<times> bool" where
  "into_options = into_struct options_fields"

text \<open>\<open>omitempty\<close> has no effect on a struct such as \<open>time.Time\<close>, so those fields are always written.\<close>

definition state_tags :: "(time \<Rightarrow> int) \<Rightarrow> state tag list" where
  "state_tags zone =
     [tag ''gameId'' GameID GameID_update string_json into_string,
      tag ''phase'' Phase Phase_update (enum_json phase_string) into_phase,
      tag ''day'' Day Day_update int_json into_int,
      tag ''players'' Players Players_update (slice_json (struct_json player_tags)) (into_slice zero_player (into_struct (decoders player_tags))),
      tag ''hostId'' HostID HostID_update string_json into_string,
      tag ''settings'' Settings Settings_update (\<lambda>opts. Some (options_json opts)) into_options,
      tag ''startedAt'' StartedAt StartedAt_update (time_json zone) into_time,
      tag ''deadline'' Deadline Deadline_update (time_json zone) into_time,
      tag ''introSpeakerIdx'' IntroSpeakerIdx IntroSpeakerIdx_update int_json into_int,
      tag ''introSpeakerStartedAt'' IntroSpeakerStartedAt IntroSpeakerStartedAt_update (time_json zone) into_time,
      omit (\<lambda>x. x = '''') ''mafiaRepresentativeId'' MafiaRepresentativeID MafiaRepresentativeID_update string_json into_string,
      omit (\<lambda>x. x = None) ''pendingMafiaTarget'' PendingMafiaTarget PendingMafiaTarget_update (pointer_json string_json) (into_pointer '''' into_string),
      omit (\<lambda>x. x = None) ''pendingDoctorTarget'' PendingDoctorTarget PendingDoctorTarget_update (pointer_json string_json) (into_pointer '''' into_string),
      omit (\<lambda>x. x = None) ''pendingPoliceTarget'' PendingPoliceTarget PendingPoliceTarget_update (pointer_json string_json) (into_pointer '''' into_string),
      tag ''policeCheckedThisNight'' PoliceCheckedThisNight PoliceCheckedThisNight_update bool_json into_bool,
      omit (\<lambda>x. x = NightStepNone) ''nightStep'' NightStep NightStep_update (enum_json night_step_string) into_night_step,
      tag ''nightStepDeadline'' NightStepDeadline NightStepDeadline_update (time_json zone) into_time,
      omit (\<lambda>x. \<not> x) ''paused'' Paused Paused_update bool_json into_bool,
      tag ''pausedAt'' PausedAt PausedAt_update (time_json zone) into_time,
      omit (\<lambda>x. x = []) ''policeHistory'' PoliceHistory PoliceHistory_update (slice_json (struct_json check_tags)) (into_slice zero_check (into_struct (decoders check_tags))),
      tag ''votes'' Votes Votes_update strings_json into_strings,
      tag ''voteRound'' VoteRound VoteRound_update int_json into_int,
      omit (\<lambda>x. x = []) ''voteCandidates'' VoteCandidates VoteCandidates_update (slice_json string_json) (into_slice '''' into_string),
      omit (\<lambda>x. x = None) ''winner'' Winner Winner_update (pointer_json (enum_json team_string)) (into_pointer TeamNone into_team),
      omit (\<lambda>x. x = None) ''endReason'' EndReason EndReason_update (pointer_json (enum_json end_reason_string)) (into_pointer EndMafiaWin into_end_reason),
      omit (\<lambda>x. x = None) ''pendingGameEnd'' PendingGameEnd PendingGameEnd_update (game_end_json zone) into_game_end,
      tag ''lastTickAt'' LastTickAt LastTickAt_update (time_json zone) into_time]"

definition state_json :: "(time \<Rightarrow> int) \<Rightarrow> state \<Rightarrow> json option" where
  "state_json zone = struct_json (state_tags zone)"

definition into_state :: "json \<Rightarrow> state \<Rightarrow> state \<times> bool" where
  "into_state = into_struct (decoders (state_tags (\<lambda>_. 0)))"

lemma decoders_zone:
  "decoders (end_tags zone) = decoders (end_tags (\<lambda>_. 0))" "decoders (state_tags zone) = decoders (state_tags (\<lambda>_. 0))"
  by (simp_all add: decoders_def end_tags_def state_tags_def tag_def omit_def)

lemma folded_names:
  "distinct (map (\<lambda>t. foldName (fst t)) (decoders player_tags))" "distinct (map (\<lambda>t. foldName (fst t)) (decoders check_tags))"
  "distinct (map (\<lambda>t. foldName (fst t)) (decoders (end_tags zone)))" "distinct (map (\<lambda>t. foldName (fst t)) (decoders (state_tags zone)))"
  by (simp_all add: decoders_def player_tags_def check_tags_def end_tags_def state_tags_def tag_def omit_def field_def
      foldName_ascii upper_letters del: foldName.simps(2))

section \<open>What can be stored\<close>

text \<open>
  Strings that are UTF-8 and machine integers: the values that JSON does not change.
\<close>

definition player_text :: "player \<Rightarrow> bool" where
  "player_text p \<longleftrightarrow> valid_utf8 (ID p) \<and> valid_utf8 (Name p) \<and> valid_utf8 (Keyword p)"

definition check_text :: "police_check_record \<Rightarrow> bool" where
  "check_text r \<longleftrightarrow> int64_range (pcDay r) \<and> valid_utf8 (pcTarget r)"

definition target_text :: "player_id option \<Rightarrow> bool" where
  "target_text p \<longleftrightarrow> (case p of None \<Rightarrow> True | Some x \<Rightarrow> valid_utf8 x)"

definition storable :: "state \<Rightarrow> bool" where
  "storable s \<longleftrightarrow>
     list_all valid_utf8 [GameID s, HostID s, MafiaRepresentativeID s] \<and> list_all valid_utf8 (VoteCandidates s) \<and>
     list_all target_text [PendingMafiaTarget s, PendingDoctorTarget s, PendingPoliceTarget s] \<and>
     list_all player_text (Players s) \<and> list_all check_text (PoliceHistory s) \<and>
     list_all (\<lambda>(k, v). valid_utf8 k \<and> valid_utf8 v) (Votes s) \<and> gomap_ok (Votes s) \<and>
     list_all int64_range [Day s, IntroSpeakerIdx s, VoteRound s] \<and> options_in_range (Settings s)"

lemma codec_valid_string: "valid_utf8 s \<Longrightarrow> codec string_json into_string old s s"
  using codec_string [of old s] by (simp add: valid_utf8_def)

lemma string_not_null: "string_json s \<noteq> Some JNull" "enum_json str x \<noteq> Some JNull"
  by (simp_all add: string_json_def enum_json_def)

lemma codec_target:
  "target_text p \<Longrightarrow> codec (pointer_json string_json) (into_pointer '''' into_string) None p p"
  using codec_pointer [of p string_json into_string "''''" id] string_not_null(1)
  by (cases p) (simp_all add: target_text_def codec_valid_string)

lemma codec_enum_pointer:
  assumes "\<And>x. codec (enum_json str) dec zero x x"
  shows "codec (pointer_json (enum_json str)) (into_pointer zero dec) None p p"
  using codec_pointer [of p "enum_json str" dec zero id] assms string_not_null(2) [of str] by (cases p) simp_all

lemma codec_slice_id:
  assumes "list_all P xs" "\<And>x. P x \<Longrightarrow> codec enc dec zero x x"
  shows "codec (slice_json enc) (into_slice zero dec) [] xs xs"
  using codec_slice [of xs enc dec zero id] assms by (simp add: list_all_iff)

lemma codec_player:
  assumes "player_text p"
  shows "codec (struct_json player_tags) (into_struct (decoders player_tags)) zero_player p p"
proof (rule struct_roundtrip [OF folded_names(1)])
  show "list_all2 (\<lambda>t zg. carries t p zg) player_tags
    [(\<lambda>a. ID a = '''', ID_update (\<lambda>_. ID p)), (\<lambda>a. Name a = '''', Name_update (\<lambda>_. Name p)),
     (\<lambda>a. Alive a = False, Alive_update (\<lambda>_. Alive p)), (\<lambda>a. Role a = RoleNone, Role_update (\<lambda>_. Role p)),
     (\<lambda>a. Keyword a = '''', Keyword_update (\<lambda>_. Keyword p))]"
    unfolding player_tags_def
    by (intro list_all2_Cons [THEN iffD2] conjI carries_tag carries_omit list_all2_Nil [THEN iffD2] codec_valid_string codec_bool codec_enums)
       (use assms in \<open>simp_all add: player_text_def\<close>)
qed (simp_all add: zero_player_def)

lemma codec_check:
  assumes "check_text r"
  shows "codec (struct_json check_tags) (into_struct (decoders check_tags)) zero_check r r"
proof (rule struct_roundtrip [OF folded_names(2)])
  show "list_all2 (\<lambda>t zg. carries t r zg) check_tags
    [(\<lambda>a. pcDay a = 0, pcDay_update (\<lambda>_. pcDay r)), (\<lambda>a. pcTarget a = '''', pcTarget_update (\<lambda>_. pcTarget r)),
     (\<lambda>a. pcTeam a = TeamNone, pcTeam_update (\<lambda>_. pcTeam r))]"
    unfolding check_tags_def
    by (intro list_all2_Cons [THEN iffD2] conjI carries_tag carries_omit list_all2_Nil [THEN iffD2] codec_valid_string codec_int codec_enums)
       (use assms in \<open>simp_all add: check_text_def\<close>)
qed (simp_all add: zero_check_def)

lemma codec_reason: "codec (enum_json reason_string) into_reason old (Some r) (Some r)"
  unfolding into_reason_def by (rule codec_enum) (cases r; simp)

lemma codec_end_row:
  "codec (struct_json (end_tags zone)) (into_struct (decoders (end_tags zone))) zero_end_row (end_row_of e) (end_row_of e)"
proof (rule struct_roundtrip [OF folded_names(3)])
  show "list_all2 (\<lambda>t zg. carries t (end_row_of e) zg) (end_tags zone)
    [(\<lambda>a. erReason a = None, erReason_update (\<lambda>_. Some (geReason e))), (\<lambda>a. erWinner a = None, erWinner_update (\<lambda>_. geWinner e)),
     (\<lambda>a. erDeadline a = zero_time, erDeadline_update (\<lambda>_. geDeadline e))]"
    unfolding end_tags_def
    by (intro list_all2_Cons [THEN iffD2] conjI carries_tag carries_omit list_all2_Nil [THEN iffD2])
       (simp_all add: end_row_of_def codec_reason codec_enum_pointer codec_enums codec_time)
qed (simp_all add: zero_end_row_def end_row_of_def)

lemma codec_game_end: "codec (game_end_json zone) into_game_end None p p"
proof (cases p)
  case (Some e)
  then show ?thesis
    using codec_end_row [of zone e]
    by (auto simp: codec_def game_end_json_def pointer_json_def into_game_end_def struct_not_null decoders_zone(1) [of zone] end_row_of_def)
qed (simp add: codec_def game_end_json_def pointer_json_def into_game_end_def)

lemma codec_options: "options_in_range opts \<Longrightarrow> codec (\<lambda>opts. Some (options_json opts)) into_options old opts opts"
  by (simp add: codec_def into_options_def options_roundtrip_struct del: into_struct.simps)

definition state_slots :: "state \<Rightarrow> ((state \<Rightarrow> bool) \<times> (state \<Rightarrow> state)) list" where
  "state_slots s =
    [(\<lambda>a. GameID a = '''', GameID_update (\<lambda>_. GameID s)),
     (\<lambda>a. Phase a = PhaseNone, Phase_update (\<lambda>_. Phase s)),
     (\<lambda>a. Day a = 0, Day_update (\<lambda>_. Day s)),
     (\<lambda>a. Players a = [], Players_update (\<lambda>_. Players s)),
     (\<lambda>a. HostID a = '''', HostID_update (\<lambda>_. HostID s)),
     (\<lambda>a. Settings a = zero_options, Settings_update (\<lambda>_. Settings s)),
     (\<lambda>a. StartedAt a = zero_time, StartedAt_update (\<lambda>_. StartedAt s)),
     (\<lambda>a. Deadline a = zero_time, Deadline_update (\<lambda>_. Deadline s)),
     (\<lambda>a. IntroSpeakerIdx a = 0, IntroSpeakerIdx_update (\<lambda>_. IntroSpeakerIdx s)),
     (\<lambda>a. IntroSpeakerStartedAt a = zero_time, IntroSpeakerStartedAt_update (\<lambda>_. IntroSpeakerStartedAt s)),
     (\<lambda>a. MafiaRepresentativeID a = '''', MafiaRepresentativeID_update (\<lambda>_. MafiaRepresentativeID s)),
     (\<lambda>a. PendingMafiaTarget a = None, PendingMafiaTarget_update (\<lambda>_. PendingMafiaTarget s)),
     (\<lambda>a. PendingDoctorTarget a = None, PendingDoctorTarget_update (\<lambda>_. PendingDoctorTarget s)),
     (\<lambda>a. PendingPoliceTarget a = None, PendingPoliceTarget_update (\<lambda>_. PendingPoliceTarget s)),
     (\<lambda>a. PoliceCheckedThisNight a = False, PoliceCheckedThisNight_update (\<lambda>_. PoliceCheckedThisNight s)),
     (\<lambda>a. NightStep a = NightStepNone, NightStep_update (\<lambda>_. NightStep s)),
     (\<lambda>a. NightStepDeadline a = zero_time, NightStepDeadline_update (\<lambda>_. NightStepDeadline s)),
     (\<lambda>a. Paused a = False, Paused_update (\<lambda>_. Paused s)),
     (\<lambda>a. PausedAt a = zero_time, PausedAt_update (\<lambda>_. PausedAt s)),
     (\<lambda>a. PoliceHistory a = [], PoliceHistory_update (\<lambda>_. PoliceHistory s)),
     (\<lambda>a. Votes a = [], Votes_update (\<lambda>_. sort_key fst (Votes s))),
     (\<lambda>a. VoteRound a = 0, VoteRound_update (\<lambda>_. VoteRound s)),
     (\<lambda>a. VoteCandidates a = [], VoteCandidates_update (\<lambda>_. VoteCandidates s)),
     (\<lambda>a. Winner a = None, Winner_update (\<lambda>_. Winner s)),
     (\<lambda>a. EndReason a = None, EndReason_update (\<lambda>_. EndReason s)),
     (\<lambda>a. PendingGameEnd a = None, PendingGameEnd_update (\<lambda>_. PendingGameEnd s)),
     (\<lambda>a. LastTickAt a = zero_time, LastTickAt_update (\<lambda>_. LastTickAt s))]"

lemma state_carries:
  assumes "storable s"
  shows "list_all2 (\<lambda>t zg. carries t s zg) (state_tags zone) (state_slots s)"
proof -
  note p = assms [unfolded storable_def]
  have "codec (slice_json (struct_json player_tags)) (into_slice zero_player (into_struct (decoders player_tags))) [] (Players s) (Players s)"
    using p by (blast intro: codec_slice_id codec_player)
  moreover have "codec (slice_json (struct_json check_tags)) (into_slice zero_check (into_struct (decoders check_tags))) [] (PoliceHistory s) (PoliceHistory s)"
    using p by (blast intro: codec_slice_id codec_check)
  moreover have "codec (slice_json string_json) (into_slice '''' into_string) [] (VoteCandidates s) (VoteCandidates s)"
    using p by (blast intro: codec_slice_id codec_valid_string)
  moreover have "codec strings_json into_strings [] (Votes s) (sort_key fst (Votes s))"
    using p by (intro codec_strings) (auto simp: list_all_iff)
  moreover have "codec (pointer_json string_json) (into_pointer '''' into_string) None (PendingMafiaTarget s) (PendingMafiaTarget s)"
    "codec (pointer_json string_json) (into_pointer '''' into_string) None (PendingDoctorTarget s) (PendingDoctorTarget s)"
    "codec (pointer_json string_json) (into_pointer '''' into_string) None (PendingPoliceTarget s) (PendingPoliceTarget s)"
    "valid_utf8 (GameID s)" "valid_utf8 (HostID s)" "valid_utf8 (MafiaRepresentativeID s)"
    "int64_range (Day s)" "int64_range (IntroSpeakerIdx s)" "int64_range (VoteRound s)" "options_in_range (Settings s)"
    using p by (simp_all add: codec_target)
  ultimately show ?thesis
    unfolding state_tags_def state_slots_def
    by (intro list_all2_Cons [THEN iffD2] conjI carries_tag carries_omit list_all2_Nil [THEN iffD2])
       (simp_all add: codec_valid_string codec_enums codec_int codec_bool codec_time codec_enum_pointer codec_game_end codec_options)
qed

lemma state_slots_apart: "sorted_wrt (\<lambda>(_, g) (Z, _). \<forall>acc. Z acc \<longrightarrow> Z (g acc)) (state_slots s)"
  by (simp add: state_slots_def)

lemma codec_state:
  assumes "storable s"
  shows "codec (state_json zone) into_state zero_state s (s\<lparr>Votes := sort_key fst (Votes s)\<rparr>)"
  unfolding state_json_def into_state_def decoders_zone(2) [of zone, symmetric]
proof (rule struct_roundtrip [OF folded_names(4) state_carries [OF assms] state_slots_apart])
  show "list_all (\<lambda>(Z, _). Z zero_state) (state_slots s)" by (simp add: state_slots_def zero_state_def)
  show "fold snd (state_slots s) zero_state = s\<lparr>Votes := sort_key fst (Votes s)\<rparr>"
    by (rule state.equality) (simp_all add: state_slots_def)
qed

section \<open>Success and the round trip\<close>

text \<open>The instants a state holds; writing fails only on an instant that has no text.\<close>

definition datable :: "(time \<Rightarrow> int) \<Rightarrow> time \<Rightarrow> bool" where
  "datable zone t \<longleftrightarrow> time_text (zone t) t \<noteq> None"

definition state_times :: "state \<Rightarrow> time list" where
  "state_times s =
     [StartedAt s, Deadline s, IntroSpeakerStartedAt s, NightStepDeadline s, PausedAt s, LastTickAt s] @
     (case PendingGameEnd s of None \<Rightarrow> [] | Some e \<Rightarrow> [geDeadline e])"

lemma object_json_some: "list_all (\<lambda>(name, present, enc, dec). enc s \<noteq> None) ts \<Longrightarrow> object_json ts s \<noteq> None"
  by (induction ts s rule: object_json.induct) auto

lemma all_json_some: "(\<And>x. x \<in> set xs \<Longrightarrow> enc x \<noteq> None) \<Longrightarrow> all_json enc xs \<noteq> None"
  by (induction xs) (fastforce split: option.split)+

lemma struct_json_some:
  "struct_json player_tags p \<noteq> None" "struct_json check_tags r \<noteq> None"
  "datable zone (geDeadline e) \<Longrightarrow> struct_json (end_tags zone) (end_row_of e) \<noteq> None"
proof -
  note defs = tag_def omit_def string_json_def int_json_def bool_json_def enum_json_def time_json_def pointer_json_def
    datable_def end_row_of_def
  have "object_json player_tags p \<noteq> None" "object_json check_tags r \<noteq> None"
    by (rule object_json_some, simp add: player_tags_def check_tags_def defs)+
  moreover have "object_json (end_tags zone) (end_row_of e) \<noteq> None" if "datable zone (geDeadline e)"
    using that by (intro object_json_some) (simp add: end_tags_def defs split: option.split)
  ultimately show "struct_json player_tags p \<noteq> None" "struct_json check_tags r \<noteq> None"
    "datable zone (geDeadline e) \<Longrightarrow> struct_json (end_tags zone) (end_row_of e) \<noteq> None"
    by (simp_all add: struct_json_def)
qed

lemma slice_json_some: "(\<And>x. x \<in> set xs \<Longrightarrow> enc x \<noteq> None) \<Longrightarrow> slice_json enc xs \<noteq> None"
  using all_json_some [of xs enc] by (simp add: slice_json_def)

lemma state_json_some:
  assumes "list_all (datable zone) (state_times s)"
  shows "state_json zone s \<noteq> None"
proof -
  have "slice_json (struct_json player_tags) (Players s) \<noteq> None" "slice_json (struct_json check_tags) (PoliceHistory s) \<noteq> None"
    "slice_json string_json (VoteCandidates s) \<noteq> None"
    by (rule slice_json_some, simp add: struct_json_some string_json_def del: not_None_eq)+
  moreover have "game_end_json zone (PendingGameEnd s) \<noteq> None"
    using assms struct_json_some(3) [of zone]
    by (auto simp: game_end_json_def pointer_json_def state_times_def simp del: not_None_eq split: option.splits)
  moreover have "list_all (\<lambda>t. time_json zone t \<noteq> None)
      [StartedAt s, Deadline s, IntroSpeakerStartedAt s, NightStepDeadline s, PausedAt s, LastTickAt s]"
    using assms by (simp add: state_times_def time_json_def datable_def)
  ultimately have "list_all (\<lambda>(name, present, enc, dec). enc s \<noteq> None) (state_tags zone)"
    by (simp add: state_tags_def tag_def omit_def string_json_def int_json_def bool_json_def enum_json_def strings_json_def
        pointer_json_def split: option.split)
  then show ?thesis using object_json_some [of s "state_tags zone"] by (simp add: state_json_def struct_json_def)
qed

text \<open>
  A saved state is read back unchanged. Whatever the game has reached, if its strings are UTF-8, its
  numbers machine integers and its instants dates that RFC 3339 can write, then marshalling
  succeeds and unmarshalling the result gives the state, with all 27 fields; the ballots, a
  Go map, come back ordered by voter.
\<close>
theorem state_json_roundtrip:
  assumes "storable s" "list_all (datable zone) (state_times s)"
  shows "\<exists>j. state_json zone s = Some j \<and> into_state j zero_state = (s\<lparr>Votes := sort_key fst (Votes s)\<rparr>, False)"
  using codec_state [OF assms(1), of zone] state_json_some [OF assms(2)] by (auto simp: codec_def)

lemma to_valid_ascii: "list_all (\<lambda>c. of_char c < (128 :: nat)) s \<Longrightarrow> valid_utf8 s"
proof (induction s)
  case (Cons c s)
  then have "rune_width (c # s) = 1" by (simp add: rune_width_def byte_in_def)
  with Cons show ?case by (simp add: valid_utf8_def)
qed (simp add: valid_utf8_def)

definition demo_saved :: state where
  "demo_saved = zero_state\<lparr>GameID := ''g'', Phase := PhaseVote, Day := 2,
     Players := [\<lparr>ID = ''a'', Name = ''Ann'', Alive = True, Role = RoleMafia, Keyword = ''''\<rparr>,
       \<lparr>ID = ''b'', Name = ''Bob'', Alive = False, Role = RoleNone, Keyword = ''k''\<rparr>],
     Votes := [(''b'', ''a''), (''a'', ''b'')], Deadline := 1234567890, PendingMafiaTarget := Some ''b'',
     PendingGameEnd := Some \<lparr>geReason = EndMafiaWin, geWinner = Some TeamMafia, geDeadline = 5\<rparr>\<rparr>"

lemma demo_storable: "storable demo_saved" by code_simp

lemma demo_datable: "list_all (datable (\<lambda>_. 540)) (state_times demo_saved)"
  by (simp add: demo_saved_def zero_state_def state_times_def datable_def time_text_def day_ns_def second_def
      year_of.simps year_length_def leap_def)

theorem state_json_roundtrip_witness:
  "\<exists>j. state_json (\<lambda>_. 540) demo_saved = Some j \<and>
     into_state j zero_state = (demo_saved\<lparr>Votes := [(''a'', ''b''), (''b'', ''a'')]\<rparr>, False)"
proof -
  note demo_storable
  moreover note demo_datable
  moreover have "sort_key fst (Votes demo_saved) = [(''a'', ''b''), (''b'', ''a'')]"
    by (simp add: demo_saved_def)
  ultimately show ?thesis using state_json_roundtrip [of demo_saved "\<lambda>_. 540"] by simp
qed

end
