(* ===== verification/Persist.thy ===== *)
theory Persist
  imports Encoding
begin

text \<open>
  \<open>internal/persistence/sqlite_store.go\<close> with its columns: what is in the database are JSON texts and
  strings, written with \<open>json.Marshal\<close> and read with \<open>json.Unmarshal\<close>. The operations of theory
  Store are their abstraction: a row stands for the value it decodes to, and every operation
  commutes with decoding. The second part is the opening of the store, with every step that can fail.
\<close>

section \<open>Rows\<close>

definition zero_member_row :: persisted_member where
  "zero_member_row = \<lparr>pmID = '''', pmName = '''', pmToken = '''', pmConnected = False, pmJoinedAt = zero_time\<rparr>"

definition member_tags :: "(time \<Rightarrow> int) \<Rightarrow> persisted_member tag list" where
  "member_tags zone =
     [tag ''id'' pmID pmID_update string_json into_string,
      tag ''name'' pmName pmName_update string_json into_string,
      tag ''token'' pmToken pmToken_update string_json into_string,
      tag ''connected'' pmConnected pmConnected_update bool_json into_bool,
      tag ''joinedAt'' pmJoinedAt pmJoinedAt_update (time_json zone) into_time]"

definition members_json :: "(time \<Rightarrow> int) \<Rightarrow> persisted_member list \<Rightarrow> json option" where
  "members_json zone = slice_json (struct_json (member_tags zone))"

definition into_members :: "json \<Rightarrow> persisted_member list \<Rightarrow> persisted_member list \<times> bool" where
  "into_members = into_slice zero_member_row (into_struct (decoders (member_tags (\<lambda>_. 0))))"

definition reveal_json :: "player list \<Rightarrow> json option" where
  "reveal_json = slice_json (struct_json player_tags)"

definition into_reveal :: "json \<Rightarrow> player list \<Rightarrow> player list \<times> bool" where
  "into_reveal = into_slice zero_player (into_struct (decoders player_tags))"

text \<open>A JSON column is \<open>None\<close> when its bytes are not JSON.\<close>

record snapshot_row =
  ssGameID :: string
  ssState :: "json option"
  ssMembers :: "json option"
  ssHostID :: string

record result_row =
  rrGameID :: string
  rrStartedAt :: time
  rrEndedAt :: time
  rrWinner :: "string option"
  rrEndReason :: string
  rrOptions :: "json option"
  rrMembers :: "json option"
  rrReveal :: "json option"

record disk =
  dk_snapshot :: "snapshot_row option"
  dk_results :: "result_row list"
  dk_events :: "event_row list"
  dk_open :: bool
  dk_faults :: "nat \<Rightarrow> bool"

definition disk_exec :: "disk \<Rightarrow> bool \<times> disk" where
  "disk_exec d = (dk_open d \<and> \<not> dk_faults d 0, d\<lparr>dk_faults := (\<lambda>n. dk_faults d (Suc n))\<rparr>)"

definition unmarshal :: "(json \<Rightarrow> 'a \<Rightarrow> 'a \<times> bool) \<Rightarrow> 'a \<Rightarrow> json option \<Rightarrow> 'a option" where
  "unmarshal dec zero raw =
     (case raw of None \<Rightarrow> None | Some j \<Rightarrow> (case dec j zero of (x, bad) \<Rightarrow> if bad then None else Some x))"

section \<open>The operations\<close>

definition disk_SaveSnapshot :: "(time \<Rightarrow> int) \<Rightarrow> snapshot \<Rightarrow> disk \<Rightarrow> disk \<times> store_error" where
  "disk_SaveSnapshot zone snap d =
     (case state_json zone (snState snap) of
        None \<Rightarrow> (d, Some OtherError)
      | Some stateJSON \<Rightarrow>
          (case members_json zone (snMembers snap) of
             None \<Rightarrow> (d, Some OtherError)
           | Some memberJSON \<Rightarrow>
               let (good, d) = disk_exec d in
               if \<not> good then (d, Some OtherError)
               else (d\<lparr>dk_snapshot := Some \<lparr>ssGameID = snGameID snap, ssState = Some stateJSON,
                       ssMembers = Some memberJSON, ssHostID = snHostID snap\<rparr>\<rparr>, None)))"

definition snapshot_of :: "snapshot_row \<Rightarrow> snapshot option" where
  "snapshot_of row =
     (case unmarshal into_state zero_state (ssState row) of
        None \<Rightarrow> None
      | Some st \<Rightarrow>
          (case unmarshal into_members [] (ssMembers row) of
             None \<Rightarrow> None
           | Some members \<Rightarrow>
               Some \<lparr>snGameID = ssGameID row, snState = st, snMembers = members, snHostID = ssHostID row\<rparr>))"

definition disk_LoadActiveSnapshot :: "disk \<Rightarrow> disk \<times> (go_error + snapshot option)" where
  "disk_LoadActiveSnapshot d =
     (let (good, d) = disk_exec d in
      if \<not> good then (d, Inl OtherError)
      else case dk_snapshot d of
        None \<Rightarrow> (d, Inr None)
      | Some row \<Rightarrow> (case snapshot_of row of None \<Rightarrow> (d, Inl OtherError) | Some snap \<Rightarrow> (d, Inr (Some snap))))"

definition disk_DeleteActiveSnapshot :: "disk \<Rightarrow> disk \<times> store_error" where
  "disk_DeleteActiveSnapshot d =
     (let (good, d) = disk_exec d in
      if \<not> good then (d, Some OtherError) else (d\<lparr>dk_snapshot := None\<rparr>, None))"

text \<open>The row of a result, when its three JSON columns can be written.\<close>

definition row_of_result :: "(time \<Rightarrow> int) \<Rightarrow> game_result \<Rightarrow> result_row option" where
  "row_of_result zone r =
     (case members_json zone (grMembers r) of
        None \<Rightarrow> None
      | Some membersJSON \<Rightarrow>
          (case reveal_json (grReveal r) of
             None \<Rightarrow> None
           | Some revealJSON \<Rightarrow>
               Some \<lparr>rrGameID = grGameID r, rrStartedAt = grStartedAt r, rrEndedAt = grEndedAt r,
                 rrWinner = map_option team_string (grWinner r), rrEndReason = end_reason_string (grEndReason r),
                 rrOptions = Some (options_json (grOptions r)), rrMembers = Some membersJSON, rrReveal = Some revealJSON\<rparr>))"

definition disk_SaveResultAndClearActive :: "(time \<Rightarrow> int) \<Rightarrow> game_result \<Rightarrow> disk \<Rightarrow> disk \<times> store_error" where
  "disk_SaveResultAndClearActive zone r d0 =
     (if \<not> dk_open d0 then (d0, Some OtherError)
      else case row_of_result zone r of
        None \<Rightarrow> (d0, Some OtherError)
      | Some row \<Rightarrow>
          let (begun, d) = disk_exec d0 in
          if \<not> begun then (d, Some OtherError)
          else let (inserted, d) = disk_exec d in
            if \<not> inserted \<or> rrGameID row \<in> rrGameID ` set (dk_results d) then (d, Some OtherError)
            else let tx = d\<lparr>dk_results := dk_results d @ [row]\<rparr>; (deleted, tx) = disk_exec tx in
              if \<not> deleted then (tx\<lparr>dk_results := dk_results d\<rparr>, Some OtherError)
              else let tx = tx\<lparr>dk_snapshot := None\<rparr>; (committed, tx) = disk_exec tx in
                if \<not> committed
                then (tx\<lparr>dk_results := dk_results d, dk_snapshot := dk_snapshot d\<rparr>, Some OtherError)
                else (tx, None))"

text \<open>
  Reading a result row. The winner and the reason are the constants the store writes.
\<close>

definition result_of :: "result_row \<Rightarrow> game_result option" where
  "result_of row =
     (case (unmarshal into_options zero_options (rrOptions row), unmarshal into_members [] (rrMembers row),
            unmarshal into_reveal [] (rrReveal row), into_pointer TeamNone into_team (case rrWinner row of None \<Rightarrow> JNull | Some w \<Rightarrow> JStr w) None,
            into_end_reason (JStr (rrEndReason row)) EndHostForceEnd) of
        (Some opts, Some members, Some reveal, (winner, False), (reason, False)) \<Rightarrow>
          Some \<lparr>grGameID = rrGameID row, grStartedAt = rrStartedAt row, grEndedAt = rrEndedAt row, grWinner = winner,
            grEndReason = reason, grOptions = opts, grMembers = members, grReveal = reveal\<rparr>
      | _ \<Rightarrow> None)"

fun scan_results :: "result_row list \<Rightarrow> game_result list option" where
  "scan_results [] = Some []"
| "scan_results (row # rows) =
     (case result_of row of None \<Rightarrow> None | Some r \<Rightarrow> map_option ((#) r) (scan_results rows))"

definition disk_ListResults :: "int \<Rightarrow> disk \<Rightarrow> disk \<times> (go_error + game_result list)" where
  "disk_ListResults limit d =
     (let limit = (if limit \<le> 0 then 100 else limit); (good, d) = disk_exec d in
      if \<not> good then (d, Inl OtherError)
      else case scan_results (take (nat limit) (sort_key (\<lambda>r. - rrEndedAt r) (dk_results d))) of
        None \<Rightarrow> (d, Inl OtherError)
      | Some rs \<Rightarrow> (d, Inr rs))"

section \<open>The abstraction\<close>

definition db_of :: "disk \<Rightarrow> db" where
  "db_of d = \<lparr>active_snapshot = map_option snapshot_of (dk_snapshot d), game_results = map (the \<circ> result_of) (dk_results d),
     events = dk_events d, db_open = dk_open d, db_faults = dk_faults d\<rparr>"

text \<open>Every row of the history can be read: an invariant of the operations.\<close>

definition readable :: "disk \<Rightarrow> bool" where
  "readable d \<longleftrightarrow> (\<forall>row \<in> set (dk_results d). result_of row \<noteq> None)"

definition member_text :: "(time \<Rightarrow> int) \<Rightarrow> persisted_member \<Rightarrow> bool" where
  "member_text zone m \<longleftrightarrow> valid_utf8 (pmID m) \<and> valid_utf8 (pmName m) \<and> valid_utf8 (pmToken m) \<and> datable zone (pmJoinedAt m)"

definition savable :: "(time \<Rightarrow> int) \<Rightarrow> snapshot \<Rightarrow> bool" where
  "savable zone snap \<longleftrightarrow> storable (snState snap) \<and> list_all (datable zone) (state_times (snState snap)) \<and>
     list_all (member_text zone) (snMembers snap)"

definition recordable :: "(time \<Rightarrow> int) \<Rightarrow> game_result \<Rightarrow> bool" where
  "recordable zone r \<longleftrightarrow> options_in_range (grOptions r) \<and> list_all (member_text zone) (grMembers r) \<and> list_all player_text (grReveal r)"

text \<open>What a snapshot is after it has been written and read: the ballots are in order.\<close>

definition saved :: "snapshot \<Rightarrow> snapshot" where
  "saved snap = snap\<lparr>snState := (snState snap)\<lparr>Votes := sort_key fst (Votes (snState snap))\<rparr>\<rparr>"

lemma folded_members: "distinct (map (\<lambda>t. foldName (fst t)) (decoders (member_tags zone)))"
  by (simp add: decoders_def member_tags_def tag_def omit_def field_def foldName_ascii upper_letters del: foldName.simps(2))

lemma decoders_members: "decoders (member_tags zone) = decoders (member_tags (\<lambda>_. 0))"
  by (simp add: decoders_def member_tags_def tag_def omit_def)

lemma codec_member:
  assumes "member_text zone m"
  shows "codec (struct_json (member_tags zone)) (into_struct (decoders (member_tags zone))) zero_member_row m m"
proof (rule struct_roundtrip [OF folded_members])
  show "list_all2 (\<lambda>t zg. carries t m zg) (member_tags zone)
    [(\<lambda>a. pmID a = '''', pmID_update (\<lambda>_. pmID m)), (\<lambda>a. pmName a = '''', pmName_update (\<lambda>_. pmName m)),
     (\<lambda>a. pmToken a = '''', pmToken_update (\<lambda>_. pmToken m)), (\<lambda>a. pmConnected a = False, pmConnected_update (\<lambda>_. pmConnected m)),
     (\<lambda>a. pmJoinedAt a = zero_time, pmJoinedAt_update (\<lambda>_. pmJoinedAt m))]"
    unfolding member_tags_def
    by (intro list_all2_Cons [THEN iffD2] conjI carries_tag list_all2_Nil [THEN iffD2] codec_valid_string codec_bool codec_time)
       (use assms in \<open>simp_all add: member_text_def\<close>)
qed (simp_all add: zero_member_row_def)

lemma codec_read:
  "codec enc dec zero x v \<Longrightarrow> enc x \<noteq> None \<Longrightarrow> \<exists>j. enc x = Some j \<and> unmarshal dec zero (Some j) = Some v"
  by (auto simp: codec_def unmarshal_def)

lemma members_read:
  assumes "list_all (member_text zone) ms"
  shows "\<exists>j. members_json zone ms = Some j \<and> unmarshal into_members [] (Some j) = Some ms"
proof (rule codec_read)
  show "codec (members_json zone) into_members [] ms ms"
    unfolding members_json_def into_members_def decoders_members [of zone, symmetric]
    using assms by (rule codec_slice_id) (rule codec_member)
  have "struct_json (member_tags zone) m \<noteq> None" if "m \<in> set ms" for m
  proof -
    have "object_json (member_tags zone) m \<noteq> None"
      using assms that
      by (intro object_json_some)
         (auto simp: member_tags_def tag_def omit_def string_json_def bool_json_def time_json_def list_all_iff member_text_def datable_def)
    then show ?thesis by (simp add: struct_json_def)
  qed
  then show "members_json zone ms \<noteq> None" unfolding members_json_def by (rule slice_json_some)
qed

lemma reveal_read:
  assumes "list_all player_text ps"
  shows "\<exists>j. reveal_json ps = Some j \<and> unmarshal into_reveal [] (Some j) = Some ps"
proof (rule codec_read)
  show "codec reveal_json into_reveal [] ps ps"
    unfolding reveal_json_def into_reveal_def using assms by (rule codec_slice_id) (rule codec_player)
  show "reveal_json ps \<noteq> None" unfolding reveal_json_def by (rule slice_json_some) (rule struct_json_some(1))
qed

section \<open>The operations commute with reading\<close>

lemma state_read:
  assumes "storable s" "list_all (datable zone) (state_times s)"
  shows "\<exists>j. state_json zone s = Some j \<and> unmarshal into_state zero_state (Some j) = Some (s\<lparr>Votes := sort_key fst (Votes s)\<rparr>)"
  by (rule codec_read) (rule codec_state [OF assms(1)], rule state_json_some [OF assms(2)])

lemma saved_row:
  assumes "savable zone snap" "state_json zone (snState snap) = Some sj" "members_json zone (snMembers snap) = Some mj"
  shows "snapshot_of \<lparr>ssGameID = snGameID snap, ssState = Some sj, ssMembers = Some mj, ssHostID = snHostID snap\<rparr> = Some (saved snap)"
  using assms state_read [of "snState snap" zone] members_read [of zone "snMembers snap"]
  by (auto simp: snapshot_of_def savable_def saved_def)

lemma result_row_read:
  assumes "recordable zone r"
  shows "\<exists>row. row_of_result zone r = Some row \<and> result_of row = Some r \<and> rrGameID row = grGameID r"
proof -
  obtain mj where m: "members_json zone (grMembers r) = Some mj" "unmarshal into_members [] (Some mj) = Some (grMembers r)"
    using assms members_read [of zone "grMembers r"] by (auto simp: recordable_def)
  obtain rj where v: "reveal_json (grReveal r) = Some rj" "unmarshal into_reveal [] (Some rj) = Some (grReveal r)"
    using assms reveal_read [of "grReveal r"] by (auto simp: recordable_def)
  have o: "unmarshal into_options zero_options (Some (options_json (grOptions r))) = Some (grOptions r)"
    using assms codec_options [of "grOptions r" zero_options] by (simp add: recordable_def codec_def unmarshal_def)
  have w: "into_pointer TeamNone into_team (case map_option team_string (grWinner r) of None \<Rightarrow> JNull | Some w \<Rightarrow> JStr w) None = (grWinner r, False)"
    using codec_enums(2) [of TeamNone] by (cases "grWinner r") (simp_all add: into_pointer_def codec_def enum_json_def)
  have e: "into_end_reason (JStr (end_reason_string (grEndReason r))) EndHostForceEnd = (grEndReason r, False)"
    using codec_enums(5) [of EndHostForceEnd] by (simp add: codec_def enum_json_def)
  show ?thesis using w by (cases "grWinner r") (simp_all add: row_of_result_def m(1) v(1) result_of_def m(2) v(2) o e)
qed

lemma db_of_exec: "disk_exec d = (good, d') \<Longrightarrow> db_exec (db_of d) = (good, db_of d') \<and>
    dk_snapshot d' = dk_snapshot d \<and> dk_results d' = dk_results d \<and> dk_open d' = dk_open d \<and> dk_events d' = dk_events d"
  by (auto simp: disk_exec_def db_exec_def db_of_def)

lemma save_refines:
  assumes "savable zone snap"
  shows "map_prod db_of id (disk_SaveSnapshot zone snap d) = SaveSnapshot (saved snap) (db_of d)"
proof -
  obtain sj mj where j: "state_json zone (snState snap) = Some sj" "members_json zone (snMembers snap) = Some mj"
    using assms state_read [of "snState snap" zone] members_read [of zone "snMembers snap"] by (auto simp: savable_def)
  obtain good d' where e: "disk_exec d = (good, d')" by fastforce
  show ?thesis
    using db_of_exec [OF e] saved_row [OF assms j] e by (simp add: disk_SaveSnapshot_def j SaveSnapshot_def db_of_def)
qed

lemma load_refines: "map_prod db_of id (disk_LoadActiveSnapshot d) = LoadActiveSnapshot (db_of d)"
proof -
  obtain good d' where e: "disk_exec d = (good, d')" by fastforce
  from db_of_exec [OF e] e show ?thesis
    by (auto simp: disk_LoadActiveSnapshot_def LoadActiveSnapshot_def db_of_def [of d] db_of_def [of d'] split: option.split)
qed

lemma delete_refines: "map_prod db_of id (disk_DeleteActiveSnapshot d) = DeleteActiveSnapshot (db_of d)"
proof -
  obtain good d' where e: "disk_exec d = (good, d')" by fastforce
  from db_of_exec [OF e] e show ?thesis
    by (simp add: disk_DeleteActiveSnapshot_def DeleteActiveSnapshot_def) (simp add: db_of_def)
qed

lemma result_of_id: "result_of row = Some r \<Longrightarrow> grGameID r = rrGameID row \<and> grEndedAt r = rrEndedAt row"
  by (auto simp: result_of_def split: option.splits prod.splits bool.splits)

lemma readable_ids:
  assumes "readable d"
  shows "grGameID ` set (game_results (db_of d)) = rrGameID ` set (dk_results d)"
proof -
  have "grGameID (the (result_of row)) = rrGameID row" if "row \<in> set (dk_results d)" for row
    using assms that result_of_id by (fastforce simp: readable_def)
  then show ?thesis by (auto simp: db_of_def image_iff)
qed

lemma finish_refines:
  assumes "recordable zone r" "readable d"
  shows "map_prod db_of id (disk_SaveResultAndClearActive zone r d) = SaveResultAndClearActive r (db_of d)"
proof -
  obtain row where row: "row_of_result zone r = Some row" "result_of row = Some r" "rrGameID row = grGameID r"
    using result_row_read [OF assms(1)] by blast
  have ids: "rrGameID row \<in> rrGameID ` set (dk_results d) \<longleftrightarrow> grGameID r \<in> grGameID ` set (game_results (db_of d))"
    using readable_ids [OF assms(2)] row(3) by simp
  then show ?thesis
    by (simp add: disk_SaveResultAndClearActive_def SaveResultAndClearActive_def row(1,3) disk_exec_def db_exec_def Let_def)
       (simp add: db_of_def row(2))
qed

lemma scan_readable: "\<forall>row \<in> set rows. result_of row \<noteq> None \<Longrightarrow> scan_results rows = Some (map (the \<circ> result_of) rows)"
  by (induction rows) auto

lemma sort_key_map_on:
  assumes "\<And>x. x \<in> set xs \<Longrightarrow> g (h x) = f x"
  shows "sort_key g (map h xs) = map h (sort_key f xs)"
proof -
  have ins: "insort_key g (h x) (map h ys) = map h (insort_key f x ys)" if "\<And>y. y \<in> insert x (set ys) \<Longrightarrow> g (h y) = f y" for x ys
    using that by (induction ys) auto
  show ?thesis using assms
  proof (induction xs)
    case (Cons x xs)
    then show ?case using ins [of x "sort_key f xs"] by simp
  qed simp
qed

lemma list_refines:
  assumes "readable d"
  shows "map_prod db_of id (disk_ListResults limit d) = ListResults limit (db_of d)"
proof -
  obtain good d' where e: "disk_exec d = (good, d')" by fastforce
  have g: "- grEndedAt ((the \<circ> result_of) row) = - rrEndedAt row" if "row \<in> set (dk_results d)" for row
    using assms that result_of_id by (fastforce simp: readable_def)
  note s = sort_key_map_on [of "dk_results d" "\<lambda>r. - grEndedAt r", OF g]
  have "scan_results (take n (sort_key (\<lambda>r. - rrEndedAt r) (dk_results d))) =
      Some (take n (sort_key (\<lambda>r. - grEndedAt r) (game_results (db_of d))))" for n
  proof -
    have "\<forall>row \<in> set (take n (sort_key (\<lambda>r. - rrEndedAt r) (dk_results d))). result_of row \<noteq> None"
      using assms unfolding readable_def by (metis in_set_takeD set_sort)
    from scan_readable [OF this] show ?thesis by (simp only: db_of_def db.select_convs s take_map)
  qed
  then show ?thesis using db_of_exec [OF e] e
    by (simp add: disk_ListResults_def ListResults_def) (simp add: db_of_def)
qed

lemma readable_kept:
  "readable d \<Longrightarrow> readable (fst (disk_SaveSnapshot zone snap d))"
  "readable d \<Longrightarrow> readable (fst (disk_LoadActiveSnapshot d))"
  "readable d \<Longrightarrow> readable (fst (disk_DeleteActiveSnapshot d))"
  "readable d \<Longrightarrow> recordable zone r \<Longrightarrow> readable (fst (disk_SaveResultAndClearActive zone r d))"
  "readable d \<Longrightarrow> readable (fst (disk_ListResults limit d))"
  using result_row_read [of zone r]
  by (auto simp: readable_def disk_SaveSnapshot_def disk_LoadActiveSnapshot_def disk_DeleteActiveSnapshot_def
      disk_SaveResultAndClearActive_def disk_ListResults_def disk_exec_def Let_def split: option.splits)

section \<open>Every run of the store\<close>

text \<open>The calls the session makes, and what they answer.\<close>

datatype store_call = SaveCall snapshot | LoadCall | DeleteCall | FinishCall game_result | ListCall int

datatype store_reply = Reply store_error | Loaded "go_error + snapshot option" | Listed "go_error + game_result list"

fun disk_call :: "(time \<Rightarrow> int) \<Rightarrow> store_call \<Rightarrow> disk \<Rightarrow> disk \<times> store_reply" where
  "disk_call zone (SaveCall snap) d = map_prod id Reply (disk_SaveSnapshot zone snap d)"
| "disk_call zone LoadCall d = map_prod id Loaded (disk_LoadActiveSnapshot d)"
| "disk_call zone DeleteCall d = map_prod id Reply (disk_DeleteActiveSnapshot d)"
| "disk_call zone (FinishCall r) d = map_prod id Reply (disk_SaveResultAndClearActive zone r d)"
| "disk_call zone (ListCall n) d = map_prod id Listed (disk_ListResults n d)"

fun db_call :: "store_call \<Rightarrow> db \<Rightarrow> db \<times> store_reply" where
  "db_call (SaveCall snap) d = map_prod id Reply (SaveSnapshot snap d)"
| "db_call LoadCall d = map_prod id Loaded (LoadActiveSnapshot d)"
| "db_call DeleteCall d = map_prod id Reply (DeleteActiveSnapshot d)"
| "db_call (FinishCall r) d = map_prod id Reply (SaveResultAndClearActive r d)"
| "db_call (ListCall n) d = map_prod id Listed (ListResults n d)"

fun run_calls :: "('c \<Rightarrow> 'd \<Rightarrow> 'd \<times> 'r) \<Rightarrow> 'c list \<Rightarrow> 'd \<Rightarrow> 'd \<times> 'r list" where
  "run_calls call [] d = (d, [])"
| "run_calls call (c # cs) d = (let (d, r) = call c d; (d, rs) = run_calls call cs d in (d, r # rs))"

fun storable_call :: "(time \<Rightarrow> int) \<Rightarrow> store_call \<Rightarrow> bool" where
  "storable_call zone (SaveCall snap) \<longleftrightarrow> savable zone snap"
| "storable_call zone (FinishCall r) \<longleftrightarrow> recordable zone r"
| "storable_call zone _ \<longleftrightarrow> True"

fun as_saved :: "store_call \<Rightarrow> store_call" where
  "as_saved (SaveCall snap) = SaveCall (saved snap)"
| "as_saved c = c"

text \<open>
  An implementation of calls: every admissible call commutes with the abstraction, up to a
  translation of the call, and keeps an invariant.
\<close>

locale implements =
  fixes impl :: "'c \<Rightarrow> 'd \<Rightarrow> 'd \<times> 'r"
    and spec :: "'c \<Rightarrow> 'a \<Rightarrow> 'a \<times> 'r"
    and view :: "'d \<Rightarrow> 'a"
    and inv :: "'d \<Rightarrow> bool"
    and admissible :: "'c \<Rightarrow> bool"
    and trans :: "'c \<Rightarrow> 'c"
  assumes commutes: "admissible c \<Longrightarrow> inv d \<Longrightarrow> map_prod view id (impl c d) = spec (trans c) (view d)"
    and keeps: "admissible c \<Longrightarrow> inv d \<Longrightarrow> inv (fst (impl c d))"
begin

lemma run_commutes:
  "list_all admissible cs \<Longrightarrow> inv d \<Longrightarrow>
   map_prod view id (run_calls impl cs d) = run_calls spec (map trans cs) (view d) \<and> inv (fst (run_calls impl cs d))"
proof (induction cs arbitrary: d)
  case (Cons c cs)
  obtain d1 r where d1: "impl c d = (d1, r)" by fastforce
  then have "spec (trans c) (view d) = (view d1, r)" "inv d1"
    using commutes [of c d] keeps [of c d] Cons.prems by simp_all
  then show ?case using Cons.IH [of d1] Cons.prems d1 by (auto simp: split_beta Let_def map_prod_def prod_eq_iff)
qed simp

end

lemma map_prod_reply: "map_prod f id (map_prod id k p) = map_prod id k (map_prod f id p)"
  by (cases p) simp

interpretation columns: implements "disk_call zone" db_call db_of readable "storable_call zone" as_saved for zone
proof unfold_locales
  fix c d assume "storable_call zone c" "readable d"
  then show "map_prod db_of id (disk_call zone c d) = db_call (as_saved c) (db_of d)"
    by (cases c)
       (simp_all only: disk_call.simps db_call.simps as_saved.simps storable_call.simps map_prod_reply save_refines load_refines
         delete_refines finish_refines list_refines)
next
  fix c d assume c: "storable_call zone c" and d: "readable d"
  from c readable_kept [OF d] show "readable (fst (disk_call zone c d))"
    by (cases c) (simp_all only: disk_call.simps storable_call.simps fst_map_prod id_apply)
qed

text \<open>
  C15: the store keeps what it is given. In every run of calls on a database whose history can be
  read, whatever statements fail, with snapshots and results of UTF-8 strings, machine integers and
  dates that have a text: the JSON columns stand for exactly the tables that the abstract store would
  have, every call answers the same, and the history stays readable. What is loaded differs from what
  was saved only in the order of the ballots.
\<close>
theorem store_refines:
  assumes "list_all (storable_call zone) cs" "readable d"
  shows "map_prod db_of id (run_calls (disk_call zone) cs d) = run_calls db_call (map as_saved cs) (db_of d) \<and>
    readable (fst (run_calls (disk_call zone) cs d))"
  by (rule columns.run_commutes [OF assms])

theorem store_refines_witness:
  "\<exists>d'. map_prod db_of id (run_calls (disk_call (\<lambda>_. 540))
       [SaveCall \<lparr>snGameID = ''g'', snState = demo_saved, snMembers = [], snHostID = ''h''\<rparr>, LoadCall, FinishCall demo_result, LoadCall]
       \<lparr>dk_snapshot = None, dk_results = [], dk_events = [], dk_open = True, dk_faults = \<lambda>_. False\<rparr>) =
     (d', [Reply None, Loaded (Inr (Some \<lparr>snGameID = ''g'', snState = demo_saved\<lparr>Votes := [(''a'', ''b''), (''b'', ''a'')]\<rparr>,
        snMembers = [], snHostID = ''h''\<rparr>)), Reply None, Loaded (Inr None)])"
proof -
  let ?s = "\<lparr>snGameID = ''g'', snState = demo_saved, snMembers = [], snHostID = ''h''\<rparr>"
  let ?d = "\<lparr>dk_snapshot = None, dk_results = [], dk_events = [], dk_open = True, dk_faults = \<lambda>_. False\<rparr>"
  let ?cs = "[SaveCall ?s, LoadCall, FinishCall demo_result, LoadCall]"
  have "recordable (\<lambda>_. 540) demo_result"
    by (simp add: recordable_def demo_result_def options_in_range_def zero_options_def int64_range_def)
  then have "list_all (storable_call (\<lambda>_. 540)) ?cs"
    using demo_storable demo_datable by (simp add: savable_def)
  moreover have "readable ?d" by (simp add: readable_def)
  ultimately have eq: "map_prod db_of id (run_calls (disk_call (\<lambda>_. 540)) ?cs ?d) = run_calls db_call (map as_saved ?cs) (db_of ?d)"
    using store_refines by blast
  have "sort_key fst (Votes demo_saved) = [(''a'', ''b''), (''b'', ''a'')]" by (simp add: demo_saved_def)
  then show ?thesis unfolding eq
    by (simp add: SaveSnapshot_def LoadActiveSnapshot_def SaveResultAndClearActive_def db_exec_def db_of_def saved_def)
qed

section \<open>Opening the store\<close>

text \<open>
  \<open>OpenSqlite\<close> step by step: the directory, the handle, the ping, three pragmas, the schema, six
  statements, the file mode. Each is a call of the system or the driver, which a stream of faults
  may make fail.
\<close>

datatype statement =
  SaveSnapshotStmt | LoadSnapshotStmt | DeleteSnapshotStmt | SaveResultStmt | ListResultsStmt | AppendEventStmt

record handle =
  hdOpen :: bool
  hdStmts :: "statement list"
  hdFaults :: "nat \<Rightarrow> bool"

definition attempt :: "handle \<Rightarrow> bool \<times> handle" where
  "attempt h = (\<not> hdFaults h 0, h\<lparr>hdFaults := (\<lambda>n. hdFaults h (Suc n))\<rparr>)"

definition statement_plan :: "statement list" where
  "statement_plan = [SaveSnapshotStmt, LoadSnapshotStmt, DeleteSnapshotStmt, SaveResultStmt, ListResultsStmt, AppendEventStmt]"

fun prepareStmts :: "statement list \<Rightarrow> handle \<Rightarrow> handle \<times> store_error" where
  "prepareStmts [] h = (h, None)"
| "prepareStmts (p # ps) h =
     (let (good, h) = attempt h in
      if \<not> good then (h, Some OtherError) else prepareStmts ps (h\<lparr>hdStmts := hdStmts h @ [p]\<rparr>))"

fun applyPragmas :: "string list \<Rightarrow> handle \<Rightarrow> handle \<times> store_error" where
  "applyPragmas [] h = (h, None)"
| "applyPragmas (s # ss) h =
     (let (good, h) = attempt h in if \<not> good then (h, Some OtherError) else applyPragmas ss h)"

definition pragmas :: "string list" where
  "pragmas = [''PRAGMA journal_mode=WAL'', ''PRAGMA synchronous=NORMAL'', ''PRAGMA foreign_keys=ON'']"

definition applySchema :: "handle \<Rightarrow> handle \<times> store_error" where
  "applySchema h = (let (good, h) = attempt h in (h, if good then None else Some OtherError))"

definition CloseHandle :: "handle \<Rightarrow> handle" where
  "CloseHandle h = h\<lparr>hdOpen := False, hdStmts := []\<rparr>"

definition OpenStore :: "string \<Rightarrow> (nat \<Rightarrow> bool) \<Rightarrow> handle \<times> store_error" where
  "OpenStore path faults =
     (let h = \<lparr>hdOpen = False, hdStmts = [], hdFaults = faults\<rparr> in
      if path = '''' then (h, Some OtherError)
      else let (made, h) = attempt h in
      if \<not> made then (h, Some OtherError)
      else let (opened, h) = attempt h in
      if \<not> opened then (h, Some OtherError)
      else let (alive, h) = attempt (h\<lparr>hdOpen := True\<rparr>) in
      if \<not> alive then (CloseHandle h, Some OtherError)
      else case applyPragmas pragmas h of
        (h, Some err) \<Rightarrow> (CloseHandle h, Some err)
      | (h, None) \<Rightarrow>
          (case applySchema h of
             (h, Some err) \<Rightarrow> (CloseHandle h, Some err)
           | (h, None) \<Rightarrow>
               (case prepareStmts statement_plan h of
                  (h, Some err) \<Rightarrow> (CloseHandle h, Some err)
                | (h, None) \<Rightarrow>
                    (let (chmodded, h) = attempt h in
                     if \<not> chmodded then (CloseHandle h, Some OtherError) else (h, None)))))"

lemma prepareStmts_out:
  "prepareStmts ps h = (h', out) \<Longrightarrow>
   (out = None \<longleftrightarrow> (\<forall>i<length ps. \<not> hdFaults h i)) \<and> hdOpen h' = hdOpen h \<and>
   (out = None \<longrightarrow> hdStmts h' = hdStmts h @ ps \<and> hdFaults h' = (\<lambda>n. hdFaults h (n + length ps)))"
  by (induction ps h rule: prepareStmts.induct)
     (auto simp: attempt_def All_less_Suc2 split: if_splits)

lemma applyPragmas_out:
  "applyPragmas ps h = (h', out) \<Longrightarrow>
   (out = None \<longleftrightarrow> (\<forall>i<length ps. \<not> hdFaults h i)) \<and> hdOpen h' = hdOpen h \<and> hdStmts h' = hdStmts h \<and>
   (out = None \<longrightarrow> hdFaults h' = (\<lambda>n. hdFaults h (n + length ps)))"
  by (induction ps h rule: applyPragmas.induct)
     (auto simp: attempt_def All_less_Suc2 split: if_splits)

lemma nat_lt_14: "(\<forall>i<14. P i) \<longleftrightarrow> P 0 \<and> P 1 \<and> P 2 \<and> (\<forall>i<3. P (i + 3)) \<and> P 6 \<and> (\<forall>i<6. P (i + 7)) \<and> P (13 :: nat)"
  by (simp add: eval_nat_numeral All_less_Suc conj_ac)

lemma OpenStore_outcome:
  "case OpenStore path faults of (h, out) \<Rightarrow>
     (out = None \<longleftrightarrow> path \<noteq> '''' \<and> (\<forall>i<14. \<not> faults i)) \<and>
     (if out = None then hdOpen h \<and> hdStmts h = statement_plan \<and> hdFaults h = (\<lambda>n. faults (n + 14))
      else \<not> hdOpen h \<and> hdStmts h = [])"
proof -
  let ?h = "\<lparr>hdOpen = True, hdStmts = [], hdFaults = \<lambda>n. faults (Suc (Suc (Suc n)))\<rparr>"
  obtain h1 o1 where p: "applyPragmas pragmas ?h = (h1, o1)" by fastforce
  let ?h2 = "h1\<lparr>hdFaults := \<lambda>n. hdFaults h1 (Suc n)\<rparr>"
  obtain h3 o3 where s: "prepareStmts statement_plan ?h2 = (h3, o3)" by fastforce
  have len: "length pragmas = 3" "length statement_plan = 6" by (simp_all add: pragmas_def statement_plan_def)
  have p': "o1 = None \<longleftrightarrow> (\<forall>i<3. \<not> faults (i + 3))" "hdOpen h1" "hdStmts h1 = []" "o1 = None \<Longrightarrow> hdFaults h1 = (\<lambda>n. faults (n + 6))"
    using applyPragmas_out [OF p, unfolded len(1)] by (simp_all add: numeral_eq_Suc)
  have s': "o3 = None \<longleftrightarrow> (\<forall>i<6. \<not> hdFaults h1 (Suc i))" "hdOpen h3"
    "o3 = None \<Longrightarrow> hdStmts h3 = statement_plan \<and> hdFaults h3 = (\<lambda>n. hdFaults h1 (Suc (n + 6)))"
    using prepareStmts_out [OF s, unfolded len(2)] p'(2,3) by (simp_all add: add.commute)
  note defs = OpenStore_def attempt_def applySchema_def CloseHandle_def p Let_def
  consider "path = '''' \<or> faults 0 \<or> faults 1 \<or> faults 2" | (pragma) "\<not> faults 0" "\<not> faults 1" "\<not> faults 2" "path \<noteq> ''''" "o1 \<noteq> None"
    | (rest) "\<not> faults 0" "\<not> faults 1" "\<not> faults 2" "path \<noteq> ''''" "o1 = None" by blast
  then show ?thesis
  proof cases
    case 1
    then show ?thesis unfolding nat_lt_14 by (auto simp: OpenStore_def attempt_def CloseHandle_def Let_def numeral_2_eq_2)
  next
    case pragma
    then show ?thesis using p'(1) unfolding nat_lt_14 by (auto simp: defs numeral_2_eq_2)
  next
    case rest
    note f = p'(4) [OF rest(5)]
    have r: "(\<forall>i<14. \<not> faults i) \<longleftrightarrow> \<not> faults 6 \<and> o3 = None \<and> \<not> faults 13"
      using rest p'(1) s'(1) unfolding nat_lt_14 f by (simp add: add.commute)
    have o: "OpenStore path faults =
      (if faults 6 then (CloseHandle ?h2, Some OtherError)
       else if o3 \<noteq> None then (CloseHandle h3, o3)
       else if hdFaults h3 0 then (CloseHandle (h3\<lparr>hdFaults := \<lambda>n. hdFaults h3 (Suc n)\<rparr>), Some OtherError)
       else (h3\<lparr>hdFaults := \<lambda>n. hdFaults h3 (Suc n)\<rparr>, None))"
      using rest f s by (auto simp: defs numeral_2_eq_2)
    show ?thesis unfolding o r using rest s' f by (auto simp: CloseHandle_def add.commute)
  qed
qed

end
