(* ===== verification/Wire.thy ===== *)
theory Wire
  imports Persist
begin

text \<open>
  The bytes of the messages the server sends: \<open>mustMarshal\<close> of \<open>internal/transport/ws/protocol.go\<close> on every
  outgoing struct, with the names and the \<open>omitempty\<close> of its tags, up to the JSON syntax. A client
  reads back the event it was sent, and marshalling does not panic.
\<close>

section \<open>Values of a payload\<close>

text \<open>\<open>map[PlayerID]int\<close>, with its keys in order.\<close>

definition counts_json :: "(player_id, int) gomap \<Rightarrow> json option" where
  "counts_json m = Some (JObj (map (\<lambda>(k, n). (to_valid k, JInt n)) (sort_key fst m)))"

fun into_count_entries :: "(string \<times> json) list \<Rightarrow> (player_id, int) gomap \<Rightarrow> (player_id, int) gomap \<times> bool" where
  "into_count_entries [] m = (m, False)"
| "into_count_entries ((k, j) # kvs) m =
     (let (n, bad) = into_int j 0; (m, bad') = into_count_entries kvs (AList.update k n m) in (m, bad \<or> bad'))"

fun into_counts :: "json \<Rightarrow> (player_id, int) gomap \<Rightarrow> (player_id, int) gomap \<times> bool" where
  "into_counts (JObj kvs) old = into_count_entries kvs old"
| "into_counts JNull old = ([], False)"
| "into_counts _ old = (old, True)"

definition payload_tags :: "event_payload tag list" where
  "payload_tags =
     [tag ''kind'' Kind Kind_update string_json into_string,
      omit (\<lambda>x. x = '''') ''playerId'' epPlayerID epPlayerID_update string_json into_string,
      omit (\<lambda>x. x = '''') ''name'' epName epName_update string_json into_string,
      omit (\<lambda>x. x = '''') ''target'' epTarget epTarget_update string_json into_string,
      omit (\<lambda>x. x = RoleNone) ''role'' epRole epRole_update (enum_json role_string) into_role,
      omit (\<lambda>x. x = '''') ''keyword'' epKeyword epKeyword_update string_json into_string,
      omit (\<lambda>x. x = TeamNone) ''team'' epTeam epTeam_update (enum_json team_string) into_team,
      omit (\<lambda>x. x = []) ''mafiaIds'' epMafiaIDs epMafiaIDs_update (slice_json string_json) (into_slice '''' into_string),
      omit (\<lambda>x. x = '''') ''representativeId'' epRepresentativeID epRepresentativeID_update string_json into_string,
      omit (\<lambda>x. x = '''') ''police'' epPolice epPolice_update string_json into_string,
      omit (\<lambda>x. x = PhaseNone) ''phase'' epPhase epPhase_update (enum_json phase_string) into_phase,
      omit (\<lambda>x. x = 0) ''day'' epDay epDay_update int_json into_int,
      omit (\<lambda>x. x = 0) ''deadlineMs'' epDeadlineMs epDeadlineMs_update int_json into_int,
      omit (\<lambda>x. x = 0) ''secondsLeft'' epSecondsLeft epSecondsLeft_update int_json into_int,
      omit (\<lambda>x. x = '''') ''victim'' epVictim epVictim_update string_json into_string,
      omit (\<lambda>x. x = []) ''counts'' epCounts epCounts_update counts_json into_counts,
      omit (\<lambda>x. x = None) ''eliminated'' epEliminated epEliminated_update (pointer_json string_json) (into_pointer '''' into_string),
      omit (\<lambda>x. \<not> x) ''recount'' epRecount epRecount_update bool_json into_bool,
      omit (\<lambda>x. x = '''') ''oldId'' epOldID epOldID_update string_json into_string,
      omit (\<lambda>x. x = '''') ''newId'' epNewID epNewID_update string_json into_string,
      omit (\<lambda>x. x = None) ''winner'' epWinner epWinner_update (pointer_json (enum_json team_string)) (into_pointer TeamNone into_team),
      omit (\<lambda>x. x = None) ''endReason'' epEndReason epEndReason_update (enum_json reason_string) into_reason,
      omit (\<lambda>x. x = []) ''reveal'' epReveal epReveal_update (slice_json (struct_json player_tags)) (into_slice zero_player (into_struct (decoders player_tags))),
      omit (\<lambda>x. x = None) ''on'' epOn epOn_update (pointer_json bool_json) (into_pointer False into_bool),
      omit (\<lambda>x. x = NightStepNone) ''step'' epStep epStep_update (enum_json night_step_string) into_night_step,
      omit (\<lambda>x. x = 0) ''stepDeadlineMs'' epStepDeadlineMs epStepDeadlineMs_update int_json into_int]"

definition your_tags :: "your_info tag list" where
  "your_tags =
     [omit (\<lambda>x. x = RoleNone) ''role'' yiRole yiRole_update (enum_json role_string) into_role,
      omit (\<lambda>x. x = '''') ''keyword'' yiKeyword yiKeyword_update string_json into_string,
      omit (\<lambda>x. x = TeamNone) ''team'' yiTeam yiTeam_update (enum_json team_string) into_team,
      omit (\<lambda>x. x = []) ''mafiaCohort'' yiMafiaCohort yiMafiaCohort_update (slice_json string_json) (into_slice '''' into_string)]"

section \<open>Messages\<close>

text \<open>
  A message is an object that begins with its type. \<open>printed\<close> is what \<open>err.Error()\<close> gives, whose
  texts the model of the errors does not keep.
\<close>

definition TypeWelcome :: string where "TypeWelcome = ''welcome''"
definition TypeJoined :: string where "TypeJoined = ''joined''"
definition TypeSnapshot :: string where "TypeSnapshot = ''snapshot''"
definition TypeEvent :: string where "TypeEvent = ''event''"
definition TypeAnnounce :: string where "TypeAnnounce = ''announce''"
definition TypeError :: string where "TypeError = ''error''"
definition TypeHostTokenOut :: string where "TypeHostTokenOut = ''host-token''"
definition TypeRoomOpened :: string where "TypeRoomOpened = ''room:opened''"
definition TypeRoomHostOccupied :: string where "TypeRoomHostOccupied = ''room:host-occupied''"
definition TypeRoomClosed :: string where "TypeRoomClosed = ''room:closed''"

fun message_text :: "(go_error \<Rightarrow> string) \<Rightarrow> error_text \<Rightarrow> string" where
  "message_text printed (Literal s) = s"
| "message_text printed (ErrorText e) = printed e"

fun members_of :: "(string \<times> json option) list \<Rightarrow> (string \<times> json) list option" where
  "members_of [] = Some []"
| "members_of ((k, v) # kvs) = (case v of None \<Rightarrow> None | Some j \<Rightarrow> map_option ((#) (k, j)) (members_of kvs))"

definition message :: "string \<Rightarrow> (string \<times> json option) list \<Rightarrow> json option" where
  "message typ kvs = map_option JObj (members_of ((''type'', string_json typ) # kvs))"

fun wire_json :: "(time \<Rightarrow> int) \<Rightarrow> (go_error \<Rightarrow> string) \<Rightarrow> wire \<Rightarrow> json option" where
  "wire_json zone printed (WelcomeMsg c kind version) =
     message TypeWelcome [(''clientId'', string_json c), (''kind'', string_json kind), (''protocolVersion'', string_json version)]"
| "wire_json zone printed (JoinedMsg p token isHost) =
     message TypeJoined [(''playerId'', string_json p), (''token'', string_json token), (''isHost'', bool_json isHost)]"
| "wire_json zone printed (SnapshotMsg st your isHost) =
     message TypeSnapshot [(''state'', state_json zone st), (''your'', struct_json your_tags your), (''isHost'', bool_json isHost)]"
| "wire_json zone printed (EventMsg visibility payload) =
     message TypeEvent [(''visibility'', string_json visibility), (''event'', struct_json payload_tags payload)]"
| "wire_json zone printed (AnnounceMsg subtitle audioID severity) =
     message TypeAnnounce ((''subtitle'', string_json subtitle) #
       (if audioID = '''' then [] else [(''audioId'', string_json audioID)]) @ [(''severity'', string_json severity)])"
| "wire_json zone printed (ErrorMsg code msg) =
     message TypeError [(''code'', string_json code), (''message'', string_json (message_text printed msg))]"
| "wire_json zone printed (HostTokenMsg token) = message TypeHostTokenOut [(''token'', string_json token)]"
| "wire_json zone printed (RoomOpenedMsg opts) = message TypeRoomOpened [(''options'', Some (options_json opts))]"
| "wire_json zone printed RoomHostOccupiedMsg = message TypeRoomHostOccupied []"
| "wire_json zone printed RoomClosedMsg = message TypeRoomClosed []"

text \<open>\<open>mustMarshal\<close> panics when marshalling fails.\<close>

definition mustMarshal :: "(time \<Rightarrow> int) \<Rightarrow> (go_error \<Rightarrow> string) \<Rightarrow> wire \<Rightarrow> go_error + json" where
  "mustMarshal zone printed w = (case wire_json zone printed w of None \<Rightarrow> Inl GoPanic | Some j \<Rightarrow> Inr j)"

section \<open>Reading an event back\<close>

definition payload_text :: "event_payload \<Rightarrow> bool" where
  "payload_text p \<longleftrightarrow>
     list_all valid_utf8 [Kind p, epPlayerID p, epName p, epTarget p, epKeyword p, epRepresentativeID p, epPolice p,
       epVictim p, epOldID p, epNewID p] \<and>
     list_all valid_utf8 (epMafiaIDs p) \<and> target_text (epEliminated p) \<and> list_all player_text (epReveal p) \<and>
     list_all (\<lambda>(k, n). valid_utf8 k \<and> int64_range n) (epCounts p) \<and> gomap_ok (epCounts p) \<and>
     list_all int64_range [epDay p, epDeadlineMs p, epSecondsLeft p, epStepDeadlineMs p]"

definition payload_slots :: "event_payload \<Rightarrow> ((event_payload \<Rightarrow> bool) \<times> (event_payload \<Rightarrow> event_payload)) list" where
  "payload_slots p =
     [(\<lambda>a. Kind a = '''', Kind_update (\<lambda>_. Kind p)),
      (\<lambda>a. epPlayerID a = '''', epPlayerID_update (\<lambda>_. epPlayerID p)),
      (\<lambda>a. epName a = '''', epName_update (\<lambda>_. epName p)),
      (\<lambda>a. epTarget a = '''', epTarget_update (\<lambda>_. epTarget p)),
      (\<lambda>a. epRole a = RoleNone, epRole_update (\<lambda>_. epRole p)),
      (\<lambda>a. epKeyword a = '''', epKeyword_update (\<lambda>_. epKeyword p)),
      (\<lambda>a. epTeam a = TeamNone, epTeam_update (\<lambda>_. epTeam p)),
      (\<lambda>a. epMafiaIDs a = [], epMafiaIDs_update (\<lambda>_. epMafiaIDs p)),
      (\<lambda>a. epRepresentativeID a = '''', epRepresentativeID_update (\<lambda>_. epRepresentativeID p)),
      (\<lambda>a. epPolice a = '''', epPolice_update (\<lambda>_. epPolice p)),
      (\<lambda>a. epPhase a = PhaseNone, epPhase_update (\<lambda>_. epPhase p)),
      (\<lambda>a. epDay a = 0, epDay_update (\<lambda>_. epDay p)),
      (\<lambda>a. epDeadlineMs a = 0, epDeadlineMs_update (\<lambda>_. epDeadlineMs p)),
      (\<lambda>a. epSecondsLeft a = 0, epSecondsLeft_update (\<lambda>_. epSecondsLeft p)),
      (\<lambda>a. epVictim a = '''', epVictim_update (\<lambda>_. epVictim p)),
      (\<lambda>a. epCounts a = [], epCounts_update (\<lambda>_. sort_key fst (epCounts p))),
      (\<lambda>a. epEliminated a = None, epEliminated_update (\<lambda>_. epEliminated p)),
      (\<lambda>a. epRecount a = False, epRecount_update (\<lambda>_. epRecount p)),
      (\<lambda>a. epOldID a = '''', epOldID_update (\<lambda>_. epOldID p)),
      (\<lambda>a. epNewID a = '''', epNewID_update (\<lambda>_. epNewID p)),
      (\<lambda>a. epWinner a = None, epWinner_update (\<lambda>_. epWinner p)),
      (\<lambda>a. epEndReason a = None, epEndReason_update (\<lambda>_. epEndReason p)),
      (\<lambda>a. epReveal a = [], epReveal_update (\<lambda>_. epReveal p)),
      (\<lambda>a. epOn a = None, epOn_update (\<lambda>_. epOn p)),
      (\<lambda>a. epStep a = NightStepNone, epStep_update (\<lambda>_. epStep p)),
      (\<lambda>a. epStepDeadlineMs a = 0, epStepDeadlineMs_update (\<lambda>_. epStepDeadlineMs p))]"

lemma into_count_fresh:
  "distinct (map fst kvs) \<Longrightarrow> fst ` set m \<inter> fst ` set kvs = {} \<Longrightarrow> \<forall>(k, n) \<in> set kvs. int64_range n \<Longrightarrow>
   into_count_entries (map (\<lambda>(k, n). (k, JInt n)) kvs) m = (m @ kvs, False)"
  by (induction kvs arbitrary: m) (auto simp: update_fresh split_beta Let_def)

lemma codec_counts:
  assumes "gomap_ok m" "list_all (\<lambda>(k, n). valid_utf8 k \<and> int64_range n) m"
  shows "codec counts_json into_counts [] m (sort_key fst m)"
proof -
  have "map (\<lambda>(k, n). (to_valid k, JInt n)) (sort_key fst m) = map (\<lambda>(k, n). (k, JInt n)) (sort_key fst m)"
    using assms(2) by (auto simp: valid_utf8_def list_all_iff)
  moreover have "distinct (map fst (sort_key fst m))" using assms(1) by (simp add: gomap_ok_def distinct_map)
  moreover have "\<forall>(k, n) \<in> set (sort_key fst m). int64_range n" using assms(2) by (auto simp: list_all_iff)
  ultimately show ?thesis using into_count_fresh [of "sort_key fst m" "[]"]
    by (auto simp: codec_def counts_json_def simp del: map_eq_conv)
qed

lemma codec_reason_option: "codec (enum_json reason_string) into_reason old r r"
  unfolding into_reason_def
proof (rule codec_enum, cases r)
  case (Some e)
  then show "List.find (\<lambda>y. reason_string y = reason_string r) [None, Some EndMafiaWin, Some EndCitizenWin, Some EndHostForceEnd] = Some r"
    by (cases e) simp_all
qed simp

lemma codec_flag: "codec (pointer_json bool_json) (into_pointer False into_bool) None p p"
  by (cases p) (auto simp: codec_def pointer_json_def into_pointer_def bool_json_def)

lemma folded_payload: "distinct (map (\<lambda>t. foldName (fst t)) (decoders payload_tags))"
  by (simp add: decoders_def payload_tags_def tag_def omit_def field_def foldName_ascii upper_letters del: foldName.simps(2))

lemma payload_carries:
  assumes "payload_text p"
  shows "list_all2 (\<lambda>t zg. carries t p zg) payload_tags (payload_slots p)"
proof -
  note t = assms [unfolded payload_text_def]
  have "codec (slice_json (struct_json player_tags)) (into_slice zero_player (into_struct (decoders player_tags))) [] (epReveal p) (epReveal p)"
    using t by (blast intro: codec_slice_id codec_player)
  moreover have "codec (slice_json string_json) (into_slice '''' into_string) [] (epMafiaIDs p) (epMafiaIDs p)"
    using t by (blast intro: codec_slice_id codec_valid_string)
  moreover have "codec counts_json into_counts [] (epCounts p) (sort_key fst (epCounts p))"
    using t by (blast intro: codec_counts)
  moreover have "codec (pointer_json string_json) (into_pointer '''' into_string) None (epEliminated p) (epEliminated p)"
    using t by (simp add: codec_target)
  moreover have "valid_utf8 (Kind p)" "valid_utf8 (epPlayerID p)" "valid_utf8 (epName p)" "valid_utf8 (epTarget p)"
    "valid_utf8 (epKeyword p)" "valid_utf8 (epRepresentativeID p)" "valid_utf8 (epPolice p)" "valid_utf8 (epVictim p)"
    "valid_utf8 (epOldID p)" "valid_utf8 (epNewID p)" "int64_range (epDay p)" "int64_range (epDeadlineMs p)"
    "int64_range (epSecondsLeft p)" "int64_range (epStepDeadlineMs p)"
    using t by simp_all
  ultimately show ?thesis
    unfolding payload_tags_def payload_slots_def
    by (intro list_all2_Cons [THEN iffD2] conjI carries_tag carries_omit list_all2_Nil [THEN iffD2])
       (simp_all add: codec_valid_string codec_enums codec_int codec_bool codec_enum_pointer codec_flag codec_reason_option)
qed

lemma codec_payload:
  assumes "payload_text p"
  shows "codec (struct_json payload_tags) (into_struct (decoders payload_tags)) zero_payload p (p\<lparr>epCounts := sort_key fst (epCounts p)\<rparr>)"
proof (rule struct_roundtrip [OF folded_payload payload_carries [OF assms]])
  show "sorted_wrt (\<lambda>(_, g) (Z, _). \<forall>acc. Z acc \<longrightarrow> Z (g acc)) (payload_slots p)" by (simp add: payload_slots_def)
  show "list_all (\<lambda>(Z, _). Z zero_payload) (payload_slots p)" by (simp add: payload_slots_def zero_payload_def)
  show "fold snd (payload_slots p) zero_payload = p\<lparr>epCounts := sort_key fst (epCounts p)\<rparr>"
    by (rule event_payload.equality) (simp_all add: payload_slots_def)
qed

lemma payload_json_some: "struct_json payload_tags p \<noteq> None"
proof -
  have "slice_json (struct_json player_tags) (epReveal p) \<noteq> None" "slice_json string_json (epMafiaIDs p) \<noteq> None"
    by (rule slice_json_some, simp add: struct_json_some string_json_def del: not_None_eq)+
  then have "object_json payload_tags p \<noteq> None"
    by (intro object_json_some)
       (simp add: payload_tags_def tag_def omit_def string_json_def int_json_def bool_json_def enum_json_def counts_json_def
        pointer_json_def split: option.split)
  then show ?thesis by (simp add: struct_json_def)
qed

lemma your_json_some: "struct_json your_tags y \<noteq> None"
proof -
  have "slice_json string_json (yiMafiaCohort y) \<noteq> None" by (rule slice_json_some) (simp add: string_json_def)
  then have "object_json your_tags y \<noteq> None"
    by (intro object_json_some) (simp add: your_tags_def tag_def omit_def string_json_def enum_json_def)
  then show ?thesis by (simp add: struct_json_def)
qed

text \<open>Marshalling never panics, but for a state with an instant that has no text.\<close>

lemma mustMarshal_no_panic:
  assumes "\<And>st your h. w = SnapshotMsg st your h \<Longrightarrow> list_all (datable zone) (state_times st)"
  shows "\<exists>j. mustMarshal zone printed w = Inr j"
proof -
  have "wire_json zone printed w \<noteq> None"
  proof (cases w)
    case (SnapshotMsg st your h)
    then have "state_json zone st \<noteq> None" using assms state_json_some by blast
    with your_json_some [of your] show ?thesis
      by (auto simp: SnapshotMsg message_def string_json_def bool_json_def)
  next
    case (EventMsg v p)
    with payload_json_some [of p] show ?thesis by (auto simp: message_def string_json_def)
  qed (auto simp: message_def string_json_def bool_json_def)
  then show ?thesis by (auto simp: mustMarshal_def)
qed

text \<open>The counts of a tally, a Go map, arrive in the order of their keys.\<close>

fun ordered_counts :: "event \<Rightarrow> event" where
  "ordered_counts (VoteTallied cs e r) = VoteTallied (sort_key fst cs) e r"
| "ordered_counts ev = ev"

lemma read_ordered:
  "read_payload ((buildEventPayload ev)\<lparr>epCounts := sort_key fst (epCounts (buildEventPayload ev))\<rparr>) = Some (on_wire (ordered_counts ev))"
  by (cases ev) (simp_all add: read_payload_def zero_payload_def)

text \<open>
  C37: what the server sends is what a client reads. For every event of the engine with UTF-8 strings and
  machine integers, the message of the event is marshalled without a panic, with the type and the
  visibility the client dispatches on, and the event in it, decoded by the names of its tags, is
  the event that was sent: every kind of event, every field, whatever fields were left out as empty;
  deadlines arrive as milliseconds.
\<close>
theorem event_message_roundtrip:
  assumes "payload_text (buildEventPayload ev)"
  shows "\<exists>j p. mustMarshal zone printed (EventMsg (wsVisibilityToString vis) (buildEventPayload ev)) =
      Inr (JObj [(''type'', JStr ''event''), (''visibility'', JStr (wsVisibilityToString vis)), (''event'', j)]) \<and>
    into_struct (decoders payload_tags) j zero_payload = (p, False) \<and> read_payload p = Some (on_wire (ordered_counts ev))"
proof -
  obtain j where j: "struct_json payload_tags (buildEventPayload ev) = Some j"
    using payload_json_some [of "buildEventPayload ev"] by blast
  have "to_valid ''event'' = ''event''" "to_valid (wsVisibilityToString vis) = wsVisibilityToString vis"
    using to_valid_ascii [of "''event''"] to_valid_ascii [of "wsVisibilityToString vis"]
    by (simp_all add: valid_utf8_def) (cases vis; simp)
  then have "mustMarshal zone printed (EventMsg (wsVisibilityToString vis) (buildEventPayload ev)) =
      Inr (JObj [(''type'', JStr ''event''), (''visibility'', JStr (wsVisibilityToString vis)), (''event'', j)])"
    by (simp add: mustMarshal_def message_def j string_json_def TypeEvent_def)
  with codec_payload [OF assms] j read_ordered [of ev] show ?thesis by (auto simp: codec_def)
qed

theorem event_message_roundtrip_witness:
  "\<exists>j p. mustMarshal (\<lambda>_. 0) (\<lambda>_. '''') (EventMsg ''PUBLIC'' (buildEventPayload (VoteTallied [(''b'', 2), (''a'', 1)] (Some ''b'') False))) =
      Inr (JObj [(''type'', JStr ''event''), (''visibility'', JStr ''PUBLIC''), (''event'', j)]) \<and>
    into_struct (decoders payload_tags) j zero_payload = (p, False) \<and>
    read_payload p = Some (VoteTallied [(''a'', 1), (''b'', 2)] (Some ''b'') False)"
proof -
  have "payload_text (buildEventPayload (VoteTallied [(''b'', 2), (''a'', 1)] (Some ''b'') False))"
    by (simp add: payload_text_def zero_payload_def target_text_def to_valid_ascii gomap_ok_def int64_range_def)
  from event_message_roundtrip [OF this, of "\<lambda>_. 0" "\<lambda>_. ''''" VisPublic] show ?thesis by simp
qed

end
