(* ===== verification/Diagnostics.thy ===== *)
theory Diagnostics
  imports Wire
begin

text \<open>
  The errors of the game as their callers see them (\<open>error.go\<close>, \<open>validation.go\<close>): the sentinels of
  \<open>errors.Is\<close>, the texts of \<open>Error\<close>, the code a client is sent; and the small helpers for tests and
  debugging, \<open>FakeClock\<close> of \<open>clock.go\<close> and \<open>String\<close> of \<open>engine.go\<close>.
\<close>

section \<open>error.go\<close>

text \<open>The text of a pointer to an \<open>EngineError\<close>: \<open>None\<close> is nil, the message is the caller's.\<close>

definition EngineError_Error :: "(error_code \<times> string \<times> string) option \<Rightarrow> string" where
  "EngineError_Error e =
     (case e of
        None \<Rightarrow> ''<nil>''
      | Some (code, msg, fld) \<Rightarrow>
          if fld \<noteq> '''' then error_code_string code @ '': '' @ msg @ '' (field='' @ fld @ '')''
          else error_code_string code @ '': '' @ msg)"

definition sentinels :: "error_code list" where
  "sentinels = [CodeValidation, CodeWrongPhase, CodePermissionDenied, CodeRoleMismatch, CodeNotRepresentative,
     CodeDeadPlayer, CodeAlreadyDone, CodeInvalidTarget, CodeUnknownPlayer]"

definition ValidationErrors_Is :: "error_code option \<Rightarrow> bool" where
  "ValidationErrors_Is target \<longleftrightarrow> target = None \<or> target = Some CodeValidation"

lemma error_Is_validation: "error_Is (ValidationErrors fes) t = ValidationErrors_Is t"
  by (simp add: ValidationErrors_Is_def)

text \<open>The sentinels that match an error.\<close>

definition classes :: "go_error \<Rightarrow> error_code list" where
  "classes err = filter (\<lambda>c. error_Is err (Some c)) sentinels"

lemma join_first: "fes \<noteq> [] \<Longrightarrow> prefix (FieldError_Error (hd fes)) (ValidationErrors_Error fes)"
  by (cases fes rule: list.exhaust; cases "tl fes") (auto simp: ValidationErrors_Error_def)

lemma FieldError_code: "prefix (error_code_string (feCode fe) @ '': '') (FieldError_Error fe)"
  by (simp add: FieldError_Error_def)

text \<open>
  Errors are classified without ambiguity. An error of the game matches exactly one sentinel, which is
  the code its client is sent, and its text starts with that code; errors that are not the game's match no sentinel,
  and their clients are told only that something internal failed. Different codes have different texts.
\<close>
lemma errors_classified:
  "classes (EngineError code f) = [code] \<and> errorCodeOf (Some (EngineError code f)) = error_code_string code \<and>
   prefix (error_code_string code @ '': '') (EngineError_Error (Some (code, msg, f))) \<and>
   classes (ValidationErrors fes) = [CodeValidation] \<and>
   errorCodeOf (Some (ValidationErrors fes)) = error_code_string CodeValidation \<and>
   classes OtherError = [] \<and> errorCodeOf (Some OtherError) = ''INTERNAL'' \<and>
   distinct (map error_code_string sentinels) \<and> code \<in> set sentinels"
  by (cases code) (simp_all add: classes_def sentinels_def EngineError_Error_def)

text \<open>The accumulated errors of a refused set of options all carry that code, and so does their text.\<close>

lemma refused_options_text:
  assumes "validateOptions opts n = Some (ValidationErrors fes)"
  shows "fes \<noteq> [] \<and> (\<forall>fe\<in>set fes. feCode fe = CodeValidation) \<and> prefix ''VALIDATION_ERROR: '' (ValidationErrors_Error fes)"
proof -
  have f: "fes \<noteq> []" "fes = option_errors opts n" using assms by (auto simp: validateOptions_def Let_def split: if_splits)
  have "\<forall>fe\<in>set (option_errors opts n). feCode fe = CodeValidation"
    unfolding option_errors_def Let_def set_append ball_Un by (simp add: verr_def)
  with f(2) have c: "\<forall>fe\<in>set fes. feCode fe = CodeValidation" by simp
  then have "feCode (hd fes) = CodeValidation" using f(1) by simp
  with FieldError_code [of "hd fes"] join_first [OF f(1)] have "prefix ''VALIDATION_ERROR: '' (ValidationErrors_Error fes)"
    by (auto intro: prefix_order.trans)
  with f c show ?thesis by simp
qed

section \<open>clock.go and engine.go\<close>

record fake_clock =
  fkT :: time

definition fake_Now :: "fake_clock \<Rightarrow> time" where "fake_Now c = fkT c"

definition Advance :: "duration \<Rightarrow> fake_clock \<Rightarrow> fake_clock" where
  "Advance d c = c\<lparr>fkT := fkT c + d\<rparr>"

lemma fake_clock_advances: "fake_Now (fold Advance ds c) = fake_Now c + sum_list ds"
  by (induction ds arbitrary: c) (simp_all add: fake_Now_def Advance_def)

definition engine_String :: "engine \<Rightarrow> string" where
  "engine_String e = ''engine{phase='' @ phase_string (Phase (est e)) @ '' day='' @ fmt_d (Day (est e)) @
     '' players='' @ fmt_d (int (length (Players (est e)))) @ ''}''"

text \<open>It is safe to log: two states that differ in the secrets of the players have the same text.\<close>

lemma engine_String_public:
  "Phase (est e) = Phase (est e') \<Longrightarrow> Day (est e) = Day (est e') \<Longrightarrow> length (Players (est e)) = length (Players (est e')) \<Longrightarrow>
   engine_String e = engine_String e'"
  by (simp add: engine_String_def)

section \<open>session.go: Snapshot\<close>

definition session_Snapshot :: "manager \<Rightarrow> state" where
  "session_Snapshot m = Snapshot (mEngine m)"

end
