(* ===== verification/Lifetimes.thy ===== *)
theory Lifetimes
  imports Server
begin

text \<open>
  What one process leaves in the database for the next. The invariant of the tables, and that every
  operation of the session manager keeps it, whatever statements of the database fail: the row of the
  active game is a state of a run of the engine with a legal list of members, or that of a game whose end
  had come but could not be recorded; and no game is in the history twice.
\<close>

section \<open>The invariant of the tables\<close>

text \<open>
  The tick that ends a game hands the state before the end to the store (\<open>fire_returns_stale_state\<close>).
  When the transaction that records the result fails, that row stays: the game is over, its row is that
  of a running game without a scheduled end.
\<close>

definition unrecorded :: "'r rand_lib \<Rightarrow> state \<Rightarrow> bool" where
  "unrecorded lib s \<longleftrightarrow> (\<exists>e now. reachable lib e \<and> PendingGameEnd (est e) \<noteq> None \<and>
     s = (est e)\<lparr>PendingGameEnd := None, LastTickAt := now\<rparr>)"

definition saved_ok :: "'r rand_lib \<Rightarrow> keyword_pool \<Rightarrow> int \<Rightarrow> snapshot \<Rightarrow> bool" where
  "saved_ok lib pool cap snap \<longleftrightarrow> roll_ok cap (snMembers snap) \<and>
     (unrecorded lib (snState snap) \<or> (\<exists>e. reachable lib e \<and> epool e = pool \<and> est e = snState snap))"

definition disk_ok :: "'r rand_lib \<Rightarrow> keyword_pool \<Rightarrow> int \<Rightarrow> db \<Rightarrow> bool" where
  "disk_ok lib pool cap d \<longleftrightarrow> distinct (map grGameID (game_results d)) \<and>
     (\<forall>snap. active_snapshot d = Some (Some snap) \<longrightarrow> saved_ok lib pool cap snap)"

definition disk_inv :: "'r rand_lib \<Rightarrow> keyword_pool \<Rightarrow> int \<Rightarrow> manager \<Rightarrow> bool" where
  "disk_inv lib pool cap m \<longleftrightarrow>
     epool (mEngine m) = pool \<and> MaxLobbySize (mOpts m) = cap \<and> disk_ok lib pool cap (mStore m)"

section \<open>What every statement keeps\<close>

lemma disk_ok_tables:
  "active_snapshot d' = active_snapshot d \<Longrightarrow> game_results d' = game_results d \<Longrightarrow> disk_ok lib pool cap d' = disk_ok lib pool cap d"
  by (simp add: disk_ok_def)

lemma disk_ok_Save:
  assumes "disk_ok lib pool cap d" "saved_ok lib pool cap snap"
  shows "disk_ok lib pool cap (fst (SaveSnapshot snap d))"
  using assms by (simp add: disk_ok_def) (simp add: SaveSnapshot_def Let_def split_beta)

lemma disk_ok_Finish:
  assumes "disk_ok lib pool cap d"
  shows "disk_ok lib pool cap (fst (SaveResultAndClearActive r d))"
proof -
  obtain d' out where r: "SaveResultAndClearActive r d = (d', out)" by fastforce
  show ?thesis
    using assms sqlite.finish_atomic [OF r] sqlite.history_distinct [OF r] by (auto simp: disk_ok_def r)
qed

lemma disk_ok_recorded:
  assumes "disk_inv lib pool cap m" "shouldPersist envs \<Longrightarrow> saved_ok lib pool cap (active_snap m st)"
  shows "disk_inv lib pool cap (recorded st envs m)"
  using assms by (simp add: disk_inv_def recorded_def Let_def disk_ok_Save disk_ok_tables [OF log_events_tables])

lemma disk_ok_handleGameEnd: "disk_inv lib pool cap m \<Longrightarrow> disk_inv lib pool cap (handleGameEnd g st m)"
  by (simp add: disk_inv_def disk_ok_Finish handleGameEnd_def clock_now_def on_sess_def Let_def split_beta split: option.split)

lemma disk_ok_pad:
  assumes "disk_inv lib pool cap m" "shouldPersist envs \<Longrightarrow> saved_ok lib pool cap (active_snap m st)"
  shows "disk_inv lib pool cap (fst (persistAndDispatch st envs m))"
  using disk_ok_recorded [OF assms] disk_ok_handleGameEnd [OF disk_ok_recorded [OF assms]]
  by (auto simp: disk_inv_def pad_recorded [of st envs m] dispatchHandlers_def split: option.split)

lemma roll_persisted: "members_ok m \<Longrightarrow> roll_ok (MaxLobbySize (mOpts m)) (persistedMembers (sMembers (mSess m)))"
proof -
  assume m: "members_ok m"
  then have "map (\<lambda>x. mbID (snd x)) (sMembers (mSess m)) = map fst (sMembers (mSess m))"
    "distinct (map fst (sMembers (mSess m)))"
    by (auto simp: members_ok_def gomap_ok_def Let_def)
  then have "distinct (map (\<lambda>x. mbID (snd x)) (sMembers (mSess m)))" by (simp only:)
  with m show ?thesis
    by (auto simp: roll_ok_def members_ok_def persistedMembers_def comp_def case_prod_unfold Let_def)
qed

lemma saved_ok_reachable:
  "members_ok m \<Longrightarrow> reachable lib e \<Longrightarrow>
   saved_ok lib (epool e) (MaxLobbySize (mOpts m)) (active_snap m (est e))"
  using roll_persisted [of m] by (auto simp: saved_ok_def active_snap_def)

section \<open>What a turn hands to the store\<close>

lemma Tick_saves:
  assumes "Tick lib now e = (e', st, Inr envs)"
  shows "st = est e' \<or> firePendingEnd now e = (e', st, Inr envs)"
  using assms
  by (auto simp: Tick_def Let_def tickIntro_def tickNight_def tickDay_def fail_def
        dest: ok_state with_state_returned split: if_splits phase.splits prod.splits sum.splits)

lemma fire_saves:
  assumes "reachable lib e" "firePendingEnd now e = (e', st, Inr envs)"
  shows "unrecorded lib st"
proof -
  have "\<exists>p. PendingGameEnd (est e) = Some p"
    "st = (est e)\<lparr>PendingGameEnd := None, LastTickAt := now\<rparr>"
    using assms(2) by (auto simp: firePendingEnd_def endGame_def fail_def upd_def Let_def split: option.splits)
  with assms(1) show ?thesis by (auto simp: unrecorded_def)
qed

lemma turn_step: "game_step lib e (res_engine (engine_turn lib c e))"
  by (cases c) (simp_all add: game_step.intros)

lemma turn_pool: "epool (res_engine (engine_turn lib c e)) = epool e"
  using apply_action.respects [of e lib] by (cases c) (simp_all add: Tick_pool contract_def split_beta)

lemma turn_saved:
  assumes "members_ok m" "reachable lib (mEngine m)" "engine_turn lib c (mEngine m) = (e, st, Inr envs)"
  shows "saved_ok lib (epool (mEngine m)) (MaxLobbySize (mOpts m)) (active_snap m st)"
proof -
  have e: "reachable lib e" "epool e = epool (mEngine m)"
    using reachable_step [OF assms(2) turn_step [of lib _ c]] turn_pool [of lib c "mEngine m"] assms(3) by simp_all
  have "st = est e \<or> unrecorded lib st"
  proof (cases c)
    case (Act a)
    with apply_action.respects [of "mEngine m" lib a] assms(3) show ?thesis by (simp add: contract_def)
  next
    case (At t)
    with Tick_saves [of lib t "mEngine m" e st envs] fire_saves [OF assms(2), of t e st envs] assms(3) show ?thesis by auto
  qed
  then show ?thesis
    using saved_ok_reachable [OF assms(1) e(1)] e(2) roll_persisted [OF assms(1)] by (auto simp: saved_ok_def active_snap_def)
qed


section \<open>Every operation\<close>

lemma disk_same:
  "disk_inv lib pool cap m \<Longrightarrow> mStore m' = mStore m \<Longrightarrow> mOpts m' = mOpts m \<Longrightarrow> epool (mEngine m') = epool (mEngine m) \<Longrightarrow> disk_inv lib pool cap m'"
  by (simp add: disk_inv_def)

lemma disk_pad_quiet: "disk_inv lib pool cap m \<Longrightarrow> \<not> shouldPersist envs \<Longrightarrow> disk_inv lib pool cap (fst (persistAndDispatch st envs m))"
  by (rule disk_ok_pad) simp_all

lemma disk_turn:
  assumes "manager_inv lib m" "disk_inv lib pool cap m" "sStarted (mSess m)" "engine_turn lib c (mEngine m) = (e, st, out)"
  shows "disk_inv lib pool cap (m\<lparr>mEngine := e\<rparr>)"
    "out = Inr envs \<Longrightarrow> disk_inv lib pool cap (fst (persistAndDispatch st envs (m\<lparr>mEngine := e\<rparr>)))"
proof -
  have m: "members_ok m" "reachable lib (mEngine m)" using assms(1,3) by (simp_all add: manager_inv_def)
  have e: "epool e = epool (mEngine m)" using turn_pool [of lib c "mEngine m"] assms(4) by simp
  with assms(2) show d: "disk_inv lib pool cap (m\<lparr>mEngine := e\<rparr>)" by (simp add: disk_inv_def)
  show "out = Inr envs \<Longrightarrow> disk_inv lib pool cap (fst (persistAndDispatch st envs (m\<lparr>mEngine := e\<rparr>)))"
    using disk_ok_pad [OF d] turn_saved [OF m] assms(2,4) e by (simp add: disk_inv_def)
qed

lemma disk_submit:
  assumes "manager_inv lib m" "disk_inv lib pool cap m"
  shows "disk_inv lib pool cap (fst (SubmitAction lib a m))" "disk_inv lib pool cap (SessionTick lib now m)"
    "disk_inv lib pool cap (fst (HostForceTerminate lib seat m))"
proof -
  have act: "disk_inv lib pool cap (m\<lparr>mEngine := fst (Apply lib a (mEngine m))\<rparr>)"
    "snd (snd (Apply lib a (mEngine m))) = Inr envs \<Longrightarrow>
       disk_inv lib pool cap (fst (persistAndDispatch (fst (snd (Apply lib a (mEngine m)))) envs (m\<lparr>mEngine := fst (Apply lib a (mEngine m))\<rparr>)))"
    if "sStarted (mSess m)" for a envs
    using disk_turn [OF assms that, of "Act a"] by (simp_all add: prod_eq_iff)
  have tick: "disk_inv lib pool cap (m\<lparr>mEngine := fst (Tick lib now (mEngine m))\<rparr>)"
    "snd (snd (Tick lib now (mEngine m))) = Inr envs \<Longrightarrow>
       disk_inv lib pool cap (fst (persistAndDispatch (fst (snd (Tick lib now (mEngine m)))) envs (m\<lparr>mEngine := fst (Tick lib now (mEngine m))\<rparr>)))"
    if "sStarted (mSess m)" for envs
    using disk_turn [OF assms that, of "At now"] by (simp_all add: prod_eq_iff)
  show "disk_inv lib pool cap (fst (SubmitAction lib a m))"
    using assms(2) act by (auto simp: SubmitAction_def split_beta Let_def split: sum.split)
  show "disk_inv lib pool cap (SessionTick lib now m)"
    using assms(2) tick by (auto simp: SessionTick_def split_beta Let_def split: sum.split)
  show "disk_inv lib pool cap (fst (HostForceTerminate lib seat m))"
    using assms(2) act
    by (cases "Verify seat (mHostAuth m)") (auto simp: HostForceTerminate_def split_beta Let_def split: sum.split)
qed

lemma disk_start_engine:
  assumes "manager_inv lib m" "disk_inv lib pool cap m" "options_in_range opts"
  shows "disk_inv lib pool cap (fst (start_engine lib host opts m))"
proof -
  let ?ps = "map member_player (orderMembers (sMembers (mSess m)) host)"
  obtain e st out where r: "Start lib (sGameID (mSess m)) host ?ps opts (mEngine m) = (e, st, out)"
    by (metis prod_cases3)
  have p: "epool e = epool (mEngine m)"
    using start.respects [of "mEngine m" lib "sGameID (mSess m)" host ?ps opts] r by (simp add: contract_def)
  have l: "lobby_ok ?ps opts" "pool_ok (epool (mEngine m))"
    using assms(1,3) lobby_from_members by (auto simp: manager_inv_def)
  show ?thesis
  proof (cases out)
    case (Inl err)
    with p r disk_same [OF assms(2), of "m\<lparr>mEngine := e\<rparr>"] show ?thesis using assms(2) by (simp add: start_engine_def Let_def)
  next
    case (Inr envs)
    let ?m = "on_sess (\<lambda>s. s\<lparr>sStarted := True, sStartedAt := StartedAt st\<rparr>) (m\<lparr>mEngine := e\<rparr>)"
    have "reachable lib e"
      using started.intros [OF l(2,1) Start_fresh] r Inr by (metis reachable_def rtranclp.rtrancl_refl)
    moreover have "members_ok ?m" using assms(1) by (simp add: manager_inv_def members_ok_def on_sess_def)
    moreover have "st = est e" 
      using start.respects [of "mEngine m" lib "sGameID (mSess m)" host ?ps opts] r Inr by (simp add: contract_def)
    ultimately have "saved_ok lib pool cap (active_snap ?m st)"
      using saved_ok_reachable [of ?m lib e] assms(2) p by (simp add: disk_inv_def on_sess_def)
    moreover have "disk_inv lib pool cap ?m" using assms(2) p by (simp add: disk_inv_def on_sess_def)
    ultimately have "disk_inv lib pool cap (fst (persistAndDispatch st envs ?m))" using disk_ok_pad [of lib pool cap ?m envs st] by blast
    then show ?thesis
      using assms(2) r Inr by (simp add: start_engine_def Let_def split_beta)
  qed
qed

lemma disk_starts:
  assumes "manager_inv lib m" "disk_inv lib pool cap m"
  shows "options_in_range opts \<Longrightarrow> disk_inv lib pool cap (fst (StartGameSession lib host opts m))"
    "disk_inv lib pool cap (fst (HostStartGame lib seat m))"
proof -
  have "options_in_range (sPendingOptions (mSess m))" using assms(1) by (simp add: manager_inv_def)
  then show "disk_inv lib pool cap (fst (HostStartGame lib seat m))"
    using disk_start_engine [OF assms] assms(2) by (cases "Verify seat (mHostAuth m)") (simp_all add: HostStartGame_def)
  show "options_in_range opts \<Longrightarrow> disk_inv lib pool cap (fst (StartGameSession lib host opts m))"
    using disk_start_engine [OF assms] assms(2) by (simp add: StartGameSession_def)
qed

lemma disk_add_member: "disk_inv lib pool cap m \<Longrightarrow> disk_inv lib pool cap (fst (add_member pid name tok h m))"
proof -
  assume "disk_inv lib pool cap m"
  let ?ms = "AList.update pid \<lparr>mbID = pid, mbName = name, mbToken = tok, mbConnected = True, mbJoinedAt = mClock m 0\<rparr> (sMembers (mSess m))"
  let ?m = "on_sess (\<lambda>s. s\<lparr>sMembers := ?ms\<rparr>) (snd (clock_now m))"
  have "disk_inv lib pool cap ?m" using \<open>disk_inv lib pool cap m\<close> by (simp add: disk_inv_def on_sess_def clock_now_def)
  from disk_pad_quiet [OF this, of "[pub (PlayerJoined pid name)]"] show ?thesis
    by (simp add: add_member_def Let_def split_beta on_sess_def clock_now_def shouldPersist_def pub_def)
qed

lemma disk_join:
  assumes "disk_inv lib pool cap m"
  shows "disk_inv lib pool cap (fst (JoinPlayer name m))" "disk_inv lib pool cap (fst (CreateSession name m))"
proof -
  let ?m1 = "snd (newID m)"
  obtain m2 out where i: "issueUniqueToken ?m1 = (m2, out)" by fastforce
  then obtain r where m2: "m2 = ?m1\<lparr>mRand := r\<rparr>"
    using issue_loop_rand [of tokenAttempts ?m1] by (auto simp: issueUniqueToken_def)
  have d: "disk_inv lib pool cap m2" using assms by (simp add: disk_inv_def m2 newID_def)
  have j: "disk_inv lib pool cap (fst (add_member pid name tok False m2))" for pid tok by (rule disk_add_member [OF d])
  show "disk_inv lib pool cap (fst (JoinPlayer name m))"
    using assms d j i by (cases out) (auto simp: JoinPlayer_def Let_def split_beta)
  have "disk_inv lib pool cap (on_sess f (snd (newID m2)))" for f using d by (simp add: disk_inv_def on_sess_def newID_def)
  from disk_add_member [OF this]
  have c: "disk_inv lib pool cap (fst (add_member (fst (newID m)) name tok True
     (on_sess (\<lambda>s. s\<lparr>sGameID := fst (newID m2), sHostID := fst (newID m)\<rparr>) (snd (newID m2)))))" for tok .
  show "disk_inv lib pool cap (fst (CreateSession name m))"
    using assms d c i by (cases out) (simp_all add: CreateSession_def Let_def split_beta)
qed

lemma disk_rooms:
  assumes "disk_inv lib pool cap m"
  shows "disk_inv lib pool cap (fst (OpenRoom seat opts m))" "disk_inv lib pool cap (fst (HostCloseRoom seat m))"
    "disk_inv lib pool cap (fst (SaveHostOptions seat opts m))" "disk_inv lib pool cap (fst (ResumePlayer tok m))"
proof -
  have "disk_inv lib pool cap (on_sess f (snd (newID m)))" for f using assms by (simp add: disk_inv_def on_sess_def newID_def)
  from disk_pad_quiet [OF this, of "[]"] show "disk_inv lib pool cap (fst (OpenRoom seat opts m))"
    using assms by (cases "Verify seat (mHostAuth m)") (simp_all add: OpenRoom_def Let_def split_beta shouldPersist_def)
  show "disk_inv lib pool cap (fst (HostCloseRoom seat m))"
    using assms by (cases "Verify seat (mHostAuth m)") (simp_all add: disk_inv_def HostCloseRoom_def Restore_def)
  show "disk_inv lib pool cap (fst (SaveHostOptions seat opts m))"
    using assms
    by (cases "Verify seat (mHostAuth m)"; cases "validateSavedHostOptions opts") (simp_all add: disk_inv_def SaveHostOptions_def)
  show "disk_inv lib pool cap (fst (ResumePlayer tok m))"
    using assms by (auto simp: disk_inv_def ResumePlayer_def on_sess_def Let_def split: option.split)
qed

lemma disk_seat:
  "disk_inv lib pool cap m \<Longrightarrow> disk_inv lib pool cap (fst (ClaimHost b m)) \<and> disk_inv lib pool cap (ReleaseHost seat m) \<and>
   disk_inv lib pool cap (fst (Subscribe m)) \<and> disk_inv lib pool cap (unsubscribe hid m)"
  by (simp add: disk_inv_def ClaimHost_def ReleaseHost_def Subscribe_def unsubscribe_def split_beta Let_def)

lemma manager_step_disk:
  assumes "manager_inv lib m" "disk_inv lib pool cap m" "manager_step lib m m'"
  shows "disk_inv lib pool cap m'"
  using assms(3) disk_seat [OF assms(2)]
  by (cases; simp only: disk_submit [OF assms(1,2)] disk_starts [OF assms(1,2)] disk_join [OF assms(2)] disk_rooms [OF assms(2)])

text \<open>A manager that is closed, and a process that comes up.\<close>

lemma disk_Close:
  assumes "members_ok m" "sStarted (mSess m) \<Longrightarrow> reachable lib (mEngine m)" "disk_inv lib pool cap m"
  shows "disk_inv lib pool cap (fst (CloseManager m))"
proof -
  have c: "active_snapshot (fst (CloseStore d)) = active_snapshot d" "game_results (fst (CloseStore d)) = game_results d" for d
    by (simp_all add: CloseStore_def Let_def split_beta)
  have "saved_ok lib (epool (mEngine m)) (MaxLobbySize (mOpts m)) (active_snap m (Snapshot (mEngine m)))"
    if "sStarted (mSess m)"
    using saved_ok_reachable [OF assms(1) assms(2) [OF that]] by (simp add: Snapshot_def)
  with assms(3) show ?thesis
    by (simp add: disk_inv_def CloseManager_def Let_def split_beta disk_ok_tables [OF c] disk_ok_Save)
qed

lemma disk_boot:
  assumes "disk_ok lib (epool eng) (MaxLobbySize (withDefaults opts)) store"
    "NewManager sysnow store eng clock seed ids opts = (m, err)"
  shows "disk_inv lib (epool eng) (MaxLobbySize (withDefaults opts)) m"
proof -
  note boot = boot_cases [OF assms(2)]
  have "distinct (map grGameID (game_results (mStore m)))"
  proof -
    have d: "distinct (map grGameID (game_results store))" using assms(1) by (simp add: disk_ok_def)
    have a: "game_results (fst (ArchiveCorrupt d)) \<in> {game_results d, []}" for d
      by (simp add: ArchiveCorrupt_def CloseStore_def Let_def split_beta)
    have l: "game_results (fst (LoadActiveSnapshot store)) = game_results store"
      by (simp add: LoadActiveSnapshot_def Let_def split_beta split: option.split)
    have f: "distinct (map grGameID (game_results d)) \<Longrightarrow> distinct (map grGameID (game_results (fst (SaveResultAndClearActive r d))))"
      for d r
      using sqlite.history_distinct [of r d] by (metis prod.collapse)
    have a': "distinct (map grGameID (game_results d)) \<Longrightarrow> distinct (map grGameID (game_results (fst (ArchiveCorrupt d))))" for d
      using a [of d] by auto
    show ?thesis
      using assms(2) d l a' f
      by (auto simp: NewManager_def bootRestore_def on_sess_def Let_def split_beta
          split: prod.splits sum.splits option.splits if_splits)
  qed
  with assms(1) boot(1,4,6) show ?thesis by (auto simp: disk_inv_def disk_ok_def)
qed

lemma disk_row:
  assumes "disk_ok lib pool cap d" "\<And>snap. active_snapshot d = Some (Some snap) \<Longrightarrow> \<not> unrecorded lib (snState snap)"
  shows "row_ok lib pool cap d"
  using assms by (auto simp: row_ok_def disk_ok_def saved_ok_def)

text \<open>Runs of the session.\<close>

lemma steps_disk:
  assumes "(manager_step lib)\<^sup>*\<^sup>* m m'" "manager_inv lib m" "disk_inv lib pool cap m"
  shows "disk_inv lib pool cap m'"
  using assms
proof (induction rule: rtranclp_induct)
  case (step y z)
  then show ?case using manager_step_disk [of lib y pool cap z] manager_inv_steps [of lib m y] by blast
qed simp

text \<open>The game of six players after a crash: the second process runs it on.\<close>

lemma demo_second_life:
  "booted demo_lib (demo_reboot demo_session) \<and> sStarted (mSess (demo_reboot demo_session)) \<and>
   est (mEngine (demo_reboot demo_session)) = est (res_engine demo_started)"
proof -
  have i: "manager_inv demo_lib demo_boot" by (rule booted_inv [OF demo_booted])
  have "disk_ok demo_lib demo_pool 12 empty_db" by (simp add: disk_ok_def empty_db_def)
  then have d: "disk_ok demo_lib (epool (New demo_pool (\<lambda>_. 100) (replicate 8 0)))
      (MaxLobbySize (withDefaults \<lparr>TickInterval = 0, EventLog = False, MaxLobbySize = 0, MinPlayers = 0\<rparr>)) empty_db"
    by (simp add: New_def withDefaults_def)
  have "disk_inv demo_lib demo_pool 12 demo_boot"
    using disk_boot [OF d prod.collapse [symmetric]] unfolding demo_boot_def by (simp add: New_def withDefaults_def)
  then have inv: "disk_inv demo_lib demo_pool 12 demo_session" "manager_inv demo_lib demo_session"
    using steps_disk [OF demo_session_run i] session_inv [OF demo_booted demo_session_run] by simp_all
  have r: "reachable demo_lib (res_engine demo_started)"
    using session_inv [OF demo_booted demo_session_run] demo_session_facts(1,2) by (simp add: manager_inv_def)
  have m: "members_ok demo_session" "MaxLobbySize (mOpts demo_session) = 12" "epool (res_engine demo_started) = demo_pool"
    using inv demo_session_facts(1) by (simp_all add: manager_inv_def disk_inv_def)
  let ?opts = "\<lparr>TickInterval = 0, EventLog = False, MaxLobbySize = 0, MinPlayers = 0\<rparr>"
  let ?d = "OpenSqlite (mStore demo_session) (\<lambda>_. False)"
  have "row_ok demo_lib demo_pool (MaxLobbySize (withDefaults ?opts)) ?d"
    using r m(2,3) demo_session_facts(1,8) roll_persisted [OF m(1)]
    by (auto simp: row_ok_def OpenSqlite_def active_snap_def withDefaults_def)
  then have "booted demo_lib (demo_reboot demo_session)"
    unfolding demo_reboot_def by (rule booted.intros [OF demo_pool_ok])
  moreover have "fault_free ?d" "active_snapshot ?d = Some (Some (active_snap demo_session (est (res_engine demo_started))))"
    using demo_session_facts(1,6,8) by (simp_all add: OpenSqlite_def fault_free_def)
  moreover obtain m err where "NewManager 0 ?d (New demo_pool (\<lambda>_. 7) []) int [] (\<lambda>n. []) ?opts = (m, err)" by fastforce
  ultimately show ?thesis
    using boot_saved [OF m(1), of ?d "est (res_engine demo_started)"] demo_started_phase by (simp add: demo_reboot_def)
qed

end
