(* ===== verification/Process.thy ===== *)
theory Process
  imports Persist
begin

text \<open>
  The outer loops of the process: the ticker of the session (\<open>internal/session/tick.go\<close>), the hub's
  \<open>Run\<close> and the upgrade handler (\<open>internal/transport/ws/hub.go\<close>), and \<open>main\<close> and \<open>run\<close> of
  \<open>cmd/mafia-game/main.go\<close> from the opening of the store to the exit code.
\<close>

section \<open>The ticker\<close>

text \<open>
  The loop selects between the channel that closes and the ticker; the list is the order in which
  the select finds them ready. The flag says that the loop has returned.
\<close>

datatype loop_event = StopClosed | Ticked time

fun tickLoop :: "'r rand_lib \<Rightarrow> loop_event list \<Rightarrow> manager \<Rightarrow> manager \<times> bool" where
  "tickLoop lib [] m = (m, False)"
| "tickLoop lib (StopClosed # evs) m = (m, True)"
| "tickLoop lib (Ticked now # evs) m = tickLoop lib evs (SessionTick lib now m)"

text \<open>The loop is a run of the session, returns as soon as it is stopped, and does nothing after that.\<close>

lemma tickLoop_run: "(manager_step lib)\<^sup>*\<^sup>* m (fst (tickLoop lib evs m))"
proof (induction lib evs m rule: tickLoop.induct)
  case (3 lib now evs m)
  then show ?case by (auto intro: converse_rtranclp_into_rtranclp manager_step.tick)
qed simp_all

lemma tickLoop_returns: "snd (tickLoop lib evs m) \<longleftrightarrow> StopClosed \<in> set evs"
  by (induction lib evs m rule: tickLoop.induct) auto

lemma tickLoop_stopped: "snd (tickLoop lib evs m) \<Longrightarrow> tickLoop lib (evs @ later) m = tickLoop lib evs m"
  by (induction lib evs m rule: tickLoop.induct) auto

section \<open>The hub\<close>

text \<open>\<open>Run\<close> waits for either context to end and then closes the hub.\<close>

definition HubRun :: "hub \<Rightarrow> hub" where
  "HubRun h = CloseHub h"

text \<open>
  \<open>UpgradeHandler\<close>: \<open>upgraded\<close> is the outcome of the upgrader, \<open>conn\<close> the randomness and the time
  of the registration. The second result says whether the connection stays open.
\<close>

definition UpgradeHandler :: "bool \<Rightarrow> (8 word list \<times> time) option \<Rightarrow> hub \<Rightarrow> hub \<times> bool" where
  "UpgradeHandler upgraded conn h =
     (if \<not> upgraded then (h, False)
      else case Register conn h of (h, None) \<Rightarrow> (h, False) | (h, Some cid) \<Rightarrow> (h, True))"

lemma UpgradeHandler_closed: "hClosed h \<Longrightarrow> UpgradeHandler upgraded conn h = (h, False)"
  by (cases conn) (auto simp: UpgradeHandler_def Register_def)

section \<open>main.go\<close>

text \<open>The first half of \<open>run\<close>: the store is opened on the database \<open>d\<close> that is at the path.\<close>

definition start_process :: "string \<Rightarrow> (nat \<Rightarrow> bool) \<Rightarrow> db \<Rightarrow> time \<Rightarrow> engine \<Rightarrow> (nat \<Rightarrow> time) \<Rightarrow> 8 word list \<Rightarrow>
    (nat \<Rightarrow> 8 word list) \<Rightarrow> int \<Rightarrow> go_error + hub" where
  "start_process path faults d sysnow eng clock rng ids port =
     run_server (case OpenStore path faults of (h, None) \<Rightarrow> Some (OpenSqlite d (hdFaults h)) | (h, Some err) \<Rightarrow> None)
       sysnow eng clock rng ids port"

text \<open>The second half: what the select wakes up on, and what is done then.\<close>

datatype listen_result = ListenNil | ServerClosed | ListenFailed

datatype wake = Signalled | Listener listen_result

definition finish_run :: "wake \<Rightarrow> hub \<Rightarrow> hub \<times> store_error" where
  "finish_run w h = (if w = Listener ListenFailed then (h, Some OtherError) else (shutdown h, None))"

definition exit_code :: "store_error \<Rightarrow> int" where
  "exit_code err = (if err = None then 0 else 1)"

text \<open>
  A signal ends the process with code 0 after the three stages of the shutdown; a listener that
  fails ends it with code 1 and without any of them, so that what the last save did not write is lost.
\<close>

lemma finish_run_exit:
  "exit_code (snd (finish_run w h)) = (if w = Listener ListenFailed then 1 else 0) \<and>
   fst (finish_run w h) = (if w = Listener ListenFailed then h else shutdown h)"
  by (simp add: finish_run_def exit_code_def)

text \<open>
  C38: opening the store either works completely or stops the process with nothing left open. It
  succeeds exactly when the path is not empty and all fourteen calls succeed, and then the handle is
  open with its six statements; otherwise, wherever it failed, the handle is closed, no statement is
  left, and the process does not start.
\<close>
theorem OpenStore_all_or_nothing:
  "case OpenStore path faults of (h, out) \<Rightarrow>
     (out = None \<longleftrightarrow> path \<noteq> '''' \<and> (\<forall>i<14. \<not> faults i)) \<and>
     (if out = None then hdOpen h \<and> hdStmts h = statement_plan
      else \<not> hdOpen h \<and> hdStmts h = [] \<and> start_process path faults d sysnow eng clock rng ids port = Inl OtherError)"
proof -
  obtain h out where o: "OpenStore path faults = (h, out)" by fastforce
  then have "out \<noteq> None \<Longrightarrow> start_process path faults d sysnow eng clock rng ids port = Inl OtherError"
    by (auto simp: start_process_def run_server_def)
  with OpenStore_outcome [of path faults] o show ?thesis by auto
qed

theorem OpenStore_all_or_nothing_witness:
  "case OpenStore ''mafia.db'' (\<lambda>i. i = 9) of (h, out) \<Rightarrow> out \<noteq> None \<and> \<not> hdOpen h \<and> hdStmts h = []"
proof -
  obtain h out where o: "OpenStore ''mafia.db'' (\<lambda>i. i = 9) = (h, out)" by fastforce
  have "\<not> (\<forall>i<14. \<not> (\<lambda>i::nat. i = 9) i)" by auto
  with OpenStore_all_or_nothing [of "''mafia.db''" "\<lambda>i. i = 9"] o have "out \<noteq> None \<and> \<not> hdOpen h \<and> hdStmts h = []"
    by (auto split: if_splits)
  with o show ?thesis by simp
qed

end
