(* ===== verification/Service.thy ===== *)
theory Service
  imports Lifetimes Process
begin

text \<open>
  The service over all its processes. A process starts on a database, serves connections, is shut down
  or dies between any two statements of the database, and another one starts on what it left. A death in
  the middle of an operation is one whose remaining statements all fail, since every pattern of
  failures is allowed.
\<close>

section \<open>The processes of a service\<close>

text \<open>
  What the next process finds: the tables as they were left, or the row of the active game spoiled. The
  row is not that of a game that was over (see theory Lifetimes).
\<close>

definition left_by :: "'r rand_lib \<Rightarrow> db \<Rightarrow> db \<Rightarrow> bool" where
  "left_by lib old d \<longleftrightarrow> game_results d = game_results old \<and>
     (active_snapshot d = active_snapshot old \<or> active_snapshot d = Some None) \<and>
     (\<forall>snap. active_snapshot d = Some (Some snap) \<longrightarrow> \<not> unrecorded lib (snState snap))"

inductive service :: "'r rand_lib \<Rightarrow> keyword_pool \<Rightarrow> hub \<Rightarrow> bool" for lib pool where
  first: "active_snapshot d = None \<Longrightarrow> distinct (map grGameID (game_results d)) \<Longrightarrow>
    start_process path faults d sysnow (New pool clk rng) clock seed ids port = Inr h \<Longrightarrow> service lib pool h"
| serve: "service lib pool h \<Longrightarrow> hub_step lib h h' \<Longrightarrow> service lib pool h'"
| stop: "service lib pool h \<Longrightarrow> service lib pool (shutdown h)"
| again: "service lib pool h \<Longrightarrow> left_by lib (mStore (hMgr h)) d \<Longrightarrow>
    start_process path faults d sysnow (New pool clk rng) clock seed ids port = Inr h' \<Longrightarrow> service lib pool h'"

section \<open>The invariant of the service\<close>

definition service_inv :: "'r rand_lib \<Rightarrow> keyword_pool \<Rightarrow> hub \<Rightarrow> bool" where
  "service_inv lib pool h \<longleftrightarrow> hub_inv lib h \<and> disk_inv lib pool 12 (hMgr h)"

lemma process_starts:
  assumes "start_process path faults d sysnow eng clock seed ids port = Inr h"
  shows "run_server (Some (OpenSqlite d (\<lambda>n. faults (n + 14)))) sysnow eng clock seed ids port = Inr h"
  using assms OpenStore_outcome [of path faults]
  by (cases "OpenStore path faults"; cases "snd (OpenStore path faults)") (auto simp: start_process_def run_server_def)

lemma service_boot:
  assumes "pool_ok pool" "disk_ok lib pool 12 d" "row_ok lib pool 12 d"
    "start_process path faults d sysnow (New pool clk rng) clock seed ids port = Inr h"
  shows "(\<exists>m. booted lib m \<and> h = NewHub m) \<and> service_inv lib pool h"
proof -
  let ?f = "\<lambda>n. faults (n + 14)"
  let ?opts = "\<lparr>TickInterval = 0, EventLog = False, MaxLobbySize = 0, MinPlayers = 0\<rparr>"
  obtain m where m: "NewManager sysnow (OpenSqlite d ?f) (New pool clk rng) clock seed ids ?opts = (m, None)" "h = NewHub m"
    using process_starts [OF assms(4)] by (auto simp: run_server_def split: prod.splits option.splits if_splits)
  have cap: "MaxLobbySize (withDefaults ?opts) = 12" "epool (New pool clk rng) = pool" by (simp_all add: withDefaults_def New_def)
  have "row_ok lib pool (MaxLobbySize (withDefaults ?opts)) (OpenSqlite d ?f)"
    using assms(3) by (simp add: cap row_ok_def OpenSqlite_def)
  with m(1) have b: "booted lib m" using booted.intros [OF assms(1)] by (metis fst_conv)
  have "disk_ok lib (epool (New pool clk rng)) (MaxLobbySize (withDefaults ?opts)) (OpenSqlite d ?f)"
    using assms(2) by (simp add: cap disk_ok_def OpenSqlite_def)
  from disk_boot [OF this m(1)] have "disk_inv lib pool 12 (fst (Subscribe m))" by (simp add: disk_seat cap)
  then show ?thesis
    using b m(2) NewHub_inv [OF b] by (auto simp: service_inv_def NewHub_def split_beta Let_def)
qed

lemma service_shutdown:
  assumes "service_inv lib pool h"
  shows "service_inv lib pool (shutdown h)"
proof -
  have c: "hub_inv lib (CloseHub h)" "(manager_step lib)\<^sup>*\<^sup>* (hMgr h) (hMgr (CloseHub h))"
    using CloseHub_inv [of lib h] assms by (simp_all add: service_inv_def run_inv_def)
  let ?m = "hMgr (CloseHub h)" and ?h = "shutdown h"
  have m: "manager_inv lib ?m" "disk_inv lib pool 12 ?m"
    using c steps_disk [OF c(2)] assms by (simp_all add: service_inv_def hub_inv_def)
  have h: "?h = (CloseHub h)\<lparr>hMgr := fst (CloseManager ?m)\<rparr>" by (simp add: shutdown_def Let_def split_beta)
  have same: "mSess (fst (CloseManager ?m)) = mSess ?m" "mOpts (fst (CloseManager ?m)) = mOpts ?m"
    "mEngine (fst (CloseManager ?m)) = mEngine ?m" "mHostAuth (fst (CloseManager ?m)) = mHostAuth ?m"
    by (simp_all add: CloseManager_def Let_def split_beta)
  have "manager_inv lib (fst (CloseManager ?m))" by (rule manager_inv_frame [OF m(1) same(1-3)])
  moreover have "registry_inv ?h = registry_inv (CloseHub h)" unfolding h by (rule registry_same) simp_all
  moreover have "seat_inv ?h = seat_inv (CloseHub h)" unfolding h by (rule seat_same) (simp_all add: same)
  moreover have "bounded_queues ?h = bounded_queues (CloseHub h)" by (simp add: h bounded_queues_def)
  moreover have "disk_inv lib pool 12 (fst (CloseManager ?m))"
    using disk_Close [of ?m lib pool 12] m by (simp add: manager_inv_def)
  ultimately show ?thesis using c(1) by (simp add: service_inv_def hub_inv_def h)
qed

lemma left_by_ok:
  assumes "disk_ok lib pool cap old" "left_by lib old d"
  shows "disk_ok lib pool cap d \<and> row_ok lib pool cap d"
proof -
  have "disk_ok lib pool cap d" using assms by (auto simp: disk_ok_def left_by_def)
  with disk_row [of lib pool cap d] assms(2) show ?thesis by (simp add: left_by_def)
qed

lemma service_sound_inv:
  assumes "pool_ok pool" "service lib pool h"
  shows "service_inv lib pool h"
  using assms(2)
proof (induction rule: service.induct)
  case (first d path faults sysnow clk rng clock seed ids port h)
  have "disk_ok lib pool 12 d" "row_ok lib pool 12 d" using first(1,2) by (simp_all add: disk_ok_def row_ok_def)
  from service_boot [OF assms(1) this first(3)] show ?case by simp
next
  case (serve h h')
  then have "hub_inv lib h'" "(manager_step lib)\<^sup>*\<^sup>* (hMgr h) (hMgr h')"
    using hub_step_inv [of lib h h'] by (simp_all add: service_inv_def run_inv_def)
  with serve(3) steps_disk [of lib "hMgr h" "hMgr h'" pool 12] show ?case by (simp add: service_inv_def hub_inv_def)
next
  case (again h d path faults sysnow clk rng clock seed ids port h')
  have "disk_ok lib pool 12 (mStore (hMgr h))" using again(4) by (simp add: service_inv_def disk_inv_def)
  from left_by_ok [OF this again(2)] service_boot [OF assms(1) _ _ again(3), of lib] show ?case by simp
qed (rule service_shutdown)

text \<open>
  A process that comes up on what another one left is one of the processes that the theorems on
  the session and on the network speak of.
\<close>

lemma service_processes:
  assumes "pool_ok pool" "service lib pool h" "left_by lib (mStore (hMgr h)) d"
    "start_process path faults d sysnow (New pool clk rng) clock seed ids port = Inr h'"
  shows "\<exists>m. booted lib m \<and> h' = NewHub m"
proof -
  have "disk_ok lib pool 12 (mStore (hMgr h))"
    using service_sound_inv [OF assms(1,2)] by (simp add: service_inv_def disk_inv_def)
  from left_by_ok [OF this assms(3)] service_boot [OF assms(1) _ _ assms(4), of lib] show ?thesis by simp
qed


text \<open>A process that serves a connection, dies, and is followed by a second one.\<close>

definition demo_process :: "db \<Rightarrow> go_error + hub" where
  "demo_process d = start_process ''mafia.db'' (\<lambda>_. False) d 0 (New demo_pool (\<lambda>_. 100) (replicate 8 0)) int
     (concat (map (\<lambda>i. replicate 32 (word_of_nat i)) [1..<7])) (\<lambda>n. [word_of_nat n]) 8080"

lemma demo_process_boot: "demo_process d = run_server (Some (OpenSqlite d (\<lambda>_. False))) 0 (New demo_pool (\<lambda>_. 100) (replicate 8 0)) int
     (concat (map (\<lambda>i. replicate 32 (word_of_nat i)) [1..<7])) (\<lambda>n. [word_of_nat n]) 8080"
  using OpenStore_outcome [of "''mafia.db''" "\<lambda>_. False"]
  by (cases "OpenStore ''mafia.db'' (\<lambda>_. False)") (auto simp: demo_process_def start_process_def)

lemma demo_first: "demo_process empty_db = Inr (NewHub demo_boot)"
proof -
  have "OpenSqlite empty_db (\<lambda>_. False) = empty_db" by (simp add: OpenSqlite_def empty_db_def)
  then show ?thesis
    by (simp add: demo_process_boot run_server_def demo_boot_def NewServer_def NewManager_def bootRestore_def
        LoadActiveSnapshot_def db_exec_def empty_db_def)
qed

lemma demo_service: "service demo_lib demo_pool demo_hub"
proof -
  have "service demo_lib demo_pool (NewHub demo_boot)"
    using service.first [of empty_db] demo_first unfolding demo_process_def by (simp add: empty_db_def)
  with demo_hub_run show ?thesis
    by (induction rule: rtranclp_induct) (auto intro: service.serve)
qed


section \<open>A game that ended without its result being recorded\<close>

text \<open>
  Such a row exists after one failing statement at the wrong moment: the snapshot is written, the insert
  of the result fails.
\<close>

lemma result_lost:
  assumes "sStarted (mSess m)" "firePendingEnd now (mEngine m) = (e, st, Inr envs)"
    "Tick lib now (mEngine m) = (e, st, Inr envs)" "\<not> EventLog (mOpts m)" "db_open (mStore m)" "db_faults (mStore m) = (\<lambda>n. n = 2)"
  shows "active_snapshot (mStore (SessionTick lib now m)) = Some (Some (active_snap m st)) \<and>
    sStarted (mSess (SessionTick lib now m)) \<and> Phase (est (mEngine (SessionTick lib now m))) = PhaseEnd"
proof -
  obtain w p where w: "envs = [pub (GameEnded (Some w) p (Players (est (mEngine m))))]" "Phase (est e) = PhaseEnd"
    using assms(2) by (auto simp: firePendingEnd_def endGame_def fail_def upd_def Let_def split: option.splits)
  show ?thesis
    using assms w
    by (simp add: SessionTick_def persistAndDispatch_def shouldPersist_def pub_def handleGameEnd_def clock_now_def
        SaveSnapshot_def SaveResultAndClearActive_def db_exec_def dispatchHandlers_def active_snap_def Let_def)
qed

text \<open>A process that comes up on it runs the finished game on, with no end scheduled.\<close>

lemma lost_result_revives:
  assumes "rand_ok lib" "unrecorded lib (snState snap)" "active_snapshot d = Some (Some snap)" "fault_free d"
    "NewManager sysnow d eng clock seed ids opts = (m, err)"
  shows "sStarted (mSess m) \<and> est (mEngine m) = snState snap \<and> PendingGameEnd (est (mEngine m)) = None"
proof -
  obtain e now where e: "reachable lib e" "PendingGameEnd (est e) \<noteq> None"
    "snState snap = (est e)\<lparr>PendingGameEnd := None, LastTickAt := now\<rparr>"
    using assms(2) by (auto simp: unrecorded_def)
  have inv: "game_inv (est e)" by (rule reachable_inv [OF assms(1) e(1)])
  have "isActivePhase (Phase (snState snap))"
    using inv e inv_phase_started [OF inv] by (auto simp: isActivePhase_def game_inv_def outcome_ok_def)
  from boot_restores [OF assms(4,3) this assms(5)] e(3) show ?thesis by simp
qed

end
