(* ===== verification/Connection.thy ===== *)
theory Connection
  imports Process
begin

text \<open>
  One connection over its life: the upgrade through the logging middleware
  (\<open>internal/transport/http/middleware.go\<close>), and the read loop of
  \<open>internal/transport/ws/handlers.go\<close> with its read limit and its read deadline, which only a pong moves.
\<close>

section \<open>middleware.go\<close>

text \<open>
  A response writer by what it can do besides writing: \<open>None\<close> is a writer without the method, the number
  counts the calls of \<open>Flush\<close>. What hijacking answers is the network's.
\<close>

record response_writer =
  rwHijack :: "(go_error + ref) option"
  rwFlush :: "nat option"

definition Hijack :: "response_writer \<Rightarrow> go_error + ref" where
  "Hijack w = (case rwHijack w of None \<Rightarrow> Inl OtherError | Some answer \<Rightarrow> answer)"

definition Flush :: "response_writer \<Rightarrow> response_writer" where
  "Flush w = w\<lparr>rwFlush := map_option Suc (rwFlush w)\<rparr>"

text \<open>
  A request for the socket: the middleware hands its recorder to the upgrader, which needs to hijack it,
  and may fail for reasons of its own.
\<close>

definition serve_socket :: "response_writer \<Rightarrow> bool \<Rightarrow> (8 word list \<times> time) option \<Rightarrow> hub \<Rightarrow> hub \<times> bool" where
  "serve_socket w handshake conn h =
     (case Hijack w of Inl err \<Rightarrow> UpgradeHandler False conn h | Inr c \<Rightarrow> UpgradeHandler handshake conn h)"

lemma serve_socket_simps:
  "rwHijack w = Some (Inr c) \<Longrightarrow> serve_socket w handshake conn h = UpgradeHandler handshake conn h"
  "rwHijack w = None \<Longrightarrow> serve_socket w handshake conn h = (h, False)"
  by (simp_all add: serve_socket_def Hijack_def UpgradeHandler_def)

section \<open>server.go: the timeouts\<close>

record http_server =
  srvAddr :: string
  ReadHeaderTimeout :: duration
  ReadTimeout :: duration
  WriteTimeout :: duration
  IdleTimeout :: duration

definition http_Server :: "http_config \<Rightarrow> http_server" where
  "http_Server cfg = \<lparr>srvAddr = Addr cfg, ReadHeaderTimeout = 10 * second, ReadTimeout = 30 * second,
     WriteTimeout = 0, IdleTimeout = 60 * second\<rparr>"

section \<open>handlers.go: readLoop\<close>

definition readDeadline :: duration where "readDeadline = 30 * second"
definition readLimit :: nat where "readLimit = 65536"
definition pingInterval :: duration where "pingInterval = 25 * second"

text \<open>
  What comes over the wire, with the time at which it has been read: a pong, a message with its length and
  its JSON value, or a close frame or an error of the connection. \<open>Silence\<close> is the
  passing of time without anything arriving.
\<close>

datatype frame = Pong | Message nat "json option" | Broken | Silence

text \<open>
  What the loop does: it hands a message to \<open>handleIncoming\<close> (\<open>read_step\<close>), or leaves and runs its
  deferred function (\<open>read_end\<close>). As the library documents, a read after the deadline and a message over the
  limit are errors.
\<close>

datatype read_action = Handle "json option" | Leave

fun read_loop :: "time \<Rightarrow> (time \<times> frame) list \<Rightarrow> read_action list" where
  "read_loop deadline [] = []"
| "read_loop deadline ((at, fr) # frs) =
     (if deadline < at then [Leave]
      else case fr of
        Pong \<Rightarrow> read_loop (at + readDeadline) frs
      | Message n raw \<Rightarrow> if readLimit < n then [Leave] else Handle raw # read_loop deadline frs
      | Broken \<Rightarrow> [Leave]
      | Silence \<Rightarrow> read_loop deadline frs)"

definition readLoop :: "time \<Rightarrow> (time \<times> frame) list \<Rightarrow> read_action list" where
  "readLoop start frs = read_loop (start + readDeadline) frs"

definition read_act :: "'r rand_lib \<Rightarrow> 8 word list option \<Rightarrow> ref \<Rightarrow> read_action \<Rightarrow> hub \<Rightarrow> hub" where
  "read_act lib b c act h = (case act of Handle raw \<Rightarrow> read_step lib b c raw h | Leave \<Rightarrow> read_end c h)"

text \<open>After a pong the loop is as one that starts at that moment.\<close>

lemma read_loop_pong: "at \<le> deadline \<Longrightarrow> read_loop deadline ((at, Pong) # frs) = readLoop at frs"
  by (simp add: readLoop_def)

text \<open>Both actions are steps of the network, so the theorems on the network cover every connection.\<close>

lemma read_act_step:
  "act = Leave \<and> c < hNext h \<or> (\<exists>raw. act = Handle raw \<and> clean_read raw c h \<and> b \<noteq> Some []) \<Longrightarrow>
   hub_step lib h (read_act lib b c act h)"
  by (auto simp: read_act_def intro: hub_step.read hub_step.hang_up)

definition messages :: "(time \<times> frame) list \<Rightarrow> read_action list" where
  "messages frs = concat (map (\<lambda>(at, fr). case fr of Message n raw \<Rightarrow> [Handle raw] | _ \<Rightarrow> []) frs)"

definition acceptable :: "frame \<Rightarrow> bool" where
  "acceptable fr \<longleftrightarrow> fr \<noteq> Broken \<and> (\<forall>n raw. fr = Message n raw \<longrightarrow> n \<le> readLimit)"

text \<open>A loop that leaves does so once and as the last thing it does.\<close>

lemma read_loop_leaves:
  "\<exists>frs'. prefix frs' frs \<and> (read_loop deadline frs = messages frs' \<and> frs' = frs \<or> read_loop deadline frs = messages frs' @ [Leave])"
proof (induction deadline frs rule: read_loop.induct)
  case (2 deadline at fr frs)
  have m: "messages ((at, fr) # xs) = (case fr of Message n raw \<Rightarrow> [Handle raw] | _ \<Rightarrow> []) @ messages xs" for xs
    by (simp add: messages_def)
  have z: "messages [] = []" by (simp add: messages_def)
  show ?case
  proof (cases "deadline < at \<or> \<not> acceptable fr")
    case True
    then have "read_loop deadline ((at, fr) # frs) = messages [] @ [Leave]"
      by (auto simp: z acceptable_def split: frame.split)
    then show ?thesis by (metis Nil_prefix)
  next
    case False
    then obtain d where d: "read_loop deadline ((at, fr) # frs) = (case fr of Message n raw \<Rightarrow> [Handle raw] | _ \<Rightarrow> []) @ read_loop d frs"
      "\<exists>frs'. prefix frs' frs \<and> (read_loop d frs = messages frs' \<and> frs' = frs \<or> read_loop d frs = messages frs' @ [Leave])"
      using 2 by (cases fr) (auto simp: acceptable_def)
    then obtain frs' where "prefix frs' frs" "read_loop d frs = messages frs' \<and> frs' = frs \<or> read_loop d frs = messages frs' @ [Leave]"
      by blast
    then have "prefix ((at, fr) # frs') ((at, fr) # frs) \<and>
      (read_loop deadline ((at, fr) # frs) = messages ((at, fr) # frs') \<and> (at, fr) # frs' = (at, fr) # frs \<or>
       read_loop deadline ((at, fr) # frs) = messages ((at, fr) # frs') @ [Leave])"
      unfolding d(1) m by auto
    then show ?thesis by blast
  qed
qed (simp add: messages_def)

section \<open>Heartbeats\<close>

lemma read_loop_alive:
  "sorted (map fst frs) \<Longrightarrow> \<forall>x\<in>set frs. acceptable (snd x) \<Longrightarrow> \<forall>x\<in>set frs. deadline \<le> fst x + readDeadline \<Longrightarrow>
   \<forall>x\<in>set frs. fst x \<le> deadline \<or> (\<exists>p. (p, Pong) \<in> set frs \<and> p < fst x \<and> fst x \<le> p + readDeadline) \<Longrightarrow>
   read_loop deadline frs = messages frs"
proof (induction frs arbitrary: deadline)
  case (Cons x frs)
  obtain at fr where x: "x = (at, fr)" by fastforce
  have later: "at \<le> fst y" if "y \<in> set frs" for y using Cons.prems(1) that by (auto simp: x)
  have first: "at \<le> deadline" using Cons.prems(4) later by (fastforce simp: x)
  define d where "d = (if fr = Pong then at + readDeadline else deadline)"
  have IH: "read_loop d frs = messages frs"
  proof (rule Cons.IH)
    show "sorted (map fst frs)" "\<forall>x\<in>set frs. acceptable (snd x)" using Cons.prems(1,2) by simp_all
    show "\<forall>y\<in>set frs. d \<le> fst y + readDeadline" using Cons.prems(3) later by (simp add: d_def)
    show "\<forall>y\<in>set frs. fst y \<le> d \<or> (\<exists>p. (p, Pong) \<in> set frs \<and> p < fst y \<and> fst y \<le> p + readDeadline)"
    proof
      fix y assume y: "y \<in> set frs"
      then consider "fst y \<le> deadline" | p where "(p, Pong) \<in> set (x # frs)" "p < fst y" "fst y \<le> p + readDeadline"
        using Cons.prems(4) by force
      then show "fst y \<le> d \<or> (\<exists>p. (p, Pong) \<in> set frs \<and> p < fst y \<and> fst y \<le> p + readDeadline)"
        using Cons.prems(3) by cases (auto simp: d_def x)
    qed
  qed
  have "acceptable fr" using Cons.prems(2) by (simp add: x)
  with first IH show ?case by (cases fr) (auto simp: x d_def messages_def acceptable_def)
qed (simp add: messages_def)

text \<open>
  C23: heartbeats. The server pings every 25 seconds; a client that answers every ping within five seconds,
  and whose messages are within the limit, is never cut off, however much or little it sends: the
  loop hands on every message, in order, and does not leave.
\<close>
theorem heartbeat_keeps_alive:
  assumes "sorted (map fst frs)" "\<forall>x\<in>set frs. start \<le> fst x \<and> acceptable (snd x)"
    "\<forall>x\<in>set frs. \<forall>k>0. start + k * pingInterval + 5 * second < fst x \<longrightarrow>
       (\<exists>p. (p, Pong) \<in> set frs \<and> start + k * pingInterval \<le> p \<and> p \<le> start + k * pingInterval + 5 * second)"
  shows "readLoop start frs = messages frs"
  unfolding readLoop_def
proof (rule read_loop_alive [OF assms(1)])
  show "\<forall>x\<in>set frs. acceptable (snd x)" "\<forall>x\<in>set frs. start + readDeadline \<le> fst x + readDeadline"
    using assms(2) by simp_all
  show "\<forall>x\<in>set frs. fst x \<le> start + readDeadline \<or> (\<exists>p. (p, Pong) \<in> set frs \<and> p < fst x \<and> fst x \<le> p + readDeadline)"
  proof
    fix x assume x: "x \<in> set frs"
    show "fst x \<le> start + readDeadline \<or> (\<exists>p. (p, Pong) \<in> set frs \<and> p < fst x \<and> fst x \<le> p + readDeadline)"
    proof (cases "fst x \<le> start + readDeadline")
      case False
      define k where "k = (fst x - start - 5 * second - 1) div pingInterval"
      have "k * pingInterval \<le> fst x - start - 5 * second - 1" "fst x - start - 5 * second - 1 < (k + 1) * pingInterval"
        unfolding k_def pingInterval_def second_def by (simp_all add: algebra_simps)
      then have k: "start + k * pingInterval + 5 * second < fst x" "fst x \<le> start + k * pingInterval + readDeadline"
        by (simp_all add: algebra_simps pingInterval_def readDeadline_def second_def)
      have "k > 0" using False k(2) by (simp add: pingInterval_def readDeadline_def second_def)
      then obtain p where "(p, Pong) \<in> set frs" "start + k * pingInterval \<le> p" "p \<le> start + k * pingInterval + 5 * second"
        using assms(3) x k(1) by blast
      with k show ?thesis by fastforce
    qed simp
  qed
qed

text \<open>A client that answers one ping after four seconds, sends one message and then a second one.\<close>

theorem heartbeat_keeps_alive_witness:
  "readLoop 0 [(10 * second, Message 10 None), (29 * second, Pong), (40 * second, Silence), (54 * second, Message 10 (Some JNull))] =
     [Handle None, Handle (Some JNull)]"
proof -
  let ?f = "[(10 * second, Message 10 None), (29 * second, Pong), (40 * second, Silence), (54 * second, Message 10 (Some JNull))]"
  have k: "k = 1" if "0 < k" "k * pingInterval + 5 * second < 54 * second" for k :: int
    using that by (simp add: pingInterval_def second_def)
  have "readLoop 0 ?f = messages ?f"
  proof (rule heartbeat_keeps_alive)
    show "\<forall>x\<in>set ?f. \<forall>k>0. 0 + k * pingInterval + 5 * second < fst x \<longrightarrow>
       (\<exists>p. (p, Pong) \<in> set ?f \<and> 0 + k * pingInterval \<le> p \<and> p \<le> 0 + k * pingInterval + 5 * second)"
    proof (intro ballI allI impI)
      fix x k assume "x \<in> set ?f" "(0 :: int) < k" "0 + k * pingInterval + 5 * second < fst x"
      then have "k = 1" using k [of k] by (auto simp: second_def)
      then show "\<exists>p. (p, Pong) \<in> set ?f \<and> 0 + k * pingInterval \<le> p \<and> p \<le> 0 + k * pingInterval + 5 * second"
        by (intro exI [of _ "29 * second"]) (simp add: pingInterval_def second_def)
    qed
  qed (auto simp: second_def acceptable_def readLimit_def)
  then show ?thesis by (simp add: messages_def)
qed

lemma read_loop_silent:
  assumes "\<forall>x\<in>set frs. snd x \<noteq> Pong" "\<exists>x\<in>set frs. deadline < fst x"
  shows "Leave \<in> set (read_loop deadline frs)"
  using assms by (induction deadline frs rule: read_loop.induct) (auto split: frame.split)

lemma seat_token: "hub_inv lib h \<Longrightarrow> cHostToken (hHeap h c) \<noteq> '''' \<Longrightarrow> cHostToken (hHeap h c) = mHostAuth (hMgr h)"
  by (auto simp: hub_inv_def seat_inv_def split: if_splits)

lemma read_end_gone: "hub_inv lib h \<Longrightarrow> \<not> registered (read_end c h) c"
proof (cases "cHostToken (hHeap h c) = ''''")
  case True
  assume "hub_inv lib h"
  with True Unregister_gone [of h c] show ?thesis by (simp add: hub_inv_def read_end_def)
next
  case False
  assume "hub_inv lib h"
  with False read_end_frees [of lib h c] seat_token show ?thesis by blast
qed

text \<open>
  C24: a dead connection does not stay. A client that sends no pong for 30 seconds is cut off, whatever else it
  sends: the loop leaves after the messages that came in time, and leaving takes the client out of the registry
  and, if it was the host, frees the seat.
\<close>
theorem silent_client_leaves:
  assumes "\<forall>x\<in>set frs. snd x \<noteq> Pong" "\<exists>x\<in>set frs. start + readDeadline < fst x"
    "booted lib m0" "(hub_step lib)\<^sup>*\<^sup>* (NewHub m0) h"
  shows "(\<exists>frs'. prefix frs' frs \<and> readLoop start frs = messages frs' @ [Leave]) \<and>
    \<not> registered (read_act lib b c Leave h) c \<and>
    (cHostToken (hHeap h c) \<noteq> '''' \<longrightarrow> mHostAuth (hMgr (read_act lib b c Leave h)) = '''')"
proof (intro conjI)
  have inv: "hub_inv lib h" by (rule network_inv [OF assms(3,4)])
  have "Leave \<notin> set (messages frs')" for frs' by (auto simp: messages_def split: frame.splits)
  then show "\<exists>frs'. prefix frs' frs \<and> readLoop start frs = messages frs' @ [Leave]"
    using read_loop_leaves [of frs "start + readDeadline"] read_loop_silent [OF assms(1,2)] unfolding readLoop_def by metis
  show "\<not> registered (read_act lib b c Leave h) c"
    using read_end_gone [OF inv] by (simp add: read_act_def)
  show "cHostToken (hHeap h c) \<noteq> '''' \<longrightarrow> mHostAuth (hMgr (read_act lib b c Leave h)) = ''''"
    using read_end_frees [OF inv] seat_token [OF inv] by (simp add: read_act_def)
qed

theorem silent_client_leaves_witness:
  "readLoop 0 [(20 * second, Message 10 None), (31 * second, Message 10 None)] = [Handle None, Leave] \<and>
   mHostAuth (hMgr demo_hub) = ''2a'' \<and> mHostAuth (hMgr (read_act demo_lib None 0 Leave demo_hub)) = ''''"
  using silent_client_leaves [OF _ _ demo_booted demo_hub_run,
      where frs = "[(20 * second, Message 10 None), (31 * second, Message 10 None)]" and start = 0 and c = 0 and b = None]
    demo_hub_facts(1,2,4)
  by (simp add: readLoop_def readDeadline_def readLimit_def second_def)

end
