(* ===== verification/Clone.thy ===== *)
theory Clone
  imports EngineBase
begin

text \<open>
  \<open>internal/game/state_clone.go\<close>: the deep copy behind every state the engine hands out. Here a slice, a
  map and a pointer are what they are in Go, an address, with \<open>None\<close> for nil, and the objects live in
  a heap. The rest of the development takes a state as a value; this theory is the reason it may: the
  copy denotes the same state and shares no object with the original.
\<close>

section \<open>States with references\<close>

type_synonym addr = nat

record raw_game_end =
  xeReason :: end_reason
  xeWinner :: "addr option"
  xeDeadline :: time

text \<open>One map per type of object, and the next free address.\<close>

record objects =
  oPlayers :: "addr \<Rightarrow> player list"
  oBallots :: "addr \<Rightarrow> (player_id, player_id) gomap"
  oIDs :: "addr \<Rightarrow> player_id list"
  oChecks :: "addr \<Rightarrow> police_check_record list"
  oID :: "addr \<Rightarrow> player_id"
  oTeam :: "addr \<Rightarrow> team"
  oReason :: "addr \<Rightarrow> end_reason"
  oGameEnd :: "addr \<Rightarrow> raw_game_end"
  oNext :: addr

text \<open>
  The struct \<open>State\<close> as it lies in memory. \<open>xPlain\<close> holds the fields that are plain values; its fields for
  the references are not used.
\<close>

record raw_state =
  xPlain :: state
  xPlayers :: "addr option"
  xVotes :: "addr option"
  xVoteCandidates :: "addr option"
  xPoliceHistory :: "addr option"
  xMafiaTarget :: "addr option"
  xDoctorTarget :: "addr option"
  xPoliceTarget :: "addr option"
  xWinner :: "addr option"
  xEndReason :: "addr option"
  xGameEnd :: "addr option"

definition elements :: "(addr \<Rightarrow> 'a list) \<Rightarrow> addr option \<Rightarrow> 'a list" where
  "elements h r = (case r of None \<Rightarrow> [] | Some a \<Rightarrow> h a)"

definition game_end_at :: "objects \<Rightarrow> addr \<Rightarrow> pending_game_end" where
  "game_end_at h a = \<lparr>geReason = xeReason (oGameEnd h a), geWinner = map_option (oTeam h) (xeWinner (oGameEnd h a)),
     geDeadline = xeDeadline (oGameEnd h a)\<rparr>"

text \<open>The value a state denotes.\<close>

definition denotes :: "objects \<Rightarrow> raw_state \<Rightarrow> state" where
  "denotes h s = (xPlain s)
     \<lparr>Players := elements (oPlayers h) (xPlayers s), Votes := elements (oBallots h) (xVotes s),
      VoteCandidates := elements (oIDs h) (xVoteCandidates s), PoliceHistory := elements (oChecks h) (xPoliceHistory s),
      PendingMafiaTarget := map_option (oID h) (xMafiaTarget s), PendingDoctorTarget := map_option (oID h) (xDoctorTarget s),
      PendingPoliceTarget := map_option (oID h) (xPoliceTarget s), Winner := map_option (oTeam h) (xWinner s),
      EndReason := map_option (oReason h) (xEndReason s), PendingGameEnd := map_option (game_end_at h) (xGameEnd s)\<rparr>"

section \<open>Clone\<close>

text \<open>
  One step per field, in the order of the source: when the reference is not nil, a new object with the
  same contents is allocated.
\<close>

type_synonym copying = "objects \<times> raw_state"

definition clone_ref :: "(raw_state \<Rightarrow> addr option) \<Rightarrow> ((addr option \<Rightarrow> addr option) \<Rightarrow> raw_state \<Rightarrow> raw_state) \<Rightarrow>
    (((addr \<Rightarrow> 'a) \<Rightarrow> addr \<Rightarrow> 'a) \<Rightarrow> objects \<Rightarrow> objects) \<Rightarrow> raw_state \<Rightarrow> copying \<Rightarrow> copying" where
  "clone_ref get put put_objects s = (\<lambda>(h, out).
     case get s of
       None \<Rightarrow> (h, out)
     | Some a \<Rightarrow> ((put_objects (\<lambda>m. m(oNext h := m a)) h)\<lparr>oNext := Suc (oNext h)\<rparr>, put (\<lambda>_. Some (oNext h)) out))"

definition clone_game_end :: "raw_state \<Rightarrow> copying \<Rightarrow> copying" where
  "clone_game_end s = (\<lambda>(h, out). case xGameEnd s of None \<Rightarrow> (h, out)
     | Some a \<Rightarrow>
         let p = oGameEnd h a;
             (h, p) = (case xeWinner p of None \<Rightarrow> (h, p)
               | Some w \<Rightarrow> (h\<lparr>oTeam := (oTeam h)(oNext h := oTeam h w), oNext := Suc (oNext h)\<rparr>, p\<lparr>xeWinner := Some (oNext h)\<rparr>))
         in (h\<lparr>oGameEnd := (oGameEnd h)(oNext h := p), oNext := Suc (oNext h)\<rparr>, out\<lparr>xGameEnd := Some (oNext h)\<rparr>))"

definition Clone :: "objects \<Rightarrow> raw_state \<Rightarrow> objects \<times> raw_state" where
  "Clone h s =
     (let c = (h, s);
          c = clone_ref xPlayers xPlayers_update oPlayers_update s c;
          c = clone_ref xVotes xVotes_update oBallots_update s c;
          c = clone_ref xVoteCandidates xVoteCandidates_update oIDs_update s c;
          c = clone_ref xPoliceHistory xPoliceHistory_update oChecks_update s c;
          c = clone_ref xMafiaTarget xMafiaTarget_update oID_update s c;
          c = clone_ref xDoctorTarget xDoctorTarget_update oID_update s c;
          c = clone_ref xPoliceTarget xPoliceTarget_update oID_update s c;
          c = clone_ref xWinner xWinner_update oTeam_update s c;
          c = clone_ref xEndReason xEndReason_update oReason_update s c
      in clone_game_end s c)"

section \<open>The copy is deep\<close>

text \<open>The addresses through which a state can be changed.\<close>

definition reaches :: "objects \<Rightarrow> raw_state \<Rightarrow> addr set" where
  "reaches h s = set_option (xPlayers s) \<union> set_option (xVotes s) \<union> set_option (xVoteCandidates s) \<union>
     set_option (xPoliceHistory s) \<union> set_option (xMafiaTarget s) \<union> set_option (xDoctorTarget s) \<union>
     set_option (xPoliceTarget s) \<union> set_option (xWinner s) \<union> set_option (xEndReason s) \<union> set_option (xGameEnd s) \<union>
     (\<Union>a\<in>set_option (xGameEnd s). set_option (xeWinner (oGameEnd h a)))"

text \<open>Two heaps agree on a set of addresses.\<close>

definition agree :: "addr set \<Rightarrow> objects \<Rightarrow> objects \<Rightarrow> bool" where
  "agree A h h' \<longleftrightarrow> (\<forall>a\<in>A. oPlayers h' a = oPlayers h a \<and> oBallots h' a = oBallots h a \<and> oIDs h' a = oIDs h a \<and>
     oChecks h' a = oChecks h a \<and> oID h' a = oID h a \<and> oTeam h' a = oTeam h a \<and> oReason h' a = oReason h a \<and>
     oGameEnd h' a = oGameEnd h a)"

lemma agree_refl [simp]: "agree A h h" by (simp add: agree_def)

lemma agree_trans: "agree A h h' \<Longrightarrow> agree A h' h'' \<Longrightarrow> agree A h h''" by (simp add: agree_def)

lemma agree_mono: "agree B h h' \<Longrightarrow> A \<subseteq> B \<Longrightarrow> agree A h h'" by (auto simp: agree_def)

lemma denotes_agree:
  assumes "agree (reaches h s) h h'"
  shows "denotes h' s = denotes h s"
proof -
  have r: "\<And>a. a \<in> reaches h s \<Longrightarrow> oPlayers h' a = oPlayers h a \<and> oBallots h' a = oBallots h a \<and> oIDs h' a = oIDs h a \<and>
     oChecks h' a = oChecks h a \<and> oID h' a = oID h a \<and> oTeam h' a = oTeam h a \<and> oReason h' a = oReason h a \<and>
     oGameEnd h' a = oGameEnd h a"
    using assms by (simp add: agree_def)
  have "elements (oPlayers h') (xPlayers s) = elements (oPlayers h) (xPlayers s)"
    "elements (oBallots h') (xVotes s) = elements (oBallots h) (xVotes s)"
    "elements (oIDs h') (xVoteCandidates s) = elements (oIDs h) (xVoteCandidates s)"
    "elements (oChecks h') (xPoliceHistory s) = elements (oChecks h) (xPoliceHistory s)"
    "map_option (oID h') (xMafiaTarget s) = map_option (oID h) (xMafiaTarget s)"
    "map_option (oID h') (xDoctorTarget s) = map_option (oID h) (xDoctorTarget s)"
    "map_option (oID h') (xPoliceTarget s) = map_option (oID h) (xPoliceTarget s)"
    "map_option (oTeam h') (xWinner s) = map_option (oTeam h) (xWinner s)"
    "map_option (oReason h') (xEndReason s) = map_option (oReason h) (xEndReason s)"
    using r by (auto simp: elements_def reaches_def split: option.split intro!: option.map_cong0)
  moreover have "map_option (game_end_at h') (xGameEnd s) = map_option (game_end_at h) (xGameEnd s)"
  proof (cases "xGameEnd s")
    case (Some a)
    then have "a \<in> reaches h s" "\<And>w. xeWinner (oGameEnd h a) = Some w \<Longrightarrow> w \<in> reaches h s"
      by (auto simp: reaches_def)
    with r Some show ?thesis by (auto simp: game_end_at_def intro!: option.map_cong0)
  qed simp
  ultimately show ?thesis by (simp add: denotes_def)
qed

text \<open>Allocation only: objects that exist are left alone.\<close>

definition grows :: "objects \<Rightarrow> objects \<Rightarrow> bool" where
  "grows h h' \<longleftrightarrow> oNext h \<le> oNext h' \<and> agree {..<oNext h} h h'"

lemma grows_refl [simp]: "grows h h" by (simp add: grows_def agree_def)

lemma grows_trans: "grows h h' \<Longrightarrow> grows h' h'' \<Longrightarrow> grows h h''"
  by (auto simp: grows_def intro: agree_trans agree_mono)

text \<open>The reference \<open>r'\<close> is a fresh copy of what \<open>r\<close> refers to.\<close>

definition copy_of :: "(objects \<Rightarrow> addr \<Rightarrow> 'a) \<Rightarrow> objects \<Rightarrow> objects \<Rightarrow> addr option \<Rightarrow> addr option \<Rightarrow> bool" where
  "copy_of sel h0 h r r' \<longleftrightarrow>
     (case r of None \<Rightarrow> r' = None | Some a \<Rightarrow> \<exists>b. r' = Some b \<and> oNext h0 \<le> b \<and> b < oNext h \<and> sel h b = sel h0 a)"

text \<open>A component of the heap, with its reading and its update.\<close>

definition component :: "(objects \<Rightarrow> addr \<Rightarrow> 'a) \<Rightarrow> (((addr \<Rightarrow> 'a) \<Rightarrow> addr \<Rightarrow> 'a) \<Rightarrow> objects \<Rightarrow> objects) \<Rightarrow> bool" where
  "component sel put \<longleftrightarrow>
     (\<forall>h h' A. agree A h h' \<longrightarrow> (\<forall>a\<in>A. sel h' a = sel h a)) \<and>
     (\<forall>f h. sel (put f h) = f (sel h) \<and> oNext (put f h) = oNext h) \<and>
     (\<forall>f h A. (\<forall>a\<in>A. f (sel h) a = sel h a) \<longrightarrow> agree A h (put f h)) \<and>
     (\<forall>h n. sel (h\<lparr>oNext := n\<rparr>) = sel h)"

lemma components [simp]:
  "component oPlayers oPlayers_update" "component oBallots oBallots_update" "component oIDs oIDs_update"
  "component oChecks oChecks_update" "component oID oID_update" "component oTeam oTeam_update"
  "component oReason oReason_update" "component oGameEnd oGameEnd_update"
  by (simp_all add: component_def agree_def)

lemma componentD:
  assumes "component sel put"
  shows "\<And>h h' A a. agree A h h' \<Longrightarrow> a \<in> A \<Longrightarrow> sel h' a = sel h a"
    "\<And>f h. sel (put f h) = f (sel h)" "\<And>f h. oNext (put f h) = oNext h"
    "\<And>f h A. (\<And>a. a \<in> A \<Longrightarrow> f (sel h) a = sel h a) \<Longrightarrow> agree A h (put f h)"
    "\<And>h n. sel (h\<lparr>oNext := n\<rparr>) = sel h"
  using assms unfolding component_def by auto

lemma sel_grows: "grows h0 h \<Longrightarrow> component sel put \<Longrightarrow> a < oNext h0 \<Longrightarrow> sel h a = sel h0 a"
  by (rule componentD(1) [of sel put "{..<oNext h0}"]) (simp_all add: grows_def)

lemma copy_of_grows:
  assumes "copy_of sel h0 h r r'" "component sel put" "grows h h'"
  shows "copy_of sel h0 h' r r'"
proof (cases r)
  case (Some a)
  with assms(1) obtain b where b: "r' = Some b" "oNext h0 \<le> b" "b < oNext h" "sel h b = sel h0 a"
    by (auto simp: copy_of_def)
  moreover have "sel h' b = sel h b" by (rule sel_grows [OF assms(3,2) b(3)])
  moreover have "oNext h \<le> oNext h'" using assms(3) by (simp add: grows_def)
  ultimately show ?thesis using Some by (simp add: copy_of_def)
qed (use assms(1) in \<open>simp add: copy_of_def\<close>)

lemma agree_next [simp]: "agree A h (h'\<lparr>oNext := n\<rparr>) = agree A h h'"
  by (simp add: agree_def)

lemma step:
  assumes "component sel put_objects" "grows h0 h" "\<And>a. get s = Some a \<Longrightarrow> a < oNext h0"
    "clone_ref get put put_objects s (h, out) = (h', out')" "put (\<lambda>_. get s) out = out"
  shows "grows h h'" "\<exists>r. out' = put (\<lambda>_. r) out \<and> copy_of sel h0 h' (get s) r"
proof -
  show "grows h h'"
  proof (cases "get s")
    case (Some a)
    have "agree {..<oNext h} h (put_objects (\<lambda>m. m(oNext h := m a)) h)"
      by (rule componentD(4) [OF assms(1)]) simp
    with Some assms(4) componentD(3) [OF assms(1)] show ?thesis by (auto simp: clone_ref_def grows_def)
  qed (use assms(4) in \<open>simp add: clone_ref_def\<close>)
  show "\<exists>r. out' = put (\<lambda>_. r) out \<and> copy_of sel h0 h' (get s) r"
  proof (cases "get s")
    case None
    with assms(4,5) show ?thesis by (auto simp: clone_ref_def copy_of_def intro!: exI [of _ None])
  next
    case (Some a)
    have "oNext h0 \<le> oNext h" "sel h a = sel h0 a"
      using assms(2) sel_grows [OF assms(2,1) assms(3) [OF Some]] by (simp_all add: grows_def)
    with Some assms(4) componentD [OF assms(1)] show ?thesis by (auto simp: clone_ref_def copy_of_def)
  qed
qed


text \<open>The pending end is copied together with the team it points to.\<close>

definition copied_end :: "objects \<Rightarrow> objects \<Rightarrow> addr option \<Rightarrow> addr option \<Rightarrow> bool" where
  "copied_end h0 h r r' \<longleftrightarrow>
     (case r of None \<Rightarrow> r' = None
      | Some a \<Rightarrow> \<exists>b. r' = Some b \<and> oNext h0 \<le> b \<and> b < oNext h \<and>
          xeReason (oGameEnd h b) = xeReason (oGameEnd h0 a) \<and> xeDeadline (oGameEnd h b) = xeDeadline (oGameEnd h0 a) \<and>
          copy_of oTeam h0 h (xeWinner (oGameEnd h0 a)) (xeWinner (oGameEnd h b)))"

lemma step_end:
  assumes "grows h0 h" "\<And>a. xGameEnd s = Some a \<Longrightarrow> a < oNext h0 \<and> (\<forall>w. xeWinner (oGameEnd h0 a) = Some w \<longrightarrow> w < oNext h0)"
    "clone_game_end s (h, out) = (h', out')" "xGameEnd out = xGameEnd s"
  shows "grows h h'" "\<exists>r. out' = out\<lparr>xGameEnd := r\<rparr> \<and> copied_end h0 h' (xGameEnd s) r"
proof -
  have n: "oNext h0 \<le> oNext h" using assms(1) by (simp add: grows_def)
  show "grows h h'"
    using assms(3) by (auto simp: clone_game_end_def grows_def agree_def Let_def split: option.splits prod.splits)
  show "\<exists>r. out' = out\<lparr>xGameEnd := r\<rparr> \<and> copied_end h0 h' (xGameEnd s) r"
  proof (cases "xGameEnd s")
    case None
    with assms(3,4) show ?thesis by (auto simp: clone_game_end_def copied_end_def intro!: exI [of _ None])
  next
    case (Some a)
    have a: "oGameEnd h a = oGameEnd h0 a" using sel_grows [OF assms(1), of oGameEnd oGameEnd_update a] assms(2) [OF Some] by simp
    have w: "oTeam h w = oTeam h0 w" if "xeWinner (oGameEnd h0 a) = Some w" for w
      using sel_grows [OF assms(1), of oTeam oTeam_update w] assms(2) [OF Some] that by simp
    show ?thesis
    proof (cases "xeWinner (oGameEnd h0 a)")
      case None
      with Some assms(3) a n show ?thesis by (auto simp: clone_game_end_def copied_end_def copy_of_def)
    next
      case W: (Some w')
      with Some assms(3) a n w [OF W] show ?thesis by (auto simp: clone_game_end_def copied_end_def copy_of_def)
    qed
  qed
qed

lemma copied_end_denotes:
  "copied_end h0 h r r' \<Longrightarrow> map_option (game_end_at h) r' = map_option (game_end_at h0) r"
  by (auto simp: copied_end_def copy_of_def game_end_at_def split: option.splits)

lemma copy_of_value: "copy_of sel h0 h r r' \<Longrightarrow> map_option (sel h) r' = map_option (sel h0) r"
  "copy_of sel h0 h r r' \<Longrightarrow> a \<in> set_option r' \<Longrightarrow> oNext h0 \<le> a \<and> a < oNext h"
  by (auto simp: copy_of_def split: option.splits)

lemma copy_of_elements: "copy_of sel h0 h r r' \<Longrightarrow> elements (sel h) r' = elements (sel h0) r"
  by (auto simp: copy_of_def elements_def split: option.splits)


lemma step':
  assumes "component sel put_objects" "grows h0 h" "\<And>a. get s = Some a \<Longrightarrow> a < oNext h0"
    "clone_ref get put put_objects s (h, out) = (h', out')" "put (\<lambda>_. get s) out = out"
  shows "\<exists>r. out' = put (\<lambda>_. r) out \<and> grows h0 h' \<and> grows h h' \<and> copy_of sel h0 h' (get s) r"
  using step [OF assms] grows_trans [OF assms(2) step(1) [OF assms]] by blast

lemma Clone_fields:
  assumes "reaches h s \<subseteq> {..<oNext h}" "Clone h s = (h', t)"
  obtains r1 r2 r3 r4 r5 r6 r7 r8 r9 r10 where
    "grows h h'"
    "t = s\<lparr>xPlayers := r1, xVotes := r2, xVoteCandidates := r3, xPoliceHistory := r4, xMafiaTarget := r5,
       xDoctorTarget := r6, xPoliceTarget := r7, xWinner := r8, xEndReason := r9, xGameEnd := r10\<rparr>"
    "copy_of oPlayers h h' (xPlayers s) r1" "copy_of oBallots h h' (xVotes s) r2"
    "copy_of oIDs h h' (xVoteCandidates s) r3" "copy_of oChecks h h' (xPoliceHistory s) r4"
    "copy_of oID h h' (xMafiaTarget s) r5" "copy_of oID h h' (xDoctorTarget s) r6" "copy_of oID h h' (xPoliceTarget s) r7"
    "copy_of oTeam h h' (xWinner s) r8" "copy_of oReason h h' (xEndReason s) r9" "copied_end h h' (xGameEnd s) r10"
proof -
  have old: "\<And>a. xPlayers s = Some a \<Longrightarrow> a < oNext h" "\<And>a. xVotes s = Some a \<Longrightarrow> a < oNext h"
    "\<And>a. xVoteCandidates s = Some a \<Longrightarrow> a < oNext h" "\<And>a. xPoliceHistory s = Some a \<Longrightarrow> a < oNext h"
    "\<And>a. xMafiaTarget s = Some a \<Longrightarrow> a < oNext h" "\<And>a. xDoctorTarget s = Some a \<Longrightarrow> a < oNext h"
    "\<And>a. xPoliceTarget s = Some a \<Longrightarrow> a < oNext h" "\<And>a. xWinner s = Some a \<Longrightarrow> a < oNext h"
    "\<And>a. xEndReason s = Some a \<Longrightarrow> a < oNext h"
    "\<And>a. xGameEnd s = Some a \<Longrightarrow> a < oNext h \<and> (\<forall>w. xeWinner (oGameEnd h a) = Some w \<longrightarrow> w < oNext h)"
    using assms(1) by (auto simp: reaches_def)
  obtain h1 o1 where c1: "clone_ref xPlayers xPlayers_update oPlayers_update s (h, s) = (h1, o1)" by fastforce
  obtain h2 o2 where c2: "clone_ref xVotes xVotes_update oBallots_update s (h1, o1) = (h2, o2)" by fastforce
  obtain h3 o3 where c3: "clone_ref xVoteCandidates xVoteCandidates_update oIDs_update s (h2, o2) = (h3, o3)" by fastforce
  obtain h4 o4 where c4: "clone_ref xPoliceHistory xPoliceHistory_update oChecks_update s (h3, o3) = (h4, o4)" by fastforce
  obtain h5 o5 where c5: "clone_ref xMafiaTarget xMafiaTarget_update oID_update s (h4, o4) = (h5, o5)" by fastforce
  obtain h6 o6 where c6: "clone_ref xDoctorTarget xDoctorTarget_update oID_update s (h5, o5) = (h6, o6)" by fastforce
  obtain h7 o7 where c7: "clone_ref xPoliceTarget xPoliceTarget_update oID_update s (h6, o6) = (h7, o7)" by fastforce
  obtain h8 o8 where c8: "clone_ref xWinner xWinner_update oTeam_update s (h7, o7) = (h8, o8)" by fastforce
  obtain h9 o9 where c9: "clone_ref xEndReason xEndReason_update oReason_update s (h8, o8) = (h9, o9)" by fastforce
  have c10: "clone_game_end s (h9, o9) = (h', t)" using assms(2) by (simp add: Clone_def c1 c2 c3 c4 c5 c6 c7 c8 c9)
  obtain r1 where r1: "o1 = s\<lparr>xPlayers := r1\<rparr>" "grows h h1" "grows h h1" "copy_of oPlayers h h1 (xPlayers s) r1"
    using step' [OF _ grows_refl old(1) c1, of oPlayers] by (auto)
  obtain r2 where r2: "o2 = o1\<lparr>xVotes := r2\<rparr>" "grows h h2" "grows h1 h2" "copy_of oBallots h h2 (xVotes s) r2"
    using step' [OF _ r1(2) old(2) c2, of oBallots] by (auto simp: r1(1))
  obtain r3 where r3: "o3 = o2\<lparr>xVoteCandidates := r3\<rparr>" "grows h h3" "grows h2 h3" "copy_of oIDs h h3 (xVoteCandidates s) r3"
    using step' [OF _ r2(2) old(3) c3, of oIDs] by (auto simp: r1(1) r2(1))
  obtain r4 where r4: "o4 = o3\<lparr>xPoliceHistory := r4\<rparr>" "grows h h4" "grows h3 h4" "copy_of oChecks h h4 (xPoliceHistory s) r4"
    using step' [OF _ r3(2) old(4) c4, of oChecks] by (auto simp: r1(1) r2(1) r3(1))
  obtain r5 where r5: "o5 = o4\<lparr>xMafiaTarget := r5\<rparr>" "grows h h5" "grows h4 h5" "copy_of oID h h5 (xMafiaTarget s) r5"
    using step' [OF _ r4(2) old(5) c5, of oID] by (auto simp: r1(1) r2(1) r3(1) r4(1))
  obtain r6 where r6: "o6 = o5\<lparr>xDoctorTarget := r6\<rparr>" "grows h h6" "grows h5 h6" "copy_of oID h h6 (xDoctorTarget s) r6"
    using step' [OF _ r5(2) old(6) c6, of oID] by (auto simp: r1(1) r2(1) r3(1) r4(1) r5(1))
  obtain r7 where r7: "o7 = o6\<lparr>xPoliceTarget := r7\<rparr>" "grows h h7" "grows h6 h7" "copy_of oID h h7 (xPoliceTarget s) r7"
    using step' [OF _ r6(2) old(7) c7, of oID] by (auto simp: r1(1) r2(1) r3(1) r4(1) r5(1) r6(1))
  obtain r8 where r8: "o8 = o7\<lparr>xWinner := r8\<rparr>" "grows h h8" "grows h7 h8" "copy_of oTeam h h8 (xWinner s) r8"
    using step' [OF _ r7(2) old(8) c8, of oTeam] by (auto simp: r1(1) r2(1) r3(1) r4(1) r5(1) r6(1) r7(1))
  obtain r9 where r9: "o9 = o8\<lparr>xEndReason := r9\<rparr>" "grows h h9" "grows h8 h9" "copy_of oReason h h9 (xEndReason s) r9"
    using step' [OF _ r8(2) old(9) c9, of oReason] by (auto simp: r1(1) r2(1) r3(1) r4(1) r5(1) r6(1) r7(1) r8(1))
  obtain r10 where r10: "t = o9\<lparr>xGameEnd := r10\<rparr>" "grows h9 h'" "copied_end h h' (xGameEnd s) r10"
    using step_end [OF r9(2) old(10) c10] by (auto simp: r1(1) r2(1) r3(1) r4(1) r5(1) r6(1) r7(1) r8(1) r9(1))
  have g9: "grows h9 h'" by (rule r10(2))
  have g8: "grows h8 h'" by (rule grows_trans [OF r9(3) g9])
  have g7: "grows h7 h'" by (rule grows_trans [OF r8(3) g8])
  have g6: "grows h6 h'" by (rule grows_trans [OF r7(3) g7])
  have g5: "grows h5 h'" by (rule grows_trans [OF r6(3) g6])
  have g4: "grows h4 h'" by (rule grows_trans [OF r5(3) g5])
  have g3: "grows h3 h'" by (rule grows_trans [OF r4(3) g4])
  have g2: "grows h2 h'" by (rule grows_trans [OF r3(3) g3])
  have g1: "grows h1 h'" by (rule grows_trans [OF r2(3) g2])
  have "grows h h'" by (rule grows_trans [OF r1(3) g1])
  then show ?thesis
    using copy_of_grows [OF r1(4) _ g1, of oPlayers_update]
      copy_of_grows [OF r2(4) _ g2, of oBallots_update]
      copy_of_grows [OF r3(4) _ g3, of oIDs_update]
      copy_of_grows [OF r4(4) _ g4, of oChecks_update]
      copy_of_grows [OF r5(4) _ g5, of oID_update]
      copy_of_grows [OF r6(4) _ g6, of oID_update]
      copy_of_grows [OF r7(4) _ g7, of oID_update]
      copy_of_grows [OF r8(4) _ g8, of oTeam_update]
      copy_of_grows [OF r9(4) _ g9, of oReason_update]
      r10(3)
    by (intro that) (simp_all add: r10(1) r9(1) r8(1) r7(1) r6(1) r5(1) r4(1) r3(1) r2(1) r1(1))
qed


lemma reaches_stable: "grows h h' \<Longrightarrow> reaches h s \<subseteq> {..<oNext h} \<Longrightarrow> reaches h' s = reaches h s"
  using sel_grows [of h h' oGameEnd oGameEnd_update] by (cases "xGameEnd s") (auto simp: reaches_def)

lemma Clone_reaches:
  assumes "reaches h s \<subseteq> {..<oNext h}" "Clone h s = (h', t)"
  shows "reaches h' t \<subseteq> {oNext h..<oNext h'}"
proof -
  obtain r1 r2 r3 r4 r5 r6 r7 r8 r9 r10 where t:
    "t = s\<lparr>xPlayers := r1, xVotes := r2, xVoteCandidates := r3, xPoliceHistory := r4, xMafiaTarget := r5,
       xDoctorTarget := r6, xPoliceTarget := r7, xWinner := r8, xEndReason := r9, xGameEnd := r10\<rparr>"
    and c: "copy_of oPlayers h h' (xPlayers s) r1" "copy_of oBallots h h' (xVotes s) r2"
    "copy_of oIDs h h' (xVoteCandidates s) r3" "copy_of oChecks h h' (xPoliceHistory s) r4"
    "copy_of oID h h' (xMafiaTarget s) r5" "copy_of oID h h' (xDoctorTarget s) r6" "copy_of oID h h' (xPoliceTarget s) r7"
    "copy_of oTeam h h' (xWinner s) r8" "copy_of oReason h h' (xEndReason s) r9" and e: "copied_end h h' (xGameEnd s) r10"
    using Clone_fields [OF assms] by metis
  have "set_option r10 \<union> (\<Union>a\<in>set_option r10. set_option (xeWinner (oGameEnd h' a))) \<subseteq> {oNext h..<oNext h'}"
    using e copy_of_value(2) by (fastforce simp: copied_end_def split: option.splits)
  with c [THEN copy_of_value(2)] show ?thesis by (auto simp: reaches_def t)
qed

lemma Clone_denotes:
  assumes "reaches h s \<subseteq> {..<oNext h}" "Clone h s = (h', t)"
  shows "denotes h' t = denotes h s" "grows h h'" "xPlayers t = None \<longleftrightarrow> xPlayers s = None" "xVotes t = None \<longleftrightarrow> xVotes s = None"
proof -
  obtain r1 r2 r3 r4 r5 r6 r7 r8 r9 r10 where g: "grows h h'" and t:
    "t = s\<lparr>xPlayers := r1, xVotes := r2, xVoteCandidates := r3, xPoliceHistory := r4, xMafiaTarget := r5,
       xDoctorTarget := r6, xPoliceTarget := r7, xWinner := r8, xEndReason := r9, xGameEnd := r10\<rparr>"
    and c: "copy_of oPlayers h h' (xPlayers s) r1" "copy_of oBallots h h' (xVotes s) r2"
    "copy_of oIDs h h' (xVoteCandidates s) r3" "copy_of oChecks h h' (xPoliceHistory s) r4"
    "copy_of oID h h' (xMafiaTarget s) r5" "copy_of oID h h' (xDoctorTarget s) r6" "copy_of oID h h' (xPoliceTarget s) r7"
    "copy_of oTeam h h' (xWinner s) r8" "copy_of oReason h h' (xEndReason s) r9" and e: "copied_end h h' (xGameEnd s) r10"
    using Clone_fields [OF assms] by metis
  show "denotes h' t = denotes h s"
    using c(1-4) [THEN copy_of_elements] c(5-9) [THEN copy_of_value(1)] copied_end_denotes [OF e]
    by (simp add: denotes_def t)
  show "grows h h'" by (rule g)
  show "xPlayers t = None \<longleftrightarrow> xPlayers s = None" "xVotes t = None \<longleftrightarrow> xVotes s = None"
    using c(1,2) by (auto simp: t copy_of_def split: option.splits)
qed

text \<open>
  C17: the copy is deep. A state the engine hands out denotes the same state as the engine's own; nil
  stays nil; whatever the receiver then does with the objects it can reach from the copy, and whatever
  it allocates, the engine's state keeps its value, and no change of the engine's own objects is seen
  through the copy.
\<close>
theorem Clone_isolated:
  assumes "reaches h s \<subseteq> {..<oNext h}" "Clone h s = (h', t)"
  shows "denotes h' t = denotes h s \<and> denotes h' s = denotes h s \<and>
    (xPlayers t = None \<longleftrightarrow> xPlayers s = None) \<and> (xVotes t = None \<longleftrightarrow> xVotes s = None) \<and>
    (\<forall>h''. agree (- reaches h' t \<inter> {..<oNext h'}) h' h'' \<longrightarrow> denotes h'' s = denotes h s) \<and>
    (\<forall>h''. agree (- reaches h' s \<inter> {..<oNext h'}) h' h'' \<longrightarrow> denotes h'' t = denotes h s)"
proof -
  note d = Clone_denotes [OF assms]
  have s: "reaches h' s = reaches h s" by (rule reaches_stable [OF d(2) assms(1)])
  have t: "reaches h' t \<subseteq> {oNext h..<oNext h'}" by (rule Clone_reaches [OF assms])
  have n: "oNext h \<le> oNext h'" using d(2) by (simp add: grows_def)
  have "agree (reaches h s) h h'" by (rule agree_mono [OF _ assms(1)]) (use d(2) in \<open>simp add: grows_def\<close>)
  then have same: "denotes h' s = denotes h s" by (rule denotes_agree)
  have "denotes h'' s = denotes h' s" if "agree (- reaches h' t \<inter> {..<oNext h'}) h' h''" for h''
    by (rule denotes_agree, rule agree_mono [OF that]) (use s t n assms(1) in fastforce)
  moreover have "denotes h'' t = denotes h' t" if "agree (- reaches h' s \<inter> {..<oNext h'}) h' h''" for h''
    by (rule denotes_agree, rule agree_mono [OF that]) (use s t assms(1) in fastforce)
  ultimately show ?thesis using d same by simp
qed

text \<open>A state with two players and a scheduled end, whose copy is then changed by its holder.\<close>

definition demo_objects :: objects where
  "demo_objects = \<lparr>oPlayers = (\<lambda>_. [\<lparr>ID = ''a'', Name = ''ann'', Alive = True, Role = RoleMafia, Keyword = ''k''\<rparr>]),
     oBallots = (\<lambda>_. []), oIDs = (\<lambda>_. []), oChecks = (\<lambda>_. []), oID = (\<lambda>_. ''a''), oTeam = (\<lambda>_. TeamMafia),
     oReason = (\<lambda>_. EndMafiaWin), oGameEnd = (\<lambda>_. \<lparr>xeReason = EndMafiaWin, xeWinner = Some 2, xeDeadline = 7\<rparr>), oNext = 3\<rparr>"

definition demo_raw :: raw_state where
  "demo_raw = \<lparr>xPlain = zero_state, xPlayers = Some 0, xVotes = None, xVoteCandidates = None, xPoliceHistory = None,
     xMafiaTarget = None, xDoctorTarget = None, xPoliceTarget = None, xWinner = None, xEndReason = None, xGameEnd = Some 1\<rparr>"

theorem Clone_isolated_witness:
  "let (h', t) = Clone demo_objects demo_raw; h'' = h'\<lparr>oPlayers := (oPlayers h')(the (xPlayers t) := [])\<rparr> in
   Players (denotes h'' t) = [] \<and> Players (denotes h'' demo_raw) = Players (denotes demo_objects demo_raw)"
proof -
  obtain h' t where c: "Clone demo_objects demo_raw = (h', t)" by fastforce
  have r: "reaches demo_objects demo_raw \<subseteq> {..<oNext demo_objects}"
    by (simp add: reaches_def demo_objects_def demo_raw_def)
  have x: "xPlayers t = Some 3"
    using c by (simp add: Clone_def clone_ref_def clone_game_end_def demo_objects_def demo_raw_def Let_def) auto
  let ?h = "h'\<lparr>oPlayers := (oPlayers h')(3 := [])\<rparr>"
  have "agree (- reaches h' t \<inter> {..<oNext h'}) h' ?h" by (auto simp: agree_def reaches_def x)
  with Clone_isolated [OF r c] have "denotes ?h demo_raw = denotes demo_objects demo_raw" by blast
  moreover have "Players (denotes ?h t) = []" by (simp add: denotes_def elements_def x)
  ultimately show ?thesis by (simp add: c x)
qed

end
