(* ===== verification/Introductions.thy ===== *)
theory Introductions
  imports Scenarios
begin

text \<open>
  The introductions end by themselves: the loop of \<open>tickIntro\<close> (\<open>internal/game/tick.go\<close>) in terms of the
  time left for the remaining speakers.
\<close>

text \<open>The moment at which the last speaker's time is over.\<close>

definition intro_end :: "state \<Rightarrow> time" where
  "intro_end s = IntroSpeakerStartedAt s +
     max 1 (int (length (Players s)) - IntroSpeakerIdx s) * seconds (IntroSecondsPerPlayer (Settings s))"

lemma intro_loop_Phase:
  assumes "Phase (est e) = PhaseIntro" "0 < d" "int64_range d" "0 \<le> IntroSpeakerIdx (est e)"
  shows "Phase (est (fst (intro_loop now d e evs))) =
    (if now < IntroSpeakerStartedAt (est e) + max 1 (int (length (Players (est e))) - IntroSpeakerIdx (est e)) * d
     then PhaseIntro else PhaseDay) \<and> (\<exists>evs'. snd (intro_loop now d e evs) = Inr evs')"
  using assms
proof (induction now d e evs rule: intro_loop.induct)
  case (1 now d e evs)
  let ?s = "est e"
  let ?e = "upd (\<lambda>s. s\<lparr>IntroSpeakerIdx := IntroSpeakerIdx s + 1,
                   IntroSpeakerStartedAt := IntroSpeakerStartedAt s + d\<rparr>) e"
  let ?left = "int (length (Players ?s)) - IntroSpeakerIdx ?s"
  have el: "time_sub now (IntroSpeakerStartedAt ?s) < d \<longleftrightarrow> now < IntroSpeakerStartedAt ?s + d"
    using 1(3,4) by (subst time_sub_less_iff) auto
  show ?case
  proof (cases "IntroSpeakerIdx ?s \<ge> int (length (Players ?s)) - 1")
    case True
    then have "max 1 ?left = 1" by linarith
    with True el 1(2) show ?thesis
      by (subst (1 2) intro_loop.simps) (simp add: Let_def transitionIntroToDay_def ok_def)
  next
    case le: False
    show ?thesis
    proof (cases "now < IntroSpeakerStartedAt ?s + d")
      case True
      moreover have "1 * d \<le> max 1 ?left * d" using 1(3) by (intro mult_right_mono) auto
      ultimately show ?thesis
        using le el 1(2) by (subst (1 2) intro_loop.simps) (simp add: Let_def)
    next
      case False
      obtain p where p: "player_at ?s (IntroSpeakerIdx ?s + 1) = Some p"
        using le 1(5) by (simp add: player_at_def)
      have step: "intro_loop now d e evs = intro_loop now d ?e (evs @ [pub (IntroSpeakerChanged (ID p) (IntroSecondsPerPlayer (Settings ?s)))])"
        using le False el p by (subst intro_loop.simps) (simp add: Let_def)
      have m: "IntroSpeakerStartedAt ?s + max 1 ?left * d =
          IntroSpeakerStartedAt (est ?e) + max 1 (int (length (Players (est ?e))) - IntroSpeakerIdx (est ?e)) * d"
        using le by (simp add: algebra_simps max_def)
      show ?thesis
        unfolding step m using 1(1) [OF refl refl le _ refl, of p] p False el 1(2-5) by simp
    qed
  qed
qed

text \<open>
  C18: the introductions terminate by themselves. Whatever has happened before, a running
  introduction goes on exactly until every remaining speaker has had the configured time, counted
  from the start of the current speaker, and the first tick at or after that moment opens the day;
  nobody has to press a button.
\<close>
theorem intro_terminates:
  assumes "rand_ok lib" "reachable lib e" "Phase (est e) = PhaseIntro" "\<not> Paused (est e)" "LastTickAt (est e) < now"
    "0 < IntroSecondsPerPlayer (Settings (est e))" "IntroSecondsPerPlayer (Settings (est e)) \<le> max_seconds"
  shows "Phase (est (res_engine (Tick lib now e))) = (if now < intro_end (est e) then PhaseIntro else PhaseDay)"
proof -
  have inv: "PendingGameEnd (est e) = None" "0 \<le> IntroSpeakerIdx (est e)"
    using reachable_inv [OF assms(1,2)] assms(3) by (simp_all add: game_inv_def phase_ok_def core_def wf_players_def)
  let ?d = "seconds (IntroSecondsPerPlayer (Settings (est e)))"
  have d: "0 < ?d" "int64_range ?d" using assms(6,7) by (simp_all add: seconds_exact second_def int64_range_def max_seconds_def)
  show ?thesis
    using intro_loop_Phase [of "touch now e" ?d now "[]"] assms(3) d inv
    by (auto simp: Tick_running assms inv tickIntro_def with_state_def intro_end_def ok_def split: prod.split sum.split)
qed

theorem intro_terminates_witness:
  "Phase (est (res_engine (Tick demo_lib (121 * 10 ^ 9) demo_game))) = PhaseDay"
proof -
  have "Phase (est demo_game) = PhaseIntro \<and> \<not> Paused (est demo_game) \<and> LastTickAt (est demo_game) < 121 * 10 ^ 9 \<and>
      0 < IntroSecondsPerPlayer (Settings (est demo_game)) \<and> IntroSecondsPerPlayer (Settings (est demo_game)) \<le> max_seconds \<and>
      \<not> 121 * 10 ^ 9 < intro_end (est demo_game)"
    by code_simp
  then show ?thesis using intro_terminates [OF demo_lib_ok demo_reachable, of "121 * 10 ^ 9"] by simp
qed

end
