(* ===== verification/Storable.thy ===== *)
theory Storable
  imports Persist
begin

text \<open>
  Every state a game can reach can be stored: the invariant that the identifiers in a state are those
  of its players and its numbers are small, over the transition system of theory Reachability, and
  its consequence for the JSON of theory Encoding.
\<close>

section \<open>References and numbers of a reachable state\<close>

definition tidy :: "state \<Rightarrow> bool" where
  "tidy s \<longleftrightarrow> options_in_range (Settings s) \<and>
     set_option (PendingMafiaTarget s) \<union> set_option (PendingDoctorTarget s) \<union> set_option (PendingPoliceTarget s) \<union>
       set (VoteCandidates s) \<subseteq> player_ids s \<and>
     VoteRound s \<in> {0, 1, 2} \<and> 1 \<le> Day s \<and> (\<forall>r\<in>set (PoliceHistory s). 1 \<le> pcDay r)"

lemma tidy_kill: "tidy s \<Longrightarrow> tidy (kill k s)"
  unfolding tidy_def by (simp only: kill_ids_set) (simp add: kill_def)

lemma tidy_die: "tidy (est e) \<Longrightarrow> tidy (est (fst (die lib k e)))"
proof -
  assume "tidy (est e)"
  obtain r where "est (fst (die lib k e)) = (kill k (est e))\<lparr>MafiaRepresentativeID := r\<rparr>"
    using die_est by blast
  with tidy_kill [OF \<open>tidy (est e)\<close>, of k] show ?thesis by (simp add: tidy_def)
qed

lemma tidy_schedule: "tidy (est e) \<Longrightarrow> tidy (est (scheduleGameEnd r w e))"
  by (simp add: scheduleGameEnd_est tidy_def split: option.split)

lemma tidy_enterNight: "tidy (est e) \<Longrightarrow> tidy (est (fst (enterNight e)))"
  by (simp add: enterNight_est tidy_def)

lemma tidy_after: "tidy (est e) \<Longrightarrow> tidy (est (fst (afterElimination evs e)))"
  by (simp add: afterElimination_def transitionVoteToNight_def split_beta Let_def tidy_schedule tidy_enterNight
      split: option.split)

lemma tidy_elimination: "tidy (est e) \<Longrightarrow> tidy (est (fst (applyElimination lib k e)))"
  using tidy_after [OF tidy_die, of e _ lib k]
  by (simp add: applyElimination_die split_beta Let_def split: option.split)

lemma tidy_tally: "tidy (est e) \<Longrightarrow> tidy (est (fst (tally lib e)))"
  using front_runners_subset [of "\<lambda>k. int (ballots_for (Votes (est e)) k)" "Players (est e)"]
  by (auto simp: tally_cases Let_def split_beta tidy_elimination tidy_enterNight) (auto simp: tidy_def)

lemma tidy_startDay: "tidy (est e) \<Longrightarrow> tidy (est (fst (startDay now evs e)))"
proof -
  assume "tidy (est e)"
  then have "tidy (est (upd (day_state now) e))" by (simp add: tidy_def day_state_def)
  then show ?thesis by (auto simp: startDay_eq Let_def tidy_schedule split: option.split)
qed

lemma tidy_resolveNight: "tidy (est e) \<Longrightarrow> tidy (est (fst (resolveNight lib e)))"
  using tidy_startDay [OF tidy_die, of "next_clock e" _ _ lib] tidy_startDay [of "next_clock e"]
  by (simp add: resolveNight_die split_beta Let_def split: option.split)

lemma FindPlayer_ids: "FindPlayer s k = Some p \<Longrightarrow> k \<in> player_ids s"
  using FindPlayer_None [of s k] by auto

lemma tidy_handlers:
  assumes "tidy (est e)"
  shows "tidy (est (res_engine (handleMafiaKill p t e)))"
    "tidy (est (res_engine (handleDoctorHeal p t e)))"
    "tidy (est (res_engine (handlePoliceCheck p t e)))"
    "tidy (est (res_engine (handleEndDiscussionEarly p e)))"
    "tidy (est (res_engine (handleToggleVoice p b e)))"
    "tidy (est (res_engine (handleForceEnd p e)))"
    "tidy (est (res_engine (handlePauseGame p e)))"
  using assms FindPlayer_ids [of "est e" t]
  by (auto simp: guard_est Let_def Now_def handleMafiaKill_def handleDoctorHeal_def handlePoliceCheck_def
      handleEndDiscussionEarly_def transitionDayToVote_def handleToggleVoice_def handleForceEnd_def
      handlePauseGame_def tidy_def options_in_range_def ensureAlive_None FindPlayer_police
      split: option.split simp del: ensureAlive.simps)

lemma tidy_advance: "tidy (est e) \<Longrightarrow> tidy (est (res_engine (advanceSpeaker e)))"
  by (auto simp: advanceSpeaker_def transitionIntroToDay_def Let_def Now_def tidy_def split: option.split)

lemma tidy_resume: "tidy (est e) \<Longrightarrow> tidy (est (res_engine (handleResumeGame h e)))"
  by (auto simp: handleResumeGame_def guard_est Let_def Now_def shift_phase_timer_def shift_pending_end_def tidy_def
      split: phase.split)

lemma tidy_vote: "tidy (est e) \<Longrightarrow> tidy (est (res_engine (handleVote lib v t e)))"
  using tidy_tally [of "upd (\<lambda>s. s\<lparr>Votes := AList.update v t (Votes s)\<rparr>) e" lib]
  by (simp add: handleVote_def guard_est Let_def split_beta) (simp add: tidy_def)

lemma tidy_end_night: "tidy (est e) \<Longrightarrow> tidy (est (res_engine (handleEndNightEarly lib h e)))"
  using tidy_resolveNight [of e lib]
  by (cases "resolveNight lib e"; cases "snd (resolveNight lib e)")
     (simp_all add: handleEndNightEarly_def guard_est Let_def)

lemma tidy_Apply:
  assumes "tidy (est e)" "Phase (est e) \<noteq> PhaseLobby"
  shows "tidy (est (res_engine (Apply lib a e)))"
proof -
  have "tidy (est (res_engine (handleEndSelfIntro p e)))" "tidy (est (res_engine (handleAdvanceIntro p e)))" for p
    using assms(1) tidy_advance [of e]
    by (simp_all add: handleEndSelfIntro_def handleAdvanceIntro_def guard_est Let_def split: option.split)
  with assms show ?thesis
    by (cases a) (simp_all add: Apply_def tidy_handlers tidy_resume tidy_vote tidy_end_night handleStartGame_def)
qed

lemma tidy_intro_loop: "tidy (est e) \<Longrightarrow> tidy (est (fst (intro_loop now d e evs)))"
proof (induction now d e evs rule: intro_loop.induct)
  case (1 now d e evs)
  have day: "tidy (est (res_engine (transitionIntroToDay now e)))"
    using 1(2) by (auto simp: transitionIntroToDay_def Let_def tidy_def)
  have e: "tidy (est (upd (\<lambda>s. s\<lparr>IntroSpeakerIdx := IntroSpeakerIdx s + 1,
      IntroSpeakerStartedAt := IntroSpeakerStartedAt s + d\<rparr>) e))"
    using 1(2) by (simp add: tidy_def)
  show ?case
    using 1(1) [OF refl refl _ _ refl] e day 1(2)
    by (simp add: intro_loop.simps [of now d e evs] Let_def split_beta split: option.split sum.split)
qed

lemma tidy_night_loop: "tidy (est e) \<Longrightarrow> tidy (est (fst (night_loop lib now e evs)))"
proof (induction lib now e evs rule: night_loop.induct)
  case (1 lib now e evs)
  let ?e = "upd (\<lambda>s. s\<lparr>NightStep := NightStepNone, NightStepDeadline := zero_time\<rparr>) e"
  let ?b = "fst (beginNightStep (nextNightStep (NightStep (est e))) (NightStepDeadline (est e)) e)"
  have r: "tidy (est (fst (resolveNight lib ?e)))"
    using 1(2) by (intro tidy_resolveNight) (simp add: tidy_def)
  have b: "tidy (est ?b)" using 1(2) by (auto simp: beginNightStep_def Let_def tidy_def)
  show ?case
    using 1(1) [OF refl _ _ refl refl _ refl prod.collapse] r b 1(2)
    by (simp add: night_loop.simps [of lib now e evs] Let_def split_beta split: sum.split)
qed

lemma tidy_Tick: "tidy (est e) \<Longrightarrow> tidy (est (res_engine (Tick lib now e)))"
proof -
  assume s: "tidy (est e)"
  let ?e = "upd (\<lambda>s. s\<lparr>LastTickAt := now\<rparr>) e"
  have t: "tidy (est ?e)" using s by (simp add: tidy_def)
  have f: "tidy (est (res_engine (firePendingEnd now e)))"
    using s by (auto simp: firePendingEnd_def endGame_def Let_def tidy_def split: option.split)
  have d: "tidy (est (res_engine (tickDay now prev ?e)))" for prev
    using t by (auto simp: tickDay_def transitionDayToVote_def Let_def ok_def tidy_def)
  have "tidy (est (res_engine (tickIntro now ?e)))" "tidy (est (res_engine (tickNight lib now ?e)))"
    using tidy_intro_loop [OF t] tidy_night_loop [OF t] by (simp_all add: tickIntro_def tickNight_def)
  with f d s t show ?thesis by (simp add: Tick_def Let_def split: phase.split option.split)
qed

lemma tidy_Start:
  assumes "options_in_range opts" "res_out (Start lib g h players opts e) = Inr evs"
  shows "tidy (est (res_engine (Start lib g h players opts e)))"
  using assms
  by (auto simp: Start_def Let_def Now_def tidy_def zero_state_def split: option.splits sum.splits prod.splits if_splits)

lemma started_tidy: "started lib e \<Longrightarrow> tidy (est e)"
  by (erule started.cases) (metis tidy_Start lobby_ok_def fst_conv snd_conv)

lemma game_step_tidy:
  assumes "rand_ok lib" "game_inv (est e)" "tidy (est e)" "game_step lib e e'"
  shows "tidy (est e')"
  using assms(4)
proof cases
  case (restart clock rng)
  with assms(2,3) show ?thesis by (simp add: restore_est)
qed (use assms tidy_Apply [of e lib] tidy_Tick [of e lib] inv_phase_started in simp_all)

lemma reachable_tidy:
  assumes "rand_ok lib" "reachable lib e"
  shows "tidy (est e)"
proof -
  obtain e0 where e0: "started lib e0" "(game_step lib)\<^sup>*\<^sup>* e0 e" using assms(2) by (auto simp: reachable_def)
  from e0(2) show ?thesis
  proof (induction rule: rtranclp_induct)
    case (step y z)
    have "reachable lib y" using e0(1) step.hyps(1) by (auto simp: reachable_def)
    from game_step_tidy [OF assms(1) reachable_inv [OF assms(1) this] step.IH step.hyps(2)] show ?case .
  qed (rule started_tidy [OF e0(1)])
qed

section \<open>Every reachable state can be stored\<close>

lemma reachable_storable:
  assumes "rand_ok lib" "reachable lib e" "list_all player_text (Players (est e))"
    "valid_utf8 (GameID (est e))" "valid_utf8 (HostID (est e))" "Day (est e) < 2 ^ 63"
  shows "storable (est e)"
proof -
  let ?s = "est e"
  have core: "wf_players ?s" "rep_ok ?s" "ballots_ok ?s" "police_ok ?s"
    using reachable_inv [OF assms(1,2)] by (simp_all add: game_inv_def core_def)
  have tidy: "tidy ?s" by (rule reachable_tidy [OF assms(1,2)])
  have ids: "valid_utf8 k" if "k \<in> insert '''' (player_ids ?s)" for k
    using that assms(3) by (auto simp: list_all_iff player_text_def valid_utf8_def)
  have "MafiaRepresentativeID ?s \<in> insert '''' (player_ids ?s)"
    using core(2) by (auto simp: rep_ok_def LivingMafiaIDs_def split: if_splits)
  moreover have "list_all valid_utf8 (VoteCandidates ?s)"
    "list_all target_text [PendingMafiaTarget ?s, PendingDoctorTarget ?s, PendingPoliceTarget ?s]"
    using tidy ids by (auto simp: tidy_def list_all_iff target_text_def split: option.split)
  moreover have "list_all (\<lambda>(k, v). valid_utf8 k \<and> valid_utf8 v) (Votes ?s)" "gomap_ok (Votes ?s)"
    using core(3) by (auto simp: ballots_ok_def list_all_iff intro!: ids)
  moreover have "check_text r" if r: "r \<in> set (PoliceHistory ?s)" for r
  proof -
    obtain p where "p \<in> set (Players ?s)" "ID p = pcTarget r" using core(4) r by (auto simp: police_ok_def)
    then have "pcTarget r \<in> player_ids ?s" by force
    moreover have "1 \<le> pcDay r" "pcDay r \<le> Day ?s"
      using tidy core(4) r by (simp_all add: tidy_def police_ok_def)
    ultimately show ?thesis using assms(6) ids by (simp add: check_text_def int64_range_def)
  qed
  moreover have "list_all int64_range [Day ?s, IntroSpeakerIdx ?s, VoteRound ?s]" "options_in_range (Settings ?s)"
    using tidy core(1) assms(6) by (auto simp: tidy_def wf_players_def int64_range_def)
  ultimately show ?thesis using assms(3-5) ids by (simp add: storable_def list_all_iff)
qed

end
