(* ===== verification/Keywords.thy ===== *)
theory Keywords
  imports Storable
begin

text \<open>
  The keywords of a game: the built-in pool of \<open>keyword_pool_data.go\<close>, a pool read from a JSON document
  (\<open>keyword_loader.go\<close>), and what they mean for saving: a game over a pool of UTF-8 words can be saved at
  any time, whatever happened in it.
\<close>

section \<open>keyword\_pool\_data.go\<close>

text \<open>The words by their code points.\<close>

definition defaultMafiaWords :: "string list" where
  "defaultMafiaWords = map utf8
    [[0xADF8, 0xB9BC, 0xC790], [0xCE68, 0xBB35], [0xAC00, 0xBA74], [0xC5B4, 0xB460], [0xC18D, 0xC0AD, 0xC784],
     [0xC228, 0xACB0], [0xC548, 0xAC1C], [0xBE44, 0xBC00], [0xAC70, 0xC6B8], [0xACE8, 0xBAA9], [0xC0C8, 0xBCBD],
     [0xBC00, 0xC2E4], [0xB2AA], [0xC57D, 0xC18D], [0xC794], [0xB4F1, 0xBD88], [0xBC1C, 0xC790, 0xAD6D],
     [0xC790, 0xBB3C, 0xC1E0], [0xC678, 0xD22C], [0xB9DD, 0xD1A0], [0xC11C, 0xB9AC], [0xCC28, 0xAC00, 0xC6C0],
     [0xBB18, 0xBE44], [0xD68C, 0xC0C9], [0xC6B0, 0xBB3C], [0xC720, 0xB9AC, 0xCC3D], [0xD48D, 0xACBD],
     [0xCE7C, 0xB0A0], [0xC637, 0xAE43], [0xADF8, 0xB298], [0xACC4, 0xB2E8], [0xD55C, 0xC228], [0xC0C1, 0xC790],
     [0xAE43, 0xD138], [0xBCBD, 0xC9C0], [0xB2A6, 0xAC00, 0xC744], [0xD718, 0xD30C, 0xB78C], [0xC7A0, 0xC5B8],
     [0xC870, 0xAC01], [0xCE74, 0xB4DC]]"

definition defaultCitizenWords :: "string list" where
  "defaultCitizenWords = map utf8
    [[0xD587, 0xC0B4], [0xBE75], [0xC6B0, 0xC0B0], [0xC2DC, 0xACC4], [0xC8FC, 0xC804, 0xC790], [0xC758, 0xC790],
     [0xCC45, 0xC0C1], [0xC2E0, 0xBB38], [0xC0AC, 0xACFC], [0xBE57, 0xC790, 0xB8E8], [0xC591, 0xB9D0],
     [0xC548, 0xACBD], [0xC6B0, 0xCCB4, 0xD1B5], [0xD654, 0xBD84], [0xD143, 0xBC2D], [0xACE0, 0xC591, 0xC774],
     [0xAC15, 0xC544, 0xC9C0], [0xBE68, 0xB798], [0xBAA8, 0xC790], [0xB2E8, 0xCD94], [0xC5F0, 0xD544],
     [0xACF5, 0xCC45], [0xBB3C, 0xBCD1], [0xC190, 0xC218, 0xAC74], [0xC790, 0xC804, 0xAC70], [0xBAA8, 0xB798],
     [0xB099, 0xC5FD], [0xC885, 0xC774, 0xBC30], [0xC720, 0xCE58, 0xC6D0], [0xBC14, 0xB78C, 0xAC1C, 0xBE44],
     [0xCFE0, 0xD0A4], [0xCC28, 0xC8FC, 0xC804, 0xC790], [0xBC00, 0xC9DA], [0xC190, 0xC804, 0xB4F1],
     [0xC9C0, 0xB3C4], [0xC0AC, 0xB2E4, 0xB9AC], [0xC591, 0xB3D9, 0xC774], [0xC815, 0xC6D0],
     [0xBCA0, 0xB780, 0xB2E4], [0xD48D, 0xC120]]"

definition defaultDoctorWords :: "string list" where
  "defaultDoctorWords = map utf8
    [[0xC2E4], [0xC57D, 0xBCD1], [0xCCAD, 0xC9C4, 0xAE30], [0xC19C], [0xBD95, 0xB300], [0xB098, 0xBE44],
     [0xB178, 0xC744], [0xAE43, 0xBC1C], [0xB4F1, 0xB300], [0xC0DD, 0xBA85, 0xC120], [0xC6B0, 0xC720],
     [0xBCC4, 0xBE5B], [0xB530, 0xB73B, 0xD568], [0xC870, 0xC57D, 0xB3CC], [0xD480, 0xC78E], [0xD770, 0xC0C9],
     [0xAC70, 0xC988], [0xB77C, 0xC77C, 0xB77D], [0xBC84, 0xC12F], [0xD1A0, 0xB07C, 0xD480], [0xC5F0, 0xBABB],
     [0xC19C, 0xD138], [0xD638, 0xC22B, 0xBB3C], [0xBE44, 0xB204], [0xC190, 0xB09C, 0xB85C], [0xAE30, 0xB3C4],
     [0xC790, 0xC7A5, 0xAC00], [0xBC30, 0xB0C7, 0xC800, 0xACE0, 0xB9AC], [0xC6B0, 0xD3B8, 0xC5FD, 0xC11C],
     [0xD480, 0xBB34]]"

definition defaultPoliceWords :: "string list" where
  "defaultPoliceWords = map utf8
    [[0xB098, 0xCE68, 0xBC18], [0xB9DD, 0xC6D0, 0xACBD], [0xBC1C, 0xC790, 0xAD6D], [0xB2E8, 0xC11C],
     [0xC9C0, 0xB3C4, 0xCC45], [0xBB36, 0xC74C, 0xB048], [0xD638, 0xAC01], [0xC190, 0xC804, 0xB4F1],
     [0xC218, 0xCCA9], [0xD39C], [0xC778, 0xC7A5], [0xC548, 0xACBD, 0xD14C], [0xBB38, 0xACE0, 0xB9AC],
     [0xCE90, 0xBE44, 0xB2DB], [0xC11C, 0xB958], [0xC2A4, 0xD0EC, 0xD504], [0xBAA8, 0xB798, 0xC2DC, 0xACC4],
     [0xB098, 0xBB47, 0xACB0], [0xC790], [0xACA9, 0xC790], [0xAD50, 0xCC28, 0xB85C], [0xAC00, 0xB85C, 0xB4F1],
     [0xBAA8, 0xC790], [0xC678, 0xD22C], [0xC0C1, 0xC790], [0xBE44, 0xB458, 0xAE30], [0xAC70, 0xC6B8],
     [0xBCBD, 0xB3CC], [0xAD74, 0xB69D], [0xAD11, 0xC7A5]]"

section \<open>keyword.go and engine.go: the defaults\<close>

definition NewDefaultKeywordPool :: keyword_pool where
  "NewDefaultKeywordPool = \<lparr>kwMafia = defaultMafiaWords, kwCitizen = defaultCitizenWords,
     kwDoctor = defaultDoctorWords, kwPolice = defaultPoliceWords\<rparr>"

text \<open>\<open>NewDefault\<close>: the arguments are the system's clock and the bytes of the system's generator.\<close>

definition NewDefault :: "keyword_pool \<Rightarrow> (nat \<Rightarrow> time) \<Rightarrow> 8 word list \<Rightarrow> engine" where
  "NewDefault pool realClock randReader = New pool realClock randReader"

definition all_words :: "keyword_pool \<Rightarrow> string list" where
  "all_words p = kwMafia p @ kwCitizen p @ kwDoctor p @ kwPolice p"

definition pool_text :: "keyword_pool \<Rightarrow> bool" where
  "pool_text p \<longleftrightarrow> list_all valid_utf8 (all_words p)"

text \<open>
  The syllables of the Korean script take three bytes each, which are UTF-8 and determine the syllable.
\<close>

declare utf8_char.simps [simp del]

definition hangul :: "nat \<Rightarrow> bool" where
  "hangul c \<longleftrightarrow> 0xAC00 \<le> c \<and> c < 0xD7A4"

lemma hangul_bytes:
  assumes "hangul c"
  shows "utf8_char c = [0xE0 + c div 4096, 0x80 + c div 64 mod 64, 0x80 + c mod 64]"
    "10 \<le> c div 4096" "c div 4096 \<le> 13" "c div 4096 = 13 \<Longrightarrow> c div 64 mod 64 < 32"
proof -
  show "c div 64 mod 64 < 32" if "c div 4096 = 13"
  proof -
    have c: "c = (c - 53248) + 832 * 64" "(c - 53248) div 64 < 32" using assms that by (auto simp: hangul_def)
    have "c div 64 = 832 + (c - 53248) div 64" using div_mult_self1 [of 64 "c - 53248" 832] c(1) by simp
    then have "c div 64 mod 64 = ((c - 53248) div 64 + 13 * 64) mod 64" by (simp add: add.commute)
    then show ?thesis using c(2) by (simp only: mod_mult_self1) simp
  qed
qed (use assms in \<open>auto simp: hangul_def utf8_char.simps\<close>)

lemma byte_of: "n < 256 \<Longrightarrow> (of_char (char_of n :: char) :: nat) = n"
  by simp

lemma rune_width_hangul:
  assumes "hangul c"
  shows "rune_width (map char_of (utf8_char c) @ s) = 3"
proof -
  note b = hangul_bytes [OF assms]
  have m: "n mod 64 \<le> 63" for n :: nat using mod_less_divisor [of 64 n] by linarith
  have "c div 4096 \<noteq> 0" "\<not> c div 4096 < 1" "c div 4096 = 10 \<or> c div 4096 = 11 \<or> c div 4096 = 12 \<or> c div 4096 = 13"
    using b(2,3) by auto
  then show ?thesis
    using b(4) unfolding rune_width_def Let_def byte_in_def b(1)
    by (elim disjE) (simp_all add: byte_of m)
qed

lemma utf8_hangul_valid: "list_all hangul cs \<Longrightarrow> valid_utf8 (utf8 cs)"
proof (induction cs)
  case (Cons c cs)
  note b = hangul_bytes [of c]
  have "rune_width (map char_of (utf8_char c) @ utf8 cs) = 3" using rune_width_hangul Cons.prems by simp
  with Cons b(1) show ?case by (simp add: valid_utf8_def utf8_def numeral_3_eq_3)
qed (simp add: valid_utf8_def utf8_def)

lemma utf8_char_inj:
  assumes "hangul c" "hangul d" "utf8_char c = utf8_char d"
  shows "c = d"
proof -
  have "c div 4096 = d div 4096" "c div 64 mod 64 = d div 64 mod 64" "c mod 64 = d mod 64"
    using assms hangul_bytes(1) [of c] hangul_bytes(1) [of d] by simp_all
  moreover have "n = (n div 4096 * 64 + n div 64 mod 64) * 64 + n mod 64" for n :: nat
    using div_mult_mod_eq [of n 64] div_mult_mod_eq [of "n div 64" 64] by (simp add: div_mult2_eq [symmetric])
  ultimately show ?thesis by metis
qed

lemma utf8_Cons [simp]: "utf8 (c # cs) = map char_of (utf8_char c) @ utf8 cs"
  by (simp add: utf8_def)

lemma hangul_length: "hangul c \<Longrightarrow> length (utf8_char c) = 3"
  by (simp add: hangul_bytes(1))

lemma chars_inj:
  assumes "hangul c" "hangul d" "map (char_of :: nat \<Rightarrow> char) (utf8_char c) = map char_of (utf8_char d)"
  shows "c = d"
proof -
  have r: "map (of_char :: char \<Rightarrow> nat) (map char_of (utf8_char x)) = utf8_char x" if "hangul x" for x
  proof -
    have "x div 4096 < 32" using hangul_bytes(3) [OF that] by simp
    moreover have "x div 64 mod 64 < 64" "x mod 64 < 64" by simp_all
    ultimately show ?thesis unfolding hangul_bytes(1) [OF that] by simp
  qed
  have "utf8_char c = utf8_char d" using r [OF assms(1)] r [OF assms(2)] assms(3) by metis
  then show ?thesis by (rule utf8_char_inj [OF assms(1,2)])
qed

lemma utf8_hangul_ne: "hangul c \<Longrightarrow> utf8 (c # cs) \<noteq> '''' \<and> '''' \<noteq> utf8 (c # cs)"
  using hangul_length [of c] by auto

lemma utf8_inj:
  "list_all hangul cs \<Longrightarrow> list_all hangul ds \<Longrightarrow> utf8 cs = utf8 ds \<Longrightarrow> cs = ds"
proof (induction cs arbitrary: ds)
  case Nil
  then show ?case using utf8_hangul_ne by (cases ds) (auto simp: utf8_def simp del: utf8_Cons)
next
  case (Cons c cs)
  then obtain d ds' where ds: "ds = d # ds'"
    using utf8_hangul_ne [of c cs] by (cases ds) (auto simp: utf8_def simp del: utf8_Cons)
  have h: "hangul c" "hangul d" using Cons.prems by (simp_all add: ds)
  have "map char_of (utf8_char c) @ utf8 cs = map char_of (utf8_char d) @ utf8 ds'"
    using Cons.prems(3) by (simp add: ds)
  then have "map (char_of :: nat \<Rightarrow> char) (utf8_char c) = map char_of (utf8_char d)" "utf8 cs = utf8 ds'"
    using hangul_length [OF h(1)] hangul_length [OF h(2)] by (simp_all add: append_eq_append_conv)
  with chars_inj [OF h] Cons.IH [of ds'] Cons.prems show ?case by (simp add: ds)
qed

text \<open>
  The built-in pool has words for every role, all of them UTF-8 and none empty, and no word twice
  for one role.
\<close>

lemmas default_defs = defaultMafiaWords_def defaultCitizenWords_def defaultDoctorWords_def defaultPoliceWords_def

lemma hangul_words:
  assumes "list_all (list_all hangul) ws" "distinct ws" "[] \<notin> set ws" "length ws = n"
  shows "length (map utf8 ws) = n \<and> distinct (map utf8 ws) \<and> list_all valid_utf8 (map utf8 ws) \<and> '''' \<notin> set (map utf8 ws)"
proof -
  have "inj_on utf8 (set ws)" using utf8_inj assms(1) by (intro inj_onI) (simp add: list_all_iff)
  moreover have "'''' \<noteq> utf8 w" if "w \<in> set ws" for w
  proof -
    have "list_all hangul w" "w \<noteq> []" using that assms(1,3) by (auto simp: list_all_iff)
    then show ?thesis using utf8_hangul_ne by (cases w) (simp_all del: utf8_Cons)
  qed
  ultimately show ?thesis using assms utf8_hangul_valid by (auto simp: distinct_map list_all_iff)
qed

lemma default_words:
  "length defaultMafiaWords = 40 \<and> distinct defaultMafiaWords \<and> list_all valid_utf8 defaultMafiaWords \<and> '''' \<notin> set defaultMafiaWords"
  "length defaultCitizenWords = 40 \<and> distinct defaultCitizenWords \<and> list_all valid_utf8 defaultCitizenWords \<and> '''' \<notin> set defaultCitizenWords"
  "length defaultDoctorWords = 30 \<and> distinct defaultDoctorWords \<and> list_all valid_utf8 defaultDoctorWords \<and> '''' \<notin> set defaultDoctorWords"
  "length defaultPoliceWords = 30 \<and> distinct defaultPoliceWords \<and> list_all valid_utf8 defaultPoliceWords \<and> '''' \<notin> set defaultPoliceWords"
  unfolding default_defs by (rule hangul_words; simp add: hangul_def)+

lemma default_pool_ok: "pool_ok NewDefaultKeywordPool"
  using default_words by (auto simp: pool_ok_def NewDefaultKeywordPool_def)

lemma default_pool_text: "pool_text NewDefaultKeywordPool"
  using default_words by (simp add: pool_text_def all_words_def NewDefaultKeywordPool_def)

text \<open>Four words of the mafia are also words of the police.\<close>

lemma default_shared:
  "set (map utf8 [[0xBC1C, 0xC790, 0xAD6D], [0xC678, 0xD22C], [0xC0C1, 0xC790], [0xAC70, 0xC6B8]])
     \<subseteq> set defaultMafiaWords \<inter> set defaultPoliceWords"
  by (simp add: default_defs)

section \<open>keyword\_loader.go\<close>

definition empty_pool :: keyword_pool where
  "empty_pool = \<lparr>kwMafia = [], kwCitizen = [], kwDoctor = [], kwPolice = []\<rparr>"

text \<open>\<open>keywordPoolJSON\<close> and the whole of \<open>LoadKeywordPool\<close>: \<open>None\<close> is a document that is not JSON.\<close>

definition keywordPoolJSON :: "keyword_pool tag list" where
  "keywordPoolJSON =
     [tag ''mafia'' kwMafia kwMafia_update (slice_json string_json) (into_slice '''' into_string),
      tag ''citizen'' kwCitizen kwCitizen_update (slice_json string_json) (into_slice '''' into_string),
      tag ''doctor'' kwDoctor kwDoctor_update (slice_json string_json) (into_slice '''' into_string),
      tag ''police'' kwPolice kwPolice_update (slice_json string_json) (into_slice '''' into_string)]"

definition LoadKeywordPool_document :: "json option \<Rightarrow> go_error + keyword_pool" where
  "LoadKeywordPool_document raw =
     LoadKeywordPool (unmarshal (into_struct (decoders keywordPoolJSON)) empty_pool raw)"

lemma folded_pool: "distinct (map (\<lambda>t. foldName (fst t)) (decoders keywordPoolJSON))"
  by (simp add: decoders_def keywordPoolJSON_def tag_def omit_def field_def foldName_ascii upper_letters del: foldName.simps(2))

lemma codec_pool:
  assumes "pool_text p"
  shows "codec (struct_json keywordPoolJSON) (into_struct (decoders keywordPoolJSON)) empty_pool p p"
proof (rule struct_roundtrip [OF folded_pool])
  have w: "list_all valid_utf8 (kwMafia p)" "list_all valid_utf8 (kwCitizen p)" "list_all valid_utf8 (kwDoctor p)"
    "list_all valid_utf8 (kwPolice p)"
    using assms by (simp_all add: pool_text_def all_words_def)
  show "list_all2 (\<lambda>t zg. carries t p zg) keywordPoolJSON
    [(\<lambda>a. kwMafia a = [], kwMafia_update (\<lambda>_. kwMafia p)), (\<lambda>a. kwCitizen a = [], kwCitizen_update (\<lambda>_. kwCitizen p)),
     (\<lambda>a. kwDoctor a = [], kwDoctor_update (\<lambda>_. kwDoctor p)), (\<lambda>a. kwPolice a = [], kwPolice_update (\<lambda>_. kwPolice p))]"
    unfolding keywordPoolJSON_def
    by (intro list_all2_Cons [THEN iffD2] conjI carries_tag list_all2_Nil [THEN iffD2] codec_slice_id codec_valid_string)
       (use w in simp_all)
qed (simp_all add: empty_pool_def)

lemma pool_json_some: "struct_json keywordPoolJSON p \<noteq> None"
proof -
  have "slice_json string_json ws \<noteq> None" for ws by (rule slice_json_some) (simp add: string_json_def)
  then have "list_all (\<lambda>(name, present, enc, dec). enc p \<noteq> None) keywordPoolJSON"
    by (simp add: keywordPoolJSON_def tag_def omit_def)
  from object_json_some [OF this] show ?thesis by (simp add: struct_json_def)
qed



section \<open>Every game can be saved\<close>

lemma Start_words:
  assumes "rand_ok lib" "pool_ok pool" "lobby_ok players opts"
    "Start lib g host players opts e0 = (e, s, Inr evs)" "epool e0 = pool"
  shows "GameID (est e) = g \<and> HostID (est e) = host \<and> (host = '''' \<or> host \<in> ID ` set players) \<and>
    (\<forall>p\<in>set (Players (est e)). Keyword p \<in> insert '''' (set (all_words pool)) \<and>
       (\<exists>q\<in>set players. ID p = ID q \<and> Name p = Name q))"
proof -
  obtain r e' where n: "newInnerRand lib e0 = (r, e')" by fastforce
  have e': "epool e' = pool" using newInnerRand_simps(3) [of lib e0] n assms(5) by simp
  from assms(4) obtain rn where r: "r = Some rn"
    by (cases r) (auto simp: Start_def n split: if_splits)
  from assms(4) obtain a where a: "Assign lib pool (map ID players) opts rn = Inr a"
    by (cases "Assign lib pool (map ID players) opts rn") (auto simp: Start_def n r e' split: if_splits)
  then have v: "validateOptions opts (int (length players)) = None"
    by (auto simp: Assign_def Let_def split: option.splits)
  have l: "distinct (map ID players)" "options_in_range opts" using assms(3) by (simp_all add: lobby_ok_def)
  have good: "good_assignment pool (map ID players) opts a"
    using Assign_good [OF assms(1,2) l, of rn] v a by simp
  have g: "dom (PlayerRoles a) = set (map ID players)" "dom (PlayerKeywords a) = set (map ID players)"
    "\<forall>q r. PlayerRoles a q = Some r \<longrightarrow> (\<exists>kw\<in>set (poolFor pool r). PlayerKeywords a q = Some kw)"
    using good unfolding good_assignment_def by - (elim conjE, assumption)+
  have kw: "k \<in> set (all_words pool)" if "PlayerKeywords a q = Some k" for q k
  proof -
    have "q \<in> dom (PlayerRoles a)" using g(1,2) that by blast
    then obtain ro where "PlayerRoles a q = Some ro" by blast
    with g(3) that have "k \<in> set (poolFor pool ro)" by force
    then show ?thesis by (cases ro) (simp_all add: all_words_def)
  qed
  have "est e = zero_state\<lparr>GameID := g, Phase := PhaseIntro, Day := 1, Players := map (assign_player a) players, HostID := host,
      Settings := opts, StartedAt := eclock e' 0, IntroSpeakerIdx := 0, IntroSpeakerStartedAt := eclock e' 0,
      MafiaRepresentativeID := RepresentativeID a, Votes := [], PoliceCheckedThisNight := False, LastTickAt := eclock e' 0\<rparr>"
    using assms(4) by (auto simp: Start_def n r e' a Let_def Now_def split: if_splits option.splits)
  moreover have "\<not> (host \<noteq> '''' \<and> \<not> list_ex (\<lambda>p. ID p = host) players)"
    using assms(4) by (auto simp only: Start_def fail_def prod.inject sum.simps split: if_splits)
  then have "host = '''' \<or> host \<in> ID ` set players" by (auto simp: list_ex_iff)
  moreover have "Keyword (assign_player a q) \<in> insert '''' (set (all_words pool))" for q
    using kw by (simp add: assign_player_def split: option.split)
  ultimately show ?thesis by auto
qed

text \<open>
  C16: every game can be saved. Whatever state a game over a UTF-8 keyword pool has reached, if the
  identifiers and names it was started with are UTF-8 and its instants are dates that RFC 3339 can write,
  marshalling succeeds and unmarshalling gives the same state back, all 27 fields of it; the ballots, a Go
  map, come back ordered by voter.
\<close>
theorem game_stored:
  assumes "rand_ok lib" "pool_ok pool" "pool_text pool" "lobby_ok players opts"
    "Start lib g host players opts (New pool clock rng) = (e0, s, Inr evs)" "(game_step lib)\<^sup>*\<^sup>* e0 e"
    "list_all (\<lambda>p. valid_utf8 (ID p) \<and> valid_utf8 (Name p)) players" "valid_utf8 g" "Day (est e) < 2 ^ 63"
    "list_all (datable zone) (state_times (est e))"
  shows "\<exists>j. state_json zone (est e) = Some j \<and>
    into_state j zero_state = ((est e)\<lparr>Votes := sort_key fst (Votes (est e))\<rparr>, False)"
proof -
  have "epool (New pool clock rng) = pool" by (simp add: New_def)
  note st = Start_words [OF assms(1,2,4,5) this]
  have start: "started lib e0" by (rule started.intros [OF assms(2,4,5)])
  then have r: "reachable lib e0" "reachable lib e" using assms(6) by (auto simp: reachable_def)
  have ev: "evolves (est e0) (est e)" by (rule run_evolves [OF assms(1) r(1) assms(6)])
  have z: "valid_utf8 ''''" by (simp add: valid_utf8_def)
  have t0: "player_text p" if "p \<in> set (Players (est e0))" for p
  proof -
    obtain q where q: "q \<in> set players" "ID p = ID q" "Name p = Name q" "Keyword p \<in> insert '''' (set (all_words pool))"
      using st \<open>p \<in> set (Players (est e0))\<close> by blast
    then have "valid_utf8 (Keyword p)" using assms(3) z by (auto simp: pool_text_def list_all_iff)
    then show ?thesis using q assms(7) by (simp add: player_text_def list_all_iff)
  qed
  have "player_text p" if "p \<in> set (Players (est e))" for p
  proof -
    have "identity p \<in> set (map identity (Players (est e0)))"
      using that ev unfolding evolves_def by (metis image_eqI set_map)
    then obtain q where "q \<in> set (Players (est e0))" "identity q = identity p" by fastforce
    with t0 [of q] show ?thesis by (simp add: player_text_def identity_def)
  qed
  moreover have "GameID (est e) = g" "HostID (est e) = host" using st ev by (simp_all add: evolves_def)
  moreover have "valid_utf8 host" using st assms(7) z by (auto simp: list_all_iff)
  ultimately show ?thesis
    using state_json_roundtrip [OF reachable_storable [OF assms(1) r(2) _ _ _ assms(9)] assms(10)] assms(8)
    by (simp add: list_all_iff)
qed

lemma exec_run: "(game_step lib)\<^sup>*\<^sup>* e (exec lib cs e)"
  by (induction lib cs e rule: exec.induct) (auto intro: converse_rtranclp_into_rtranclp game_step.intros)

theorem game_stored_witness:
  "\<exists>j. state_json (\<lambda>_. 540) (est demo_night) = Some j \<and> into_state j zero_state = (est demo_night, False)"
proof -
  obtain s evs where start: "Start demo_lib ''g'' ''a'' demo_lobby (DefaultOptions 6) (New demo_pool (\<lambda>_. 100) (replicate 8 0)) = (demo_game, s, Inr evs)"
    using demo_start by blast
  have run: "(game_step demo_lib)\<^sup>*\<^sup>* demo_game demo_night" unfolding demo_night_def by (rule exec_run)
  have p: "pool_text demo_pool" "list_all (\<lambda>p. valid_utf8 (ID p) \<and> valid_utf8 (Name p)) demo_lobby" "valid_utf8 ''g''"
    by code_simp+
  have t: "Votes (est demo_night) = [] \<and> Day (est demo_night) < 2 ^ 63"
    by code_simp
  have "list_all (\<lambda>t. 0 \<le> t \<and> t \<le> 10 ^ 12) (state_times (est demo_night))" by code_simp
  moreover have "datable (\<lambda>_. 540) t" if "0 \<le> t" "t \<le> 10 ^ 12" for t
  proof -
    have "(t + 540 * 60 * second + 366 * day_ns) div day_ns = 366" using that by (simp add: second_def day_ns_def)
    then show ?thesis using that
      by (simp add: datable_def time_text_def year_of.simps year_length_def leap_def day_ns_def second_def)
  qed
  ultimately have "list_all (datable (\<lambda>_. 540)) (state_times (est demo_night))"
    by (auto simp: list_all_iff)
  then have "\<exists>j. state_json (\<lambda>_. 540) (est demo_night) = Some j \<and> into_state j zero_state = ((est demo_night)\<lparr>Votes := []\<rparr>, False)"
    using t game_stored [OF demo_lib_ok demo_pool_ok p(1) demo_lobby_ok start run p(2,3), of "\<lambda>_. 540"] by simp
  moreover have "(est demo_night)\<lparr>Votes := []\<rparr> = est demo_night" using t by (intro state.equality) simp_all
  ultimately show ?thesis by (simp only:)
qed

text \<open>The built-in pool is one of those: every game it serves can be saved.\<close>

lemma default_pool_stored: "pool_ok NewDefaultKeywordPool \<and> pool_text NewDefaultKeywordPool"
  using default_pool_ok default_pool_text by simp

end
