(* ===== verification/Spec2Isabelle.thy ===== *)
theory Spec2Isabelle
  imports Diagnostics Service Connection Clone Introductions Keywords
begin

text \<open>
  Verification of the server of the mafia game: a Go process that runs one game for the phones of a
  local network. This header describes the program, where each part of it is modelled, and what is proved.

  \<^bold>\<open>The program.\<close> The game core (\<open>internal/game\<close>) is a deterministic state machine: \<open>Engine.Apply\<close> takes an
  action of a player or of the host, \<open>Engine.Tick\<close> the time, and both return events. The announcement
  catalog (\<open>internal/announce\<close>) turns events and errors into Korean narration. The session manager
  (\<open>internal/session\<close>) owns the members of the lobby, their tokens, the host's seat and the engine; it
  persists the game in a SQLite store (\<open>internal/persistence\<close>) and hands the events to its
  subscribers. The hub (\<open>internal/transport/ws\<close>) keeps the WebSocket clients, decodes their messages into
  calls of the manager and routes the manager's events to the clients they are meant for. The HTTP
  layer (\<open>internal/transport/http\<close>) and \<open>cmd/mafia-game\<close> serve, start and stop all of it.

  \<^bold>\<open>Theories and sources.\<close> The theories build on each other in this order.

  \<^item> \<open>Prelude\<close>: 64-bit integers, \<open>time\<close> (nanoseconds since the zero time, as an unbounded integer),
    Go maps as association lists with distinct keys, \<open>%d\<close>.
  \<^item> \<open>GameTypes\<close>: \<open>types.go\<close>, \<open>action.go\<close>, \<open>event.go\<close>, \<open>error.go\<close>. \<open>Validation\<close>: \<open>validation.go\<close>.
  \<^item> \<open>EngineBase\<close>: the engine object of \<open>engine.go\<close> with its clock, random source and keyword pool
    (\<open>keyword.go\<close>, \<open>keyword_loader.go\<close>), and the shape of every operation's result. The interface
    \<open>handler\<close> states what every operation respects.
  \<^item> \<open>Roles\<close>: \<open>role.go\<close>. \<open>EndGame\<close>: \<open>end.go\<close>. \<open>Night\<close>: \<open>resolve_night.go\<close>, \<open>handlers_night.go\<close>.
    \<open>Vote\<close>: \<open>handlers_day_vote.go\<close>, \<open>tally.go\<close>. \<open>Lifecycle\<close>: \<open>handlers_lifecycle.go\<close>. \<open>Ticks\<close>: \<open>tick.go\<close>.
    \<open>Engine\<close>: \<open>engine.go\<close>, \<open>apply.go\<close>.
  \<^item> \<open>Invariants\<close>, \<open>Reachability\<close>, \<open>Timing\<close>, \<open>Scenarios\<close>: the engine as a transition system (interface
    \<open>transition_system\<close>): what every reachable game satisfies, and how it treats time.
  \<^item> \<open>View\<close>: \<open>session/view.go\<close> and the audience of events. \<open>Announce\<close>: the catalog. \<open>Store\<close>: the three
    tables of the database and the statements on them, each of which may fail.
  \<^item> \<open>Session\<close>: every operation of \<open>session.go\<close>, \<open>lifecycle.go\<close>, \<open>action.go\<close>, \<open>tick.go\<close>, \<open>token.go\<close>,
    \<open>host_authority.go\<close>, \<open>host_options.go\<close>. \<open>Seating\<close>: the order of the players and the host's seat
    (interface \<open>host_seat\<close>). \<open>Manager\<close>, \<open>Durability\<close>, \<open>Lobby\<close>: the manager as a transition system,
    crashes and restarts, joining.
  \<^item> \<open>Protocol\<close>: \<open>ws/protocol.go\<close> and the encodings of \<open>dispatch.go\<close>. \<open>Hub\<close>: \<open>id.go\<close>, \<open>client.go\<close>,
    \<open>hub.go\<close>, \<open>writer.go\<close>, \<open>dispatch.go\<close>, \<open>handlers.go\<close>. \<open>HubInv\<close>, \<open>Network\<close>: the hub as a
    transition system.
  \<^item> \<open>Server\<close>: \<open>transport/http\<close> and \<open>cmd/mafia-game/main.go\<close>.
  \<^item> \<open>Clone\<close>: \<open>state_clone.go\<close> on a heap of slices, maps and pointers; it is why every other theory may
    take a state for a value. \<open>Introductions\<close>: the introductions end by themselves.
  \<^item> \<open>TimeText\<close>, \<open>Encoding\<close>: what \<open>encoding/json\<close> does with the tags of \<open>types.go\<close> and \<open>store.go\<close>, the dates
    in RFC 3339 included. \<open>Persist\<close>: the columns of \<open>sqlite_store.go\<close>, of which \<open>Store\<close> is the
    abstraction (interface \<open>implements\<close>), and the opening of the store with \<open>schema.go\<close>. \<open>Wire\<close>:
    \<open>mustMarshal\<close> on every outgoing message. \<open>Storable\<close>: every reachable state satisfies what the
    encoding asks for. \<open>Keywords\<close>: the words of \<open>keyword_pool_data.go\<close>, the document of
    \<open>keyword_loader.go\<close>, and that every game over such words can be saved.
  \<^item> \<open>Process\<close>: the loop of \<open>session/tick.go\<close>, the hub's \<open>Run\<close> and upgrade handler, \<open>run\<close> from the
    opening of the store to the exit code. \<open>Connection\<close>: \<open>readLoop\<close> of \<open>handlers.go\<close> with its limit and
    deadline, the upgrade through \<open>middleware.go\<close>. \<open>Diagnostics\<close>: the sentinels and texts of \<open>error.go\<close>.
  \<^item> \<open>Lifetimes\<close>, \<open>Service\<close>: what a process leaves in the database, and the service over all its
    processes, through any number of crashes, failures and restarts.

  \<^bold>\<open>How state and effects are modelled.\<close> Structs are records with the source's field names (with a prefix
  where a name would clash), enumerations datatypes, pointers options, slices lists, maps association
  lists in insertion order. An operation takes the state and returns it updated with its result; an
  error is the left summand, and \<open>GoPanic\<close> stands for a run-time panic, which is proved absent from
  reachable games. The clock, the random source, generated identifiers and the driver of the
  database are streams of the state, read in the order of the code; \<open>math/rand\<close> is a parameter
  \<open>rand_lib\<close> whose documented ranges are the hypothesis \<open>rand_ok\<close>. The loops of the engine are recursive
  functions with a measure: the speakers still to come, the sub-steps of the night still to come; there
  is no fuel. The calendar of \<open>TimeText\<close> is a recursion over the years with the days left as measure. The issue of an unused token is bounded by the source's own number of attempts.

  \<^bold>\<open>What is proved.\<close> For the engine: the assignment of roles, the outcome of votes and nights, the win
  conditions, absence of panics, one living representative of the mafia, soundness of the
  investigations, monotonicity of runs, exact pause and resume, insensitivity to late and repeated ticks.
  For secrecy: the audience of every event, the masked view and its non-interference, the
  narration. For the session: membership under every interleaving and every failure of the database,
  refinement of the engine's transition system, atomic recording of results, recovery of the game after a
  crash and after a shutdown. These hold of every process, the ones that come up on what another left
  included: the invariant of the service carries them through crashes at any statement of the
  database and restarts, with one exception that the code has, a game that ended without its result being
  recorded (\<open>result_lost\<close>, \<open>lost_result_revives\<close>), whose row a process must not come up on. For the network: refinement of the session, exact delivery of
  events, the host's seat, and that a client that answers the pings stays and a silent one goes. For the HTTP layer: the results endpoint. For what is stored and sent: a reachable state, a
  result and an event are read back as they were written, and the store on JSON columns implements
  the abstract one statement by statement; opening it works completely or not at all. A copied state
  shares nothing with its original.

  \<^bold>\<open>Not modelled.\<close> The messages in the texts of the engine's errors (they are an argument), the difference between nil and
  empty slices and maps inside the engine, enumeration strings outside the declared constants, the
  overflow of \<open>time.Duration\<close> except for the products of the options with a second, and the
  interleavings below one operation: every operation of the manager runs under its mutex and is a
  step, every operation of the registry runs under the registry's. The syntax of JSON (a text is its
  value, or does not parse), SQL, sockets, the HTTP upgrade, the file server, signals and flag parsing
  belong to libraries. The payload column of the event log, which nothing reads, keeps the event. In
  \<open>Store\<close> a row keeps the ballots in the order they were cast, a Go map has none: the columns of \<open>Persist\<close>
  order them by voter. The web client (\<open>src/web\<close>) is not modelled.
\<close>

end
